theory Spec2Isabelle
  imports Complex_Main
begin

section \<open>Data model\<close>

text \<open>
  The two programs, \<^verbatim>\<open>calc_LGF.py\<close> (assembly of the lattice Green function) and
  \<^verbatim>\<open>relaxation_wlammps.py\<close> (the relaxation loop coupled to LAMMPS), work on numpy
  arrays of floats. The embedding idealises a float as a \<^typ>\<open>real\<close>: rounding, infinities
  and NaN are outside the model. Every exception the Python raises is a value
  \<open>Inl e\<close> of the result.
\<close>

datatype py_error =
    ValueError string
  | IndexError
  | KeyError string
  | NameError string
  | NonFinite

text \<open>
  An \<open>(n, 3)\<close> array is a list of rows, a row a triple; a one-dimensional array is a
  list; a two-dimensional array read only through products and slices (\<open>D\<close>, \<open>G\<close>)
  is its shape with its entries.
\<close>

type_synonym vec3 = "real \<times> real \<times> real"

type_synonym mat3 = "vec3 \<times> vec3 \<times> vec3"

record matrix =
  nrows :: nat
  ncols :: nat
  entry :: "nat \<Rightarrow> nat \<Rightarrow> real"

section \<open>relaxation\_wlammps.py: loading the persisted LGF\<close>

text \<open>
  Lines 295--302: the three attributes of the HDF5 file are compared, in this order,
  with the sizes of the grid read for the current run; the first that differs raises
  \<^verbatim>\<open>ValueError('LGF not consistent with setup? Has size_... = {} != {}')\<close>
  (the message is kept without its two formatted numbers). \<open>attrs\<close> is the
  attribute dictionary of the file, \<open>GF\<close> its dataset; a missing attribute is h5py's
  \<^verbatim>\<open>KeyError\<close>.
\<close>

definition load_G ::
  "(string \<rightharpoonup> int) \<Rightarrow> 'g \<Rightarrow> int \<Rightarrow> int \<Rightarrow> int \<Rightarrow> py_error + 'g" where
  "load_G attrs GF size_1 size_12 size_123 =
     (case attrs ''size_1'' of
        None \<Rightarrow> Inl (KeyError ''size_1'')
      | Some a1 \<Rightarrow>
          if a1 \<noteq> size_1
          then Inl (ValueError ''LGF not consistent with setup? Has size_1'')
          else (case attrs ''size_12'' of
             None \<Rightarrow> Inl (KeyError ''size_12'')
           | Some a12 \<Rightarrow>
               if a12 \<noteq> size_12
               then Inl (ValueError ''LGF not consistent with setup? Has size_12'')
               else (case attrs ''size_123'' of
                  None \<Rightarrow> Inl (KeyError ''size_123'')
                | Some a123 \<Rightarrow>
                    if a123 \<noteq> size_123
                    then Inl (ValueError ''LGF not consistent with setup? Has size_123'')
                    else Inr GF)))"

text \<open>The file written by a run whose grid had the three given region sizes.\<close>

definition stored_attrs :: "int \<Rightarrow> int \<Rightarrow> int \<Rightarrow> (string \<rightharpoonup> int)" where
  "stored_attrs a1 a12 a123 =
     [''size_1'' \<mapsto> a1, ''size_12'' \<mapsto> a12, ''size_123'' \<mapsto> a123]"

definition is_ValueError :: "py_error + 'a \<Rightarrow> bool" where
  "is_ValueError r = (case r of Inl (ValueError msg) \<Rightarrow> True | _ \<Rightarrow> False)"

section \<open>numpy operations\<close>

fun vadd :: "vec3 \<Rightarrow> vec3 \<Rightarrow> vec3" where
  "vadd (a, b, c) (x, y, z) = (a + x, b + y, c + z)"

fun vsub :: "vec3 \<Rightarrow> vec3 \<Rightarrow> vec3" where
  "vsub (a, b, c) (x, y, z) = (a - x, b - y, c - z)"

fun vneg :: "vec3 \<Rightarrow> vec3" where
  "vneg (a, b, c) = (- a, - b, - c)"

fun vscale :: "real \<Rightarrow> vec3 \<Rightarrow> vec3" where
  "vscale s (a, b, c) = (s * a, s * b, s * c)"

text \<open>\<^verbatim>\<open>sum(u**2)\<close> for a row \<open>u\<close>.\<close>

fun sumsq :: "vec3 \<Rightarrow> real" where
  "sumsq (a, b, c) = a\<^sup>2 + b\<^sup>2 + c\<^sup>2"

definition norm3 :: "vec3 \<Rightarrow> real" where
  "norm3 u = sqrt (sumsq u)"

text \<open>Row-major flattening of an \<open>(n, 3)\<close> array, and its inverse.\<close>

fun ravel :: "vec3 list \<Rightarrow> real list" where
  "ravel [] = []"
| "ravel ((a, b, c) # rs) = a # b # c # ravel rs"

fun rows3 :: "real list \<Rightarrow> vec3 list" where
  "rows3 (a # b # c # xs) = (a, b, c) # rows3 xs"
| "rows3 xs = []"

text \<open>
  \<^verbatim>\<open>np.reshape(x, (d, w))\<close> for an array of \<open>cnt\<close> entries is accepted when
  \<open>d \<ge> 0\<close> and \<open>d * w = cnt\<close>, or when \<open>d\<close> is negative (numpy takes any
  negative dimension as the one to infer) and \<open>w\<close> is positive and divides \<open>cnt\<close>;
  otherwise it raises \<^verbatim>\<open>ValueError\<close>.
\<close>

definition reshape_ok :: "int \<Rightarrow> nat \<Rightarrow> nat \<Rightarrow> bool" where
  "reshape_ok d w cnt =
     (if 0 \<le> d then nat d * w = cnt else 0 < w \<and> w dvd cnt)"

definition reshape_n3 :: "int \<Rightarrow> real list \<Rightarrow> py_error + vec3 list" where
  "reshape_n3 d xs =
     (if reshape_ok d 3 (length xs) then Inr (rows3 xs)
      else Inl (ValueError ''cannot reshape array''))"

text \<open>\<^verbatim>\<open>np.dot(A, v)\<close> of a matrix with a vector (or an \<open>(n, 1)\<close> column).\<close>

definition dot_mv :: "matrix \<Rightarrow> real list \<Rightarrow> py_error + real list" where
  "dot_mv A v =
     (if ncols A \<noteq> length v then Inl (ValueError ''shapes not aligned'')
      else Inr (map (\<lambda>r. \<Sum>c\<leftarrow>[0..<ncols A]. entry A r c * v ! c) [0..<nrows A]))"

text \<open>The row slice \<^verbatim>\<open>A[k:, :]\<close>.\<close>

definition rows_from :: "nat \<Rightarrow> matrix \<Rightarrow> matrix" where
  "rows_from k A =
     \<lparr>nrows = nrows A - k, ncols = ncols A, entry = (\<lambda>r c. entry A (r + k) c)\<rparr>"

text \<open>
  The in-place \<^verbatim>\<open>a += b\<close> and \<^verbatim>\<open>a -= b\<close> of two \<open>(_, 3)\<close> arrays: \<open>b\<close> is
  broadcast to the shape of \<open>a\<close>, which needs as many rows as \<open>a\<close> or exactly one.
\<close>

definition iop_rows ::
  "(vec3 \<Rightarrow> vec3 \<Rightarrow> vec3) \<Rightarrow> vec3 list \<Rightarrow> vec3 list \<Rightarrow> py_error + vec3 list" where
  "iop_rows f a b =
     (if length b = length a then Inr (map2 f a b)
      else if length b = 1 then Inr (map (\<lambda>u. f u (hd b)) a)
      else Inl (ValueError ''operands could not be broadcast together''))"

text \<open>Python's \<^verbatim>\<open>max\<close> of a sequence: \<^verbatim>\<open>ValueError\<close> on an empty one.\<close>

definition py_max :: "real list \<Rightarrow> py_error + real" where
  "py_max xs = (case xs of [] \<Rightarrow> Inl (ValueError ''max() arg is an empty sequence'')
                | x # ys \<Rightarrow> Inr (fold max ys x))"

section \<open>relaxation\_wlammps.py: one coupling cycle\<close>

text \<open>
  Line 177, \<^verbatim>\<open>forces_2 = np.reshape(forces[size_1:size_12], (3*(size_12-size_1), 1))\<close>:
  the slice clamps at the end of \<open>forces\<close>, the reshape then needs exactly
  \<open>size_12 - size_1\<close> rows (for \<open>size_12 < size_1\<close> the slice is empty and the
  negative dimension is inferred as 0).
\<close>

definition coupling_forces :: "nat \<Rightarrow> nat \<Rightarrow> vec3 list \<Rightarrow> py_error + real list" where
  "coupling_forces size_1 size_12 forces =
     (let sl = take (size_12 - size_1) (drop size_1 forces) in
      if reshape_ok (3 * (int size_12 - int size_1)) 1 (3 * length sl)
      then Inr (ravel sl)
      else Inl (ValueError ''cannot reshape array''))"

text \<open>
  Lines 182--190, the branch of the methods \<^verbatim>\<open>dislLGF123\<close> and \<^verbatim>\<open>perfbulkLGF123\<close>.
  \<open>dispmax\<close> is the square root of the largest \<^verbatim>\<open>sum(u**2)\<close> over the rows \<open>u\<close> of
  \<open>disp\<close>. When \<open>dispmax < maxdisp\<close> fails with \<open>dispmax = 0\<close> the float division
  gives an infinity or NaN and the grid is filled with it: the model has no real for
  that and returns \<open>NonFinite\<close>. The squares, the square root, the quotient
  \<open>maxdisp / dispmax\<close> and the products \<open>scale * disp\<close> are exact in the model; the
  program rounds each of them to a float64 (and the squares can overflow), so what the
  model says of the size of a scaled row holds of the program only up to that rounding.
\<close>

definition dispmax_of :: "vec3 list \<Rightarrow> py_error + real" where
  "dispmax_of disp =
     (case py_max (map sumsq disp) of Inl e \<Rightarrow> Inl e | Inr mx \<Rightarrow> Inr (sqrt mx))"

definition scale_of :: "real \<Rightarrow> real \<Rightarrow> real" where
  "scale_of dispmax maxdisp = (if dispmax < maxdisp then 1 else maxdisp / dispmax)"

definition LGF123_update ::
  "vec3 list \<Rightarrow> real list \<Rightarrow> nat \<Rightarrow> matrix \<Rightarrow> real \<Rightarrow> py_error + vec3 list" where
  "LGF123_update grid forces_2 size_123 G maxdisp =
     (case dot_mv G forces_2 of
        Inl e \<Rightarrow> Inl e
      | Inr gf \<Rightarrow>
         (case reshape_n3 (int size_123) gf of
            Inl e \<Rightarrow> Inl e
          | Inr disp \<Rightarrow>
             (case dispmax_of disp of
                Inl e \<Rightarrow> Inl e
              | Inr dispmax \<Rightarrow>
                  if \<not> dispmax < maxdisp \<and> dispmax = 0 then Inl NonFinite
                  else iop_rows vadd grid (map (vscale (scale_of dispmax maxdisp)) disp))))"

text \<open>
  Lines 195--196, the branch of the methods \<^verbatim>\<open>dislLGF23\<close> and \<^verbatim>\<open>perfbulkLGF23\<close>:
  \<^verbatim>\<open>grid[size_1:] -= np.reshape(-np.dot(G[3*size_1:,:],forces_2), (size_123-size_1,3))\<close>.
  The rows before \<open>size_1\<close> are not part of the slice assigned to.
\<close>

definition LGF23_update ::
  "vec3 list \<Rightarrow> real list \<Rightarrow> nat \<Rightarrow> nat \<Rightarrow> matrix \<Rightarrow> py_error + vec3 list" where
  "LGF23_update grid forces_2 size_1 size_123 G =
     (case dot_mv (rows_from (3 * size_1) G) forces_2 of
        Inl e \<Rightarrow> Inl e
      | Inr gf \<Rightarrow>
         (case reshape_n3 (int size_123 - int size_1) (map uminus gf) of
            Inl e \<Rightarrow> Inl e
          | Inr ndisp \<Rightarrow>
             (case iop_rows vsub (drop size_1 grid) ndisp of
                Inl e \<Rightarrow> Inl e
              | Inr moved \<Rightarrow> Inr (take size_1 grid @ moved))))"

text \<open>
  \<^verbatim>\<open>relaxation_cycle\<close>, lines 149--201. Its first step calls the atomistic engine
  (\<^verbatim>\<open>lammps_minimize_getforces\<close>), which is outside the repository: the model takes
  the pair \<open>(grid, forces)\<close> that call returned in place of the settings \<open>ls\<close> and
  \<open>antiplane\<close> that only reach the engine.
\<close>

definition relaxation_cycle ::
  "vec3 list \<times> vec3 list \<Rightarrow> nat \<Rightarrow> nat \<Rightarrow> nat \<Rightarrow> matrix \<Rightarrow> string \<Rightarrow> real
     \<Rightarrow> py_error + vec3 list" where
  "relaxation_cycle engine_out size_1 size_12 size_123 G method maxdisp =
     (case engine_out of (grid, forces) \<Rightarrow>
       (case coupling_forces size_1 size_12 forces of
          Inl e \<Rightarrow> Inl e
        | Inr forces_2 \<Rightarrow>
            if method = ''dislLGF123'' \<or> method = ''perfbulkLGF123''
            then LGF123_update grid forces_2 size_123 G maxdisp
            else if method = ''dislLGF23'' \<or> method = ''perfbulkLGF23''
            then LGF23_update grid forces_2 size_1 size_123 G
            else Inl (ValueError ''invalid method!'')))"

section \<open>Fixtures and the spec's wording of the full update\<close>

text \<open>
  A grid of two atoms with one coupling atom: \<open>ex_G g\<close> maps a unit force along the first
  direction of the coupling atom to the displacement \<open>(g, 0, 0)\<close> of atom 0;
  \<open>ex_G23 g\<close> maps it to the displacement \<open>(g, 0, 0)\<close> of atom 1.
\<close>

definition ex_G :: "real \<Rightarrow> matrix" where
  "ex_G g = \<lparr>nrows = 6, ncols = 3, entry = (\<lambda>r c. if r = 0 \<and> c = 0 then g else 0)\<rparr>"

definition ex_G23 :: "real \<Rightarrow> matrix" where
  "ex_G23 g = \<lparr>nrows = 6, ncols = 3, entry = (\<lambda>r c. if r = 3 \<and> c = 0 then g else 0)\<rparr>"

definition ex_grid :: "vec3 list" where
  "ex_grid = [(0, 0, 0), (1, 0, 0)]"

definition ex_forces :: "vec3 list" where
  "ex_forces = [(1, 0, 0), (0, 0, 0)]"

definition ex_forces23 :: "vec3 list" where
  "ex_forces23 = [(0, 0, 0), (1, 0, 0)]"

text \<open>
  Following the spec's words, not the source: the root-mean-square displacement of a
  field (over its atoms), and the full update that caps it, scaling the field by the
  cap divided by that magnitude when the magnitude exceeds the cap.
\<close>

definition rms_displacement :: "vec3 list \<Rightarrow> real" where
  "rms_displacement disp = sqrt ((\<Sum>u\<leftarrow>disp. sumsq u) / real (length disp))"

definition spec_full_update :: "vec3 list \<Rightarrow> vec3 list \<Rightarrow> real \<Rightarrow> vec3 list" where
  "spec_full_update grid disp maxdisp =
     (if rms_displacement disp > maxdisp
      then map2 vadd grid (map (vscale (maxdisp / rms_displacement disp)) disp)
      else map2 vadd grid disp)"

section \<open>relaxation\_wlammps.py: the relaxation loop\<close>

text \<open>
  An entry of the grid, the namedtuple \<^verbatim>\<open>atom(ind, reg, m, n, t, basis)\<close>. The fields
  carry a prefix since \<open>m\<close>, \<open>n\<close> and \<open>t\<close> would capture the variables of every later
  statement.
\<close>

record atominfo =
  atom_ind :: int
  atom_reg :: int
  atom_m :: real
  atom_n :: real
  atom_t :: real
  atom_basis :: int

text \<open>
  What is fixed before the loop starts. The two operations of the atomistic engine are
  outside the repository and are parameters: each reads the data file (the atoms last
  written to \<^verbatim>\<open>ls.datafilename\<close>) and may depend on, and change, a state \<open>'e\<close>
  of its own, so that LAMMPS as well as a test stub that replays a list of answers is an
  instance.
\<close>

record 'e run_setup =
  lammps_minimize_getforces :: "'e \<Rightarrow> atominfo list \<Rightarrow> (vec3 list \<times> vec3 list) \<times> 'e"
  lammps_getforces :: "'e \<Rightarrow> atominfo list \<Rightarrow> vec3 list \<times> 'e"
  xyz_grid :: "atominfo list"
  sz_1 :: nat
  sz_12 :: nat
  sz_123 :: nat
  G_mnt :: matrix
  LGF_method :: string
  ftol :: real

text \<open>
  The variables the loop changes, the data file, the file \<^verbatim>\<open>forces.npy\<close>
  (\<open>None\<close> while it has not been written), the engine's state and the number of
  calls made to the engine.
\<close>

record 'e relax_state =
  forces_12 :: "real list"
  force_evolution :: "real list"
  datafile :: "atominfo list"
  forces_npy :: "real list option"
  engine :: 'e
  engine_calls :: nat

text \<open>\<^verbatim>\<open>np.linalg.norm(forces_12)\<close>.\<close>

definition force_2norm :: "real list \<Rightarrow> real" where
  "force_2norm fs = sqrt (\<Sum>x\<leftarrow>fs. x\<^sup>2)"

text \<open>\<^verbatim>\<open>argmax\<close>: the first index of the largest entry.\<close>

fun argmax :: "real list \<Rightarrow> nat" where
  "argmax [] = 0"
| "argmax [x] = 0"
| "argmax (x # y # ys) = (let k = argmax (y # ys) in if (y # ys) ! k \<le> x then 0 else Suc k)"

text \<open>
  \<^verbatim>\<open>abs(forces_12.flat[abs(forces_12).argmax()])\<close>; numpy's \<^verbatim>\<open>argmax\<close> raises
  \<^verbatim>\<open>ValueError\<close> on an empty array.
\<close>

definition force_max :: "real list \<Rightarrow> py_error + real" where
  "force_max fs =
     (if fs = [] then Inl (ValueError ''attempt to get argmax of an empty sequence'')
      else Inr \<bar>fs ! argmax (map abs fs)\<bar>)"

text \<open>
  \<^verbatim>\<open>np.reshape(forces[:size_12], (3*size_12, 1))\<close>, lines 336 and 366.
\<close>

definition core_coupling_forces :: "nat \<Rightarrow> vec3 list \<Rightarrow> py_error + real list" where
  "core_coupling_forces size_12 forces =
     (if length (take size_12 forces) = size_12 then Inr (ravel (take size_12 forces))
      else Inl (ValueError ''cannot reshape array''))"

text \<open>
  Lines 356--366, the \<^verbatim>\<open>else\<close> branch of an iteration: one cycle with the default
  cap \<^verbatim>\<open>maxdisp=1e2\<close>, the new coordinates zipped with the atoms of the grid and written
  to the data file, and the forces computed again.
\<close>

definition grid_new :: "atominfo list \<Rightarrow> vec3 list \<Rightarrow> atominfo list" where
  "grid_new grid grid_mat =
     map2 (\<lambda>atom mnt. \<lparr>atom_ind = atom_ind atom, atom_reg = atom_reg atom,
                        atom_m = fst mnt, atom_n = fst (snd mnt), atom_t = snd (snd mnt),
                        atom_basis = 0\<rparr>) grid grid_mat"

definition coupling_step :: "'e run_setup \<Rightarrow> 'e relax_state \<Rightarrow> py_error + 'e relax_state" where
  "coupling_step S s =
     (case lammps_minimize_getforces S (engine s) (datafile s) of (out, e1) \<Rightarrow>
       (case relaxation_cycle out (sz_1 S) (sz_12 S) (sz_123 S) (G_mnt S) (LGF_method S) 100 of
          Inl err \<Rightarrow> Inl err
        | Inr grid_mat \<Rightarrow>
           (case lammps_getforces S e1 (grid_new (xyz_grid S) grid_mat) of (forces_new, e2) \<Rightarrow>
             (case core_coupling_forces (sz_12 S) forces_new of
                Inl err \<Rightarrow> Inl err
              | Inr f12 \<Rightarrow>
                  Inr (s\<lparr>forces_12 := f12, datafile := grid_new (xyz_grid S) grid_mat,
                         engine := e2, engine_calls := engine_calls s + 2\<rparr>)))))"

text \<open>
  How the \<^verbatim>\<open>for\<close> loop of lines 340--366 ended: by the \<^verbatim>\<open>break\<close> of line 350,
  by the \<^verbatim>\<open>break\<close> of line 353, or by exhausting \<^verbatim>\<open>range(args.maxouteriter)\<close>.
  The source has no variable for it; the names are the spec's.
\<close>

datatype outcome = CONVERGED | DIVERGED | MAX_ITER_REACHED

text \<open>One pass through the body of the loop; \<open>None\<close> when the loop goes on.\<close>

definition outer_iteration ::
  "'e run_setup \<Rightarrow> 'e relax_state \<Rightarrow> py_error + (outcome option \<times> 'e relax_state)" where
  "outer_iteration S s =
     (case force_max (forces_12 s) of
        Inl err \<Rightarrow> Inl err
      | Inr fmax \<Rightarrow>
         (let s1 = s\<lparr>force_evolution := force_evolution s @ [fmax]\<rparr> in
          if fmax < ftol S then Inr (Some CONVERGED, s1)
          else if force_2norm (forces_12 s) > 100 then Inr (Some DIVERGED, s1)
          else (case coupling_step S s1 of
                  Inl err \<Rightarrow> Inl err
                | Inr s2 \<Rightarrow> Inr (None, s2))))"

fun relaxation_loop ::
  "'e run_setup \<Rightarrow> nat \<Rightarrow> 'e relax_state \<Rightarrow> py_error + (outcome \<times> 'e relax_state)" where
  "relaxation_loop S 0 s = Inr (MAX_ITER_REACHED, s)"
| "relaxation_loop S (Suc k) s =
     (case outer_iteration S s of
        Inl err \<Rightarrow> Inl err
      | Inr (Some x, s') \<Rightarrow> Inr (x, s')
      | Inr (None, s') \<Rightarrow> relaxation_loop S k s')"

text \<open>
  Lines 291--292 and 335--368: the first \<open>size_123\<close> atoms are written to the data
  file, the initial forces computed, the loop run for \<open>maxouteriter\<close> iterations (none
  when the argument is negative), and only then, after the loop, line 368 saves the log:
  \<^verbatim>\<open>np.save('forces.npy',force_evolution)\<close>. An exception leaves the program before
  that line. \<open>e0\<close> is the engine's state and \<open>disk\<close> the file \<^verbatim>\<open>forces.npy\<close> at
  the start.
\<close>

definition initial_state ::
  "'e run_setup \<Rightarrow> 'e \<Rightarrow> real list option \<Rightarrow> py_error + 'e relax_state" where
  "initial_state S e0 disk =
     (case lammps_getforces S e0 (take (sz_123 S) (xyz_grid S)) of (forces, e1) \<Rightarrow>
       (case core_coupling_forces (sz_12 S) forces of
          Inl err \<Rightarrow> Inl err
        | Inr f12 \<Rightarrow>
            Inr \<lparr>forces_12 = f12, force_evolution = [],
                 datafile = take (sz_123 S) (xyz_grid S), forces_npy = disk,
                 engine = e1, engine_calls = 1\<rparr>))"

definition relaxation_main ::
  "'e run_setup \<Rightarrow> int \<Rightarrow> 'e \<Rightarrow> real list option \<Rightarrow> py_error + (outcome \<times> 'e relax_state)" where
  "relaxation_main S maxouteriter e0 disk =
     (case initial_state S e0 disk of
        Inl err \<Rightarrow> Inl err
      | Inr s0 \<Rightarrow>
         (case relaxation_loop S (nat maxouteriter) s0 of
            Inl err \<Rightarrow> Inl err
          | Inr (x, s) \<Rightarrow> Inr (x, s\<lparr>forces_npy := Some (force_evolution s)\<rparr>)))"

text \<open>
  The stub of the spec's convergence scenario: one atom, which is the coupling region;
  the relaxation step returns the atom where the data file has it, with no force;
  each force evaluation replays the next value of a list as the only non-zero force
  component.
\<close>

definition stub_setup :: "real list run_setup" where
  "stub_setup =
     \<lparr>lammps_minimize_getforces =
        (\<lambda>e df. ((map (\<lambda>a. (atom_m a, atom_n a, atom_t a)) df, map (\<lambda>a. (0, 0, 0)) df), e)),
      lammps_getforces =
        (\<lambda>e df. case e of [] \<Rightarrow> ([(0, 0, 0)], []) | v # vs \<Rightarrow> ([(v, 0, 0)], vs)),
      xyz_grid = [\<lparr>atom_ind = 0, atom_reg = 2, atom_m = 0, atom_n = 0, atom_t = 0,
                   atom_basis = 0\<rparr>],
      sz_1 = 0, sz_12 = 1, sz_123 = 1,
      G_mnt = \<lparr>nrows = 3, ncols = 3, entry = (\<lambda>r c. 0)\<rparr>,
      LGF_method = ''dislLGF123'',
      ftol = 1 / 10\<rparr>"

text \<open>
  The state of the loop under the stub: the force component \<open>v\<close> last computed, the
  log so far, the values the stub has yet to replay and the number of engine calls made;
  \<^verbatim>\<open>forces.npy\<close> has not been written.
\<close>

definition stub_state :: "real \<Rightarrow> real list \<Rightarrow> real list \<Rightarrow> nat \<Rightarrow> real list relax_state" where
  "stub_state v done_log queue calls =
     \<lparr>forces_12 = [v, 0, 0], force_evolution = done_log, datafile = xyz_grid stub_setup,
      forces_npy = None, engine = queue, engine_calls = calls\<rparr>"

section \<open>calc\_LGF.py: the far-field displacements\<close>

text \<open>
  \<^verbatim>\<open>np.arctan2(y, x)\<close>: the angle in \<open>(-\<pi>, \<pi>]\<close> of the point \<open>(x, y)\<close>, 0 at the
  origin; and Python's float \<^verbatim>\<open>x % y\<close>, which has the sign of \<open>y\<close>.
\<close>

definition arctan2 :: "real \<Rightarrow> real \<Rightarrow> real" where
  "arctan2 y x = Arg (Complex x y)"

definition py_mod :: "real \<Rightarrow> real \<Rightarrow> real" where
  "py_mod x y = x - y * of_int \<lfloor>x / y\<rfloor>"

text \<open>\<^verbatim>\<open>np.dot\<close> of a \<open>3 \<times> 3\<close> array (its rows) with a row of \<open>f\<close>.\<close>

fun dot3 :: "mat3 \<Rightarrow> vec3 \<Rightarrow> vec3" where
  "dot3 ((a, b, c), (d, e, f), (g, h, i)) (x, y, z) =
     (a * x + b * y + c * z, d * x + e * y + f * z, g * x + h * y + i * z)"

text \<open>
  Lines 43--54, the body of the loop of \<^verbatim>\<open>setBC\<close> for the far-field atom
  \<open>atom_ff\<close> and its row \<open>u_ff\<close> of \<open>u\<close>. \<^verbatim>\<open>elastic.G_largeR\<close> is not part of the
  repository's sources and is the parameter \<open>G_largeR\<close>, with the arguments the source
  passes. \<open>grid[i]\<close> and \<open>f[i]\<close> raise \<^verbatim>\<open>IndexError\<close> beyond the end.
\<close>

definition far_field_row ::
  "('g \<Rightarrow> 'p \<Rightarrow> real \<Rightarrow> real \<Rightarrow> nat \<Rightarrow> real \<Rightarrow> real \<Rightarrow> real \<Rightarrow> mat3) \<Rightarrow> nat \<Rightarrow> atominfo list
     \<Rightarrow> 'g \<Rightarrow> 'p \<Rightarrow> nat \<Rightarrow> real \<Rightarrow> real \<Rightarrow> real \<Rightarrow> vec3 list \<Rightarrow> atominfo \<Rightarrow> vec3
     \<Rightarrow> py_error + vec3" where
  "far_field_row G_largeR i grid GEn phi_R_grid N a0 V t_mag f atom_ff u_ff =
     (if length grid \<le> i then Inl IndexError
      else
        let rvec0 = atom_m (grid ! i) - atom_m atom_ff;
            rvec1 = atom_n (grid ! i) - atom_n atom_ff;
            R = a0 * sqrt (rvec0\<^sup>2 + rvec1\<^sup>2);
            phi = arctan2 rvec1 rvec0;
            phi = (if \<bar>phi\<bar> > 1 / 10 ^ 8 then py_mod phi (2 * pi) else 0)
        in if length f \<le> i then Inl IndexError
           else Inr (vsub u_ff (dot3 (G_largeR GEn phi_R_grid R phi N a0 V t_mag) (f ! i))))"

text \<open>
  The loop \<^verbatim>\<open>for atom_ff,u_ff in zip(grid[size_in:],u[size_in:])\<close>: \<open>u_ff\<close> is a view
  of a row of \<open>u\<close>, so \<^verbatim>\<open>u_ff -= ...\<close> writes that row; the model pairs each atom
  with the index of its row.
\<close>

fun setBC_loop ::
  "(atominfo \<Rightarrow> vec3 \<Rightarrow> py_error + vec3) \<Rightarrow> (atominfo \<times> nat) list \<Rightarrow> vec3 list
     \<Rightarrow> py_error + vec3 list" where
  "setBC_loop body [] u = Inr u"
| "setBC_loop body ((atom_ff, k) # rest) u =
     (case body atom_ff (u ! k) of
        Inl err \<Rightarrow> Inl err
      | Inr r \<Rightarrow> setBC_loop body rest (u[k := r]))"

definition setBC ::
  "('g \<Rightarrow> 'p \<Rightarrow> real \<Rightarrow> real \<Rightarrow> nat \<Rightarrow> real \<Rightarrow> real \<Rightarrow> real \<Rightarrow> mat3) \<Rightarrow> nat \<Rightarrow> atominfo list
     \<Rightarrow> nat \<Rightarrow> nat \<Rightarrow> 'g \<Rightarrow> 'p \<Rightarrow> nat \<Rightarrow> real \<Rightarrow> real \<Rightarrow> real \<Rightarrow> vec3 list
     \<Rightarrow> py_error + vec3 list" where
  "setBC G_largeR i grid size_in size_all GEn phi_R_grid N a0 V t_mag f =
     setBC_loop (far_field_row G_largeR i grid GEn phi_R_grid N a0 V t_mag f)
       (zip (drop size_in grid) [size_in..<size_all])
       (replicate size_all (0, 0, 0))"

text \<open>
  Following the spec's words, not the source: the polar angle of a separation
  \<open>(dm, dn)\<close> relative to the \<open>m\<close> axis, brought into \<open>[0, 2\<pi>)\<close>, with an angle of
  magnitude at most \<open>1e-8\<close> replaced by 0.
\<close>

definition spec_angle :: "real \<Rightarrow> real \<Rightarrow> real" where
  "spec_angle dm dn =
     (let p = arctan2 dn dm in
      if \<bar>p\<bar> \<le> 1 / 10 ^ 8 then 0 else if p < 0 then p + 2 * pi else p)"

text \<open>
  A grid of two atoms on the \<open>m\<close> axis, the second in the far field, and a stand-in
  for \<^verbatim>\<open>elastic.G_largeR\<close> that returns the diagonal tensor with entries \<open>R\<close>,
  \<open>phi\<close> and 1.
\<close>

definition ex_atoms :: "atominfo list" where
  "ex_atoms =
     [\<lparr>atom_ind = 0, atom_reg = 2, atom_m = 1, atom_n = 0, atom_t = 0, atom_basis = 0\<rparr>,
      \<lparr>atom_ind = 1, atom_reg = 4, atom_m = 0, atom_n = 0, atom_t = 0, atom_basis = 0\<rparr>]"

definition ex_G_largeR ::
  "unit \<Rightarrow> unit \<Rightarrow> real \<Rightarrow> real \<Rightarrow> nat \<Rightarrow> real \<Rightarrow> real \<Rightarrow> real \<Rightarrow> mat3" where
  "ex_G_largeR GEn phi_R_grid R phi N a0 V t_mag = ((R, 0, 0), (0, phi, 0), (0, 0, 1))"

section \<open>calc\_LGF.py: the assembly loop\<close>

text \<open>
  What the loop reads and never changes. \<^verbatim>\<open>elastic.G_largeR\<close> and the solver
  \<^verbatim>\<open>scipy.sparse.linalg.cg\<close> (matrix, right-hand side, tolerance; it returns the
  solution with an integer status) are parameters, and so are the arrays read from
  files: the force-constant matrix \<open>D\<close> comes with whatever shape its file gives it.
\<close>

record ('g, 'p) calc_env =
  env_G_largeR :: "'g \<Rightarrow> 'p \<Rightarrow> real \<Rightarrow> real \<Rightarrow> nat \<Rightarrow> real \<Rightarrow> real \<Rightarrow> real \<Rightarrow> mat3"
  env_cg :: "matrix \<Rightarrow> real list \<Rightarrow> real \<Rightarrow> real list \<times> int"
  env_grid :: "atominfo list"
  env_size_1 :: nat
  env_size_12 :: nat
  env_size_123 :: nat
  env_size_in :: nat
  env_D :: matrix
  env_GEn :: 'g
  env_phi_R_grid :: 'p
  env_N :: nat
  env_a0 :: real
  env_V :: real
  env_t_mag :: real

text \<open>Line 116: \<^verbatim>\<open>size_all = len(grid)\<close>.\<close>

definition env_size_all :: "('g, 'p) calc_env \<Rightarrow> nat" where
  "env_size_all E = length (env_grid E)"

text \<open>
  Lines 145--148: \<^verbatim>\<open>f = np.zeros((3*size_in,)); f[j*3+d] = 1\<close>, an
  \<^verbatim>\<open>IndexError\<close> when the index is beyond the end.
\<close>

definition unit_force :: "nat \<Rightarrow> nat \<Rightarrow> nat \<Rightarrow> py_error + real list" where
  "unit_force size_in j d =
     (if j * 3 + d < 3 * size_in then Inr ((replicate (3 * size_in) 0)[j * 3 + d := 1])
      else Inl IndexError)"

text \<open>
  The in-place \<^verbatim>\<open>f += c\<close> of two one-dimensional arrays: \<open>c\<close> is broadcast to the
  shape of \<open>f\<close>, which needs the length of \<open>f\<close> or length one.
\<close>

definition iadd_1d :: "real list \<Rightarrow> real list \<Rightarrow> py_error + real list" where
  "iadd_1d f c =
     (if length c = length f then Inr (map2 (+) f c)
      else if length c = 1 then Inr (map (\<lambda>x. x + hd c) f)
      else Inl (ValueError ''operands could not be broadcast together''))"

text \<open>
  Lines 145--155, the right-hand side of the solve for the column of atom \<open>j\<close> and
  direction \<open>d\<close>: the unit force, the far-field displacements it induces, and
  \<^verbatim>\<open>f += D.dot(np.reshape(u_bc,3*size_all))\<close>.
\<close>

definition corrected_force :: "('g, 'p) calc_env \<Rightarrow> nat \<Rightarrow> nat \<Rightarrow> py_error + real list" where
  "corrected_force E j d =
     (case unit_force (env_size_in E) j d of
        Inl err \<Rightarrow> Inl err
      | Inr f \<Rightarrow>
         (case setBC (env_G_largeR E) j (env_grid E) (env_size_in E) (env_size_all E)
                 (env_GEn E) (env_phi_R_grid E) (env_N E) (env_a0 E) (env_V E) (env_t_mag E)
                 (rows3 f) of
            Inl err \<Rightarrow> Inl err
          | Inr u_bc \<Rightarrow>
             (case dot_mv (env_D E) (ravel u_bc) of
                Inl err \<Rightarrow> Inl err
              | Inr c \<Rightarrow> iadd_1d f c)))"

text \<open>The block \<^verbatim>\<open>D[0:3*size_in,0:3*size_in]\<close>; a slice clamps at the shape.\<close>

definition D_in :: "('g, 'p) calc_env \<Rightarrow> matrix" where
  "D_in E =
     \<lparr>nrows = min (nrows (env_D E)) (3 * env_size_in E),
      ncols = min (ncols (env_D E)) (3 * env_size_in E),
      entry = (\<lambda>r c. if r < 3 * env_size_in E \<and> c < 3 * env_size_in E
                       then entry (env_D E) r c else 0)\<rparr>"

text \<open>
  Lines 145--160 for one pair \<open>(j, d)\<close>: the slice \<^verbatim>\<open>uf[0:3*size_123]\<close> of the
  solution that becomes the column, with the status \<open>conv\<close> the solver returned. The
  status is only formatted into the debug message of line 160.
\<close>

definition lgf_column :: "('g, 'p) calc_env \<Rightarrow> nat \<Rightarrow> nat \<Rightarrow> py_error + (real list \<times> int)" where
  "lgf_column E j d =
     (case corrected_force E j d of
        Inl err \<Rightarrow> Inl err
      | Inr f \<Rightarrow>
         (case env_cg E (D_in E) f (1 / 10 ^ 8) of
            (uf, conv) \<Rightarrow> Inr (take (3 * env_size_123 E) uf, conv)))"

text \<open>
  The array \<open>G\<close> under construction: one-dimensional after the first column
  (\<^verbatim>\<open>G = uf[0:3*size_123].copy()\<close>), two-dimensional from the second on, held as its
  number of rows and the list of its columns. \<^verbatim>\<open>np.column_stack\<close> raises
  \<^verbatim>\<open>ValueError\<close> when the new column has another length.
\<close>

datatype ndarray = Arr1 "real list" | Arr2 nat "real list list"

fun column_stack :: "ndarray \<Rightarrow> real list \<Rightarrow> py_error + ndarray" where
  "column_stack (Arr1 v) col =
     (if length v = length col then Inr (Arr2 (length v) [v, col])
      else Inl (ValueError ''all the input array dimensions must match exactly''))"
| "column_stack (Arr2 n cs) col =
     (if n = length col then Inr (Arr2 n (cs @ [col]))
      else Inl (ValueError ''all the input array dimensions must match exactly''))"

text \<open>The two messages the loop logs, lines 160 and 169 (the solve time is left out).\<close>

datatype log_entry = Debug_solve int | Info_atom nat nat

text \<open>
  The variables of the loop: \<open>G\<close> (unbound before the first column), the log, and the
  file \<^verbatim>\<open>args.Gfile\<close>.
\<close>

record lgf_state =
  lgf_G :: "ndarray option"
  lgf_log :: "log_entry list"
  lgf_file :: "ndarray option"

text \<open>Lines 144--169, the body of the inner loop for direction \<open>d\<close>.\<close>

definition column_step ::
  "('g, 'p) calc_env \<Rightarrow> nat \<Rightarrow> nat \<Rightarrow> nat \<Rightarrow> lgf_state \<Rightarrow> py_error + lgf_state" where
  "column_step E LGF_jmin j d st =
     (case lgf_column E j d of
        Inl err \<Rightarrow> Inl err
      | Inr (col, conv) \<Rightarrow>
         (case (if j = LGF_jmin \<and> d = 0 then Inr (Arr1 col)
                else (case lgf_G st of
                        None \<Rightarrow> Inl (NameError ''G'')
                      | Some g \<Rightarrow> column_stack g col)) of
            Inl err \<Rightarrow> Inl err
          | Inr g' \<Rightarrow>
              Inr (st\<lparr>lgf_G := Some g',
                      lgf_log := lgf_log st @ [Debug_solve conv, Info_atom j d]\<rparr>)))"

text \<open>
  Lines 143--171 for one atom: the three directions in order, then
  \<^verbatim>\<open>np.save(args.Gfile, G)\<close>.
\<close>

definition atom_step ::
  "('g, 'p) calc_env \<Rightarrow> nat \<Rightarrow> nat \<Rightarrow> lgf_state \<Rightarrow> py_error + lgf_state" where
  "atom_step E LGF_jmin j st =
     (case column_step E LGF_jmin j 0 st of
        Inl err \<Rightarrow> Inl err
      | Inr st0 \<Rightarrow>
         (case column_step E LGF_jmin j 1 st0 of
            Inl err \<Rightarrow> Inl err
          | Inr st1 \<Rightarrow>
             (case column_step E LGF_jmin j 2 st1 of
                Inl err \<Rightarrow> Inl err
              | Inr st2 \<Rightarrow> Inr (st2\<lparr>lgf_file := lgf_G st2\<rparr>))))"

fun assembly_loop ::
  "('g, 'p) calc_env \<Rightarrow> nat \<Rightarrow> nat list \<Rightarrow> lgf_state \<Rightarrow> py_error + lgf_state" where
  "assembly_loop E LGF_jmin [] st = Inr st"
| "assembly_loop E LGF_jmin (j # js) st =
     (case atom_step E LGF_jmin j st of
        Inl err \<Rightarrow> Inl err
      | Inr st' \<Rightarrow> assembly_loop E LGF_jmin js st')"

text \<open>
  A run over the atoms \<open>jmin, ..., jmax\<close>
  (\<^verbatim>\<open>for j in range(LGF_jmin,LGF_jmax+1)\<close>), started with \<open>G\<close> unbound and the file
  as \<open>disk\<close> has it.
\<close>

definition run_batch ::
  "('g, 'p) calc_env \<Rightarrow> ndarray option \<Rightarrow> nat \<Rightarrow> nat \<Rightarrow> py_error + lgf_state" where
  "run_batch E disk jmin jmax =
     assembly_loop E jmin [jmin..<Suc jmax] \<lparr>lgf_G = None, lgf_log = [], lgf_file = disk\<rparr>"

text \<open>
  Lines 139--143 with the command-line defaults: a negative \<^verbatim>\<open>LGF_jmin\<close> stands for
  \<open>size_1\<close>, a negative \<^verbatim>\<open>LGF_jmax\<close> for \<open>size_12 - 1\<close>.
\<close>

definition calc_LGF_main ::
  "('g, 'p) calc_env \<Rightarrow> ndarray option \<Rightarrow> int \<Rightarrow> int \<Rightarrow> py_error + lgf_state" where
  "calc_LGF_main E disk LGF_jmin LGF_jmax =
     (let jmin = (if LGF_jmin < 0 then int (env_size_1 E) else LGF_jmin);
          jmax = (if LGF_jmax < 0 then int (env_size_12 E) - 1 else LGF_jmax)
      in assembly_loop E (nat jmin) [nat jmin..<nat (jmax + 1)]
           \<lparr>lgf_G = None, lgf_log = [], lgf_file = disk\<rparr>)"

text \<open>
  The pairs (atom, direction) of a list of atoms in the order the loop visits them.
\<close>

definition pairs_of :: "nat list \<Rightarrow> (nat \<times> nat) list" where
  "pairs_of js = concat (map (\<lambda>j. [(j, 0), (j, 1), (j, 2)]) js)"

text \<open>
  Following the spec's words, not the source: the results of two batches are joined by
  placing the columns of the second after those of the first
  (\<^verbatim>\<open>np.column_stack((A, B))\<close>), which needs equal numbers of rows.
\<close>

fun columns_of :: "ndarray \<Rightarrow> real list list" where
  "columns_of (Arr1 v) = [v]"
| "columns_of (Arr2 n cs) = cs"

fun rows_of :: "ndarray \<Rightarrow> nat" where
  "rows_of (Arr1 v) = length v"
| "rows_of (Arr2 n cs) = n"

definition concat_batches :: "ndarray \<Rightarrow> ndarray \<Rightarrow> py_error + ndarray" where
  "concat_batches A B =
     (if rows_of A = rows_of B then Inr (Arr2 (rows_of A) (columns_of A @ columns_of B))
      else Inl (ValueError ''all the input array dimensions must match exactly''))"

text \<open>
  The three columns of one atom with their solver statuses, in the order of the inner
  loop, and the messages the loop logs for them; \<open>batch_log\<close> is the log of a whole
  run over the atoms \<open>js\<close>.
\<close>

definition atom_columns ::
  "('g, 'p) calc_env \<Rightarrow> nat \<Rightarrow> py_error + (real list \<times> int) list" where
  "atom_columns E j =
     (case lgf_column E j 0 of
        Inl err \<Rightarrow> Inl err
      | Inr a \<Rightarrow>
         (case lgf_column E j 1 of
            Inl err \<Rightarrow> Inl err
          | Inr b \<Rightarrow>
             (case lgf_column E j 2 of
                Inl err \<Rightarrow> Inl err
              | Inr c \<Rightarrow> Inr [a, b, c])))"

definition atom_log :: "nat \<Rightarrow> (real list \<times> int) list \<Rightarrow> log_entry list" where
  "atom_log j cvs = concat (map2 (\<lambda>d cv. [Debug_solve (snd cv), Info_atom j d]) [0, 1, 2] cvs)"

definition batch_log :: "nat list \<Rightarrow> (real list \<times> int) list list \<Rightarrow> log_entry list" where
  "batch_log js cvss = concat (map2 atom_log js cvss)"

text \<open>
  Fixtures: the two atoms of \<open>ex_atoms\<close> with the first \<open>size_in\<close> of them inside, a
  solver stub that returns its right-hand side with the status 1 (not converged), a
  force-constant matrix of \<open>3\<close> rows and \<open>6\<close> columns that couples each degree of
  freedom of atom 0 to the same one of atom 1, and the square identity of size 6.
\<close>

definition ex_env :: "nat \<Rightarrow> matrix \<Rightarrow> (unit, unit) calc_env" where
  "ex_env size_in D =
     \<lparr>env_G_largeR = ex_G_largeR, env_cg = (\<lambda>A b tol. (b, 1)), env_grid = ex_atoms,
      env_size_1 = 0, env_size_12 = 1, env_size_123 = 1, env_size_in = size_in, env_D = D,
      env_GEn = (), env_phi_R_grid = (), env_N = 256, env_a0 = 2, env_V = 1, env_t_mag = 1\<rparr>"

definition ex_D_rect :: matrix where
  "ex_D_rect = \<lparr>nrows = 3, ncols = 6, entry = (\<lambda>r c. if c = r + 3 then 1 else 0)\<rparr>"

definition ex_D_square :: matrix where
  "ex_D_square = \<lparr>nrows = 6, ncols = 6, entry = (\<lambda>r c. if r = c then 1 else 0)\<rparr>"

text \<open>
  The columns the fixture yields for its two atoms, and the state a run over the atoms
  \<open>js\<close> leaves when its columns are \<open>cols\<close>: every solve logged with the stub's
  status 1.
\<close>

definition ex_cols_a :: "real list list" where
  "ex_cols_a = [[1, 0, 0], [0, 1, 0], [0, 0, 1]]"

definition ex_cols_b :: "real list list" where
  "ex_cols_b = replicate 3 [0, 0, 0]"

definition ex_state :: "nat list \<Rightarrow> real list list \<Rightarrow> lgf_state" where
  "ex_state js cols =
     \<lparr>lgf_G = Some (Arr2 3 cols),
      lgf_log = concat (map (\<lambda>(j, d). [Debug_solve 1, Info_atom j d]) (pairs_of js)),
      lgf_file = Some (Arr2 3 cols)\<rparr>"

section \<open>Properties\<close>

subsection \<open>Loading the persisted LGF\<close>

lemma stored_attrs_lookup:
  "stored_attrs a1 a12 a123 ''size_1'' = Some a1"
  "stored_attrs a1 a12 a123 ''size_12'' = Some a12"
  "stored_attrs a1 a12 a123 ''size_123'' = Some a123"
  by (simp_all add: stored_attrs_def)

text \<open>
  Claim C6. Loading a persisted LGF whose three region-size attributes are stored raises
  the configuration error (a \<^verbatim>\<open>ValueError\<close>) exactly when one of \<open>size_1\<close>,
  \<open>size_12\<close>, \<open>size_123\<close> differs from the size of the current grid partition; when all
  three agree the dataset is returned, and in no other case.
\<close>

theorem load_G_mismatch_iff:
  "(is_ValueError (load_G (stored_attrs a1 a12 a123) GF size_1 size_12 size_123)
      \<longleftrightarrow> (a1 \<noteq> size_1 \<or> a12 \<noteq> size_12 \<or> a123 \<noteq> size_123))
   \<and> (load_G (stored_attrs a1 a12 a123) GF size_1 size_12 size_123 = Inr GF
      \<longleftrightarrow> (a1 = size_1 \<and> a12 = size_12 \<and> a123 = size_123))"
  by (simp add: load_G_def stored_attrs_lookup is_ValueError_def)

theorem load_G_mismatch_witness:
  "is_ValueError (load_G (stored_attrs 11 20 30) (0::nat) 10 20 30)
   \<and> load_G (stored_attrs 10 20 30) (0::nat) 10 20 30 = Inr 0"
  using load_G_mismatch_iff [of 11 20 30 "0::nat" 10 20 30]
        load_G_mismatch_iff [of 10 20 30 "0::nat" 10 20 30]
  by simp

subsection \<open>One coupling cycle\<close>

lemma length_ravel: "length (ravel rs) = 3 * length rs"
  by (induction rs rule: ravel.induct) auto

lemma rows3_ravel: "rows3 (ravel rs) = rs"
  by (induction rs rule: ravel.induct) auto

lemma length_rows3: "length (rows3 xs) = length xs div 3"
  by (induction xs rule: rows3.induct) auto

lemma ravel_rows3: "3 dvd length xs \<Longrightarrow> ravel (rows3 xs) = xs"
proof (induction xs rule: rows3.induct)
  case (1 a b c xs)
  have "length (a # b # c # xs) = length xs + 3" by simp
  with 1(2) have "3 dvd length xs" by presburger
  with 1 show ?case by simp
qed (use dvd_imp_le[of 3 "Suc (Suc 0)"] in auto)

lemma fold_max_ge_init: "x \<le> fold max ys (x::real)"
proof (induction ys arbitrary: x)
  case Nil
  show ?case by simp
next
  case (Cons y ys)
  have "x \<le> max y x" by simp
  also have "\<dots> \<le> fold max ys (max y x)" by (rule Cons.IH)
  finally show ?case by simp
qed

lemma fold_max_ge_elem: "y \<in> set ys \<Longrightarrow> y \<le> fold max ys (x::real)"
proof (induction ys arbitrary: x)
  case Nil
  then show ?case by simp
next
  case (Cons z zs)
  show ?case
  proof (cases "y = z")
    case True
    have "y \<le> max z x" by (simp add: True)
    also have "\<dots> \<le> fold max zs (max z x)" by (rule fold_max_ge_init)
    finally show ?thesis by simp
  next
    case False
    with Cons.prems have "y \<in> set zs" by simp
    then show ?thesis using Cons.IH by simp
  qed
qed

lemma fold_max_mem: "fold max ys (x::real) \<in> set (x # ys)"
  by (induction ys arbitrary: x) (auto simp: max_def)

lemma norm3_vscale: "norm3 (vscale s u) = \<bar>s\<bar> * norm3 u"
proof (cases u)
  case (fields a b c)
  have "(s * a)\<^sup>2 + (s * b)\<^sup>2 + (s * c)\<^sup>2 = s\<^sup>2 * (a\<^sup>2 + b\<^sup>2 + c\<^sup>2)"
    by (simp add: power_mult_distrib distrib_left)
  then show ?thesis
    by (simp add: fields norm3_def real_sqrt_mult)
qed

lemma sumsq_nonneg: "0 \<le> sumsq u"
  by (cases u) simp

lemma dispmax_of_bounds:
  assumes "dispmax_of disp = Inr dm"
  shows "\<forall>u\<in>set disp. norm3 u \<le> dm" and "\<exists>u\<in>set disp. norm3 u = dm"
proof -
  from assms obtain u0 rest where d: "disp = u0 # rest"
    and dm: "dm = sqrt (fold max (map sumsq rest) (sumsq u0))"
    by (cases disp) (auto simp: dispmax_of_def py_max_def)
  show "\<forall>u\<in>set disp. norm3 u \<le> dm"
    using fold_max_ge_init[of "sumsq u0" "map sumsq rest"]
      fold_max_ge_elem[of _ "map sumsq rest" "sumsq u0"]
    by (auto simp: d dm norm3_def)
  have "fold max (map sumsq rest) (sumsq u0) \<in> sumsq ` set disp"
    using fold_max_mem[of "map sumsq rest" "sumsq u0"] by (simp add: d)
  then obtain u where "u \<in> set disp" "fold max (map sumsq rest) (sumsq u0) = sumsq u"
    by blast
  then show "\<exists>u\<in>set disp. norm3 u = dm"
    by (intro bexI[of _ u]) (simp_all add: dm norm3_def)
qed

lemma coupling_forces_ok:
  assumes "size_1 \<le> size_12" "size_12 \<le> length forces"
  shows "coupling_forces size_1 size_12 forces = Inr (ravel (take (size_12 - size_1) (drop size_1 forces)))"
    and "length (ravel (take (size_12 - size_1) (drop size_1 forces))) = 3 * (size_12 - size_1)"
  using assms by (auto simp: coupling_forces_def reshape_ok_def Let_def length_ravel min_def)

lemma dot_mv_length: "dot_mv A v = Inr w \<Longrightarrow> length w = nrows A"
  by (auto simp: dot_mv_def split: if_splits)

lemma ex_dot: "dot_mv (ex_G g) [1, 0, 0] = Inr [g, 0, 0, 0, 0, 0]"
  by (simp add: dot_mv_def ex_G_def upt_conv_Cons)

lemma ex_cycle:
  "relaxation_cycle (ex_grid, ex_forces) 0 1 2 (ex_G 6) ''dislLGF123'' 5 = Inr [(5, 0, 0), (1, 0, 0)]"
proof -
  have s: "sqrt 36 = 6" using real_sqrt_abs[of 6] by simp
  show ?thesis
    by (simp add: relaxation_cycle_def coupling_forces_def reshape_ok_def ex_forces_def ex_grid_def
        LGF123_update_def ex_dot reshape_n3_def dispmax_of_def py_max_def s scale_of_def iop_rows_def)
qed

lemma ex_rms: "rms_displacement [(6, 0, 0), (0, 0, 0)] < 5"
proof -
  have "sqrt 18 < 5" by (rule real_less_lsqrt) simp_all
  then show ?thesis by (simp add: rms_displacement_def)
qed

lemma ex_spec: "spec_full_update ex_grid [(6, 0, 0), (0, 0, 0)] 5 = [(6, 0, 0), (1, 0, 0)]"
  using ex_rms by (simp add: spec_full_update_def ex_grid_def)

lemma dot_mv_ok: "ncols A = length v \<Longrightarrow> \<exists>w. dot_mv A v = Inr w \<and> length w = nrows A"
  by (simp add: dot_mv_def)

lemma reshape_n3_nat:
  "length xs = 3 * k \<Longrightarrow> reshape_n3 (int k) xs = Inr (rows3 xs)"
  by (simp add: reshape_n3_def reshape_ok_def)

lemma dispmax_of_ok: "disp \<noteq> [] \<Longrightarrow> \<exists>dm. dispmax_of disp = Inr dm"
  by (cases disp) (simp_all add: dispmax_of_def py_max_def)

lemma norm3_nonneg: "0 \<le> norm3 u"
  by (simp add: norm3_def sumsq_nonneg)

text \<open>
  In exact arithmetic a scaled row is within the cap. The float64 program rounds the
  quotient and the product, and a scaled row can come out one unit in the last place
  above the cap (100.00000000000001 for \<open>dispmax = 151\<close> and the cap 100): the bound
  is a property of the real-valued model only and is no part of the claim about one
  cycle below.
\<close>

lemma scaled_within_cap:
  assumes le: "norm3 u \<le> dm" and cap: "0 < maxdisp"
  shows "norm3 (vscale (scale_of dm maxdisp) u) \<le> maxdisp"
proof (cases "dm < maxdisp")
  case True
  then show ?thesis using le by (simp add: scale_of_def norm3_vscale)
next
  case False
  then have dm: "0 < dm" "maxdisp \<le> dm" using cap by simp_all
  have "norm3 (vscale (scale_of dm maxdisp) u) = (maxdisp / dm) * norm3 u"
    using False dm cap by (simp add: scale_of_def norm3_vscale)
  also have "\<dots> \<le> (maxdisp / dm) * dm"
    using le cap dm by (intro mult_left_mono) simp_all
  also have "\<dots> = maxdisp" using dm by simp
  finally show ?thesis .
qed

text \<open>
  Claim C1 (as amended). Under the full-update methods with arrays of the shapes the main
  program passes and a positive cap, one cycle returns the grid plus \<open>scale\<close> times the
  field \<open>disp = G \<cdot> forces_2\<close> (the forces of the coupling atoms), applied to all
  \<open>size_123\<close> atoms. The magnitude compared with the cap is \<open>dispmax\<close>, the largest
  Euclidean norm of a row of \<open>disp\<close> (the largest displacement of a single atom), not a
  root mean square: \<open>scale\<close> is 1 when \<open>dispmax < maxdisp\<close> and
  \<open>maxdisp / dispmax\<close> otherwise (1/5 for 500 against 100). That the scaled field
  stays within the cap is not asserted: it holds in exact arithmetic only.
\<close>

theorem full_update_caps_largest_row:
  assumes meth: "method = ''dislLGF123'' \<or> method = ''perfbulkLGF123''"
    and sizes: "size_1 \<le> size_12" "size_12 \<le> length forces"
    and G: "ncols G = 3 * (size_12 - size_1)" "nrows G = 3 * size_123"
    and grid: "length grid = size_123" "0 < size_123"
    and cap: "0 < maxdisp"
  shows "\<exists>forces_2 gf disp dispmax scale.
      forces_2 = ravel (take (size_12 - size_1) (drop size_1 forces))
    \<and> dot_mv G forces_2 = Inr gf \<and> ravel disp = gf \<and> length disp = size_123
    \<and> dispmax_of disp = Inr dispmax
    \<and> (\<forall>u\<in>set disp. norm3 u \<le> dispmax) \<and> (\<exists>u\<in>set disp. norm3 u = dispmax)
    \<and> scale = (if dispmax < maxdisp then 1 else maxdisp / dispmax)
    \<and> relaxation_cycle (grid, forces) size_1 size_12 size_123 G method maxdisp
          = Inr (map2 vadd grid (map (vscale scale) disp))
    \<and> (dispmax = 500 \<and> maxdisp = 100 \<longrightarrow> scale = 1 / 5)"
proof -
  define forces_2 where "forces_2 = ravel (take (size_12 - size_1) (drop size_1 forces))"
  have cf: "coupling_forces size_1 size_12 forces = Inr forces_2"
    and lf: "length forces_2 = 3 * (size_12 - size_1)"
    using coupling_forces_ok[OF sizes] by (simp_all add: forces_2_def)
  obtain gf where gf: "dot_mv G forces_2 = Inr gf" and lgf: "length gf = 3 * size_123"
    using dot_mv_ok[of G forces_2] G lf by auto
  define disp where "disp = rows3 gf"
  have rs: "reshape_n3 (int size_123) gf = Inr disp"
    using reshape_n3_nat[OF lgf] by (simp add: disp_def)
  have rav: "ravel disp = gf" using lgf by (simp add: disp_def ravel_rows3)
  have ld: "length disp = size_123" using lgf by (simp add: disp_def length_rows3)
  then have "disp \<noteq> []" using grid by auto
  then obtain dm where dm: "dispmax_of disp = Inr dm" using dispmax_of_ok by blast
  note b = dispmax_of_bounds[OF dm]
  from b(2) have dm0: "0 \<le> dm" using norm3_nonneg by auto
  define scale where "scale = (if dm < maxdisp then 1 else maxdisp / dm)"
  have sc: "scale_of dm maxdisp = scale" by (simp add: scale_of_def scale_def)
  have nf: "\<not> (\<not> dm < maxdisp \<and> dm = 0)" using cap by auto
  have run: "relaxation_cycle (grid, forces) size_1 size_12 size_123 G method maxdisp
          = Inr (map2 vadd grid (map (vscale scale) disp))"
    using meth nf by (auto simp: relaxation_cycle_def cf LGF123_update_def gf rs dm sc iop_rows_def ld grid)
  have ex: "dm = 500 \<and> maxdisp = 100 \<longrightarrow> scale = 1 / 5" by (simp add: scale_def)
  show ?thesis
    using gf rav ld dm b run ex scale_def forces_2_def by blast
qed

theorem full_update_caps_largest_row_witness:
  "(0::nat) \<le> 1 \<and> 1 \<le> length ex_forces \<and> ncols (ex_G 6) = 3 * (1 - 0) \<and> nrows (ex_G 6) = 3 * 2
   \<and> length ex_grid = 2 \<and> (0::real) < 5
   \<and> (\<exists>forces_2 gf disp dispmax scale.
      forces_2 = ravel (take (1 - 0) (drop 0 ex_forces))
    \<and> dot_mv (ex_G 6) forces_2 = Inr gf \<and> ravel disp = gf \<and> length disp = 2
    \<and> dispmax_of disp = Inr dispmax
    \<and> (\<forall>u\<in>set disp. norm3 u \<le> dispmax) \<and> (\<exists>u\<in>set disp. norm3 u = dispmax)
    \<and> scale = (if dispmax < 5 then 1 else 5 / dispmax)
    \<and> relaxation_cycle (ex_grid, ex_forces) 0 1 2 (ex_G 6) ''dislLGF123'' 5
          = Inr (map2 vadd ex_grid (map (vscale scale) disp))
    \<and> (dispmax = 500 \<and> (5::real) = 100 \<longrightarrow> scale = 1 / 5))"
proof -
  have h: "''dislLGF123'' = ''dislLGF123'' \<or> ''dislLGF123'' = ''perfbulkLGF123''"
    "(0::nat) \<le> 1" "1 \<le> length ex_forces" "ncols (ex_G 6) = 3 * (1 - 0)"
    "nrows (ex_G 6) = 3 * 2" "length ex_grid = 2" "(0::nat) < 2" "(0::real) < 5"
    by (simp_all add: ex_forces_def ex_G_def ex_grid_def)
  from full_update_caps_largest_row[OF h] h show ?thesis by blast
qed

text \<open>
  The claim as stated fails: a field of two atoms whose only displacement is
  \<open>(6, 0, 0)\<close> has root-mean-square displacement \<open>sqrt 18 < 5\<close>, so under the cap 5
  the claim applies it unscaled, while the code scales it by 5/6.
\<close>

theorem full_update_rms_counterexample:
  "rms_displacement [(6, 0, 0), (0, 0, 0)] < 5
   \<and> dot_mv (ex_G 6) (ravel (take 1 ex_forces)) = Inr (ravel [(6, 0, 0), (0, 0, 0)])
   \<and> spec_full_update ex_grid [(6, 0, 0), (0, 0, 0)] 5 = [(6, 0, 0), (1, 0, 0)]
   \<and> relaxation_cycle (ex_grid, ex_forces) 0 1 2 (ex_G 6) ''dislLGF123'' 5
        = Inr [(5, 0, 0), (1, 0, 0)]
   \<and> relaxation_cycle (ex_grid, ex_forces) 0 1 2 (ex_G 6) ''dislLGF123'' 5
        \<noteq> Inr (spec_full_update ex_grid [(6, 0, 0), (0, 0, 0)] 5)"
proof -
  have d: "dot_mv (ex_G 6) (ravel (take 1 ex_forces)) = Inr (ravel [(6, 0, 0), (0, 0, 0)])"
    by (simp add: ex_forces_def ex_dot)
  have ne: "relaxation_cycle (ex_grid, ex_forces) 0 1 2 (ex_G 6) ''dislLGF123'' 5
        \<noteq> Inr (spec_full_update ex_grid [(6, 0, 0), (0, 0, 0)] 5)"
    unfolding ex_spec ex_cycle by simp
  show ?thesis using ex_rms d ex_spec ex_cycle ne by (intro conjI)
qed

lemma iop_rows_length: "iop_rows f a b = Inr r \<Longrightarrow> length r = length a"
  by (auto simp: iop_rows_def split: if_splits)

lemma LGF23_update_frame:
  assumes "LGF23_update grid forces_2 size_1 size_123 G = Inr grid'"
  shows "length grid' = length grid \<and> take size_1 grid' = take size_1 grid"
proof -
  from assms obtain moved where m: "grid' = take size_1 grid @ moved"
    and l: "length moved = length (drop size_1 grid)"
    by (auto simp: LGF23_update_def split: sum.splits dest: iop_rows_length)
  show ?thesis
  proof (cases "size_1 \<le> length grid")
    case True
    then show ?thesis using m l by simp
  next
    case False
    then show ?thesis using m l by simp
  qed
qed

text \<open>
  Claim C8. Under the partial-update methods (\<open>dislLGF23\<close>, \<open>perfbulkLGF23\<close>) the
  displacement update of a cycle leaves the core alone: whenever the cycle returns, the
  grid has its length and every row with index below \<open>size_1\<close> is the row the
  relaxation step produced, for every grid, force array and LGF.
\<close>

theorem partial_update_keeps_core:
  assumes meth: "method = ''dislLGF23'' \<or> method = ''perfbulkLGF23''"
    and run: "relaxation_cycle (grid, forces) size_1 size_12 size_123 G method maxdisp = Inr grid'"
  shows "length grid' = length grid \<and> take size_1 grid' = take size_1 grid
    \<and> (\<forall>i<size_1. i < length grid \<longrightarrow> grid' ! i = grid ! i)"
proof -
  from meth run obtain forces_2 where
    "LGF23_update grid forces_2 size_1 size_123 G = Inr grid'"
    by (auto simp: relaxation_cycle_def split: sum.splits)
  from LGF23_update_frame[OF this]
  have f: "length grid' = length grid" "take size_1 grid' = take size_1 grid" by simp_all
  have "grid' ! i = grid ! i" if "i < size_1" for i
    using that f(2) by (metis nth_take)
  with f show ?thesis by simp
qed

lemma ex_dot23: "dot_mv (rows_from 3 (ex_G23 g)) [1, 0, 0] = Inr [g, 0, 0]"
  by (simp add: dot_mv_def ex_G23_def rows_from_def upt_conv_Cons)

lemma ex_cycle23:
  "relaxation_cycle (ex_grid, ex_forces23) 1 2 2 (ex_G23 200) ''dislLGF23'' maxdisp
     = Inr [(0, 0, 0), (201, 0, 0)]"
  by (simp add: relaxation_cycle_def coupling_forces_def reshape_ok_def ex_forces23_def ex_grid_def
        LGF23_update_def ex_dot23 reshape_n3_def iop_rows_def)

theorem partial_update_keeps_core_witness:
  "relaxation_cycle (ex_grid, ex_forces23) 1 2 2 (ex_G23 200) ''dislLGF23'' 100
     = Inr [(0, 0, 0), (201, 0, 0)]
   \<and> take 1 [(0, 0, 0), (201, 0, 0)] = take 1 ex_grid
   \<and> length [(0::real, 0::real, 0::real), (201, 0, 0)] = length ex_grid"
  using partial_update_keeps_core[of "''dislLGF23''" ex_grid ex_forces23 1 2 2 "ex_G23 200" 100
      "[(0, 0, 0), (201, 0, 0)]"] ex_cycle23[of 100]
  by simp

lemma rows3_uminus: "rows3 (map uminus xs) = map vneg (rows3 xs)"
  by (induction xs rule: rows3.induct) auto

lemma vsub_vneg: "vsub g (vneg x) = vadd g x"
  by (cases g; cases x) simp

lemma map2_vsub_vneg: "map2 vsub a (map vneg b) = map2 vadd a b"
proof (induction a arbitrary: b)
  case Nil
  show ?case by simp
next
  case (Cons x xs)
  show ?case
  proof (cases b)
    case Nil
    then show ?thesis by simp
  next
    case (Cons y ys)
    then show ?thesis using Cons.IH[of ys] by (simp add: vsub_vneg)
  qed
qed

lemma coupling_forces_Inr:
  "coupling_forces size_1 size_12 forces = Inr f2 \<Longrightarrow>
     f2 = ravel (take (size_12 - size_1) (drop size_1 forces))"
  by (auto simp: coupling_forces_def Let_def split: if_splits)

lemma LGF23_update_moved:
  assumes run: "LGF23_update grid forces_2 size_1 size_123 G = Inr grid'"
    and len: "length grid = size_123"
  shows "\<exists>gf. dot_mv (rows_from (3 * size_1) G) forces_2 = Inr gf
      \<and> drop size_1 grid' = map2 vadd (drop size_1 grid) (rows3 gf)"
proof -
  from run obtain gf moved where gf: "dot_mv (rows_from (3 * size_1) G) forces_2 = Inr gf"
    and ok: "reshape_ok (int size_123 - int size_1) 3 (length gf)"
    and mv: "iop_rows vsub (drop size_1 grid) (map vneg (rows3 gf)) = Inr moved"
    and g': "grid' = take size_1 grid @ moved"
    by (auto simp: LGF23_update_def reshape_n3_def rows3_uminus split: sum.splits if_splits)
  have "moved = map2 vadd (drop size_1 grid) (rows3 gf)"
  proof (cases "size_1 \<le> size_123")
    case True
    with ok have "length gf = 3 * (size_123 - size_1)"
      by (simp add: reshape_ok_def nat_diff_distrib')
    then have "length (rows3 gf) = length (drop size_1 grid)"
      by (simp add: length_rows3 len)
    with mv show ?thesis by (simp add: iop_rows_def map2_vsub_vneg)
  next
    case False
    then have e: "drop size_1 grid = []" using len by simp
    from mv show ?thesis unfolding e by (auto simp: iop_rows_def split: if_splits)
  qed
  moreover have "drop size_1 grid' = moved"
  proof (cases "size_1 \<le> length grid")
    case True
    then show ?thesis by (simp add: g')
  next
    case False
    then have "drop size_1 grid = []" by simp
    with mv have "moved = []" by (auto simp: iop_rows_def split: if_splits)
    then show ?thesis by (simp add: g')
  qed
  ultimately show ?thesis using gf by simp
qed

text \<open>
  Claim C10. Under the partial-update methods the rows from \<open>size_1\<close> on are moved by
  exactly the product of the LGF sub-block (rows from \<open>3 * size_1\<close>) with the forces of
  the coupling atoms; the cap \<open>maxdisp\<close> plays no part (the result is the same for every
  cap), and an atom can be moved by more than the cap: by 200 against the cap 100 in the
  example.
\<close>

theorem partial_update_uncapped:
  assumes meth: "method = ''dislLGF23'' \<or> method = ''perfbulkLGF23''"
    and run: "relaxation_cycle (grid, forces) size_1 size_12 size_123 G method maxdisp = Inr grid'"
    and len: "length grid = size_123"
  shows "(\<exists>gf. dot_mv (rows_from (3 * size_1) G)
                 (ravel (take (size_12 - size_1) (drop size_1 forces))) = Inr gf
            \<and> drop size_1 grid' = map2 vadd (drop size_1 grid) (rows3 gf))
    \<and> (\<forall>cap. relaxation_cycle (grid, forces) size_1 size_12 size_123 G method cap = Inr grid')
    \<and> (\<exists>g0 f0 G0 g1. relaxation_cycle (g0, f0) 1 2 2 G0 ''dislLGF23'' 100 = Inr g1
            \<and> 100 < norm3 (vsub (g1 ! 1) (g0 ! 1)))"
proof -
  from meth run obtain forces_2 where cf: "coupling_forces size_1 size_12 forces = Inr forces_2"
    and up: "LGF23_update grid forces_2 size_1 size_123 G = Inr grid'"
    by (auto simp: relaxation_cycle_def split: sum.splits)
  have f2: "forces_2 = ravel (take (size_12 - size_1) (drop size_1 forces))"
    by (rule coupling_forces_Inr[OF cf])
  have a: "\<exists>gf. dot_mv (rows_from (3 * size_1) G)
                 (ravel (take (size_12 - size_1) (drop size_1 forces))) = Inr gf
            \<and> drop size_1 grid' = map2 vadd (drop size_1 grid) (rows3 gf)"
    using LGF23_update_moved[OF up len] by (simp add: f2)
  have b: "relaxation_cycle (grid, forces) size_1 size_12 size_123 G method cap = Inr grid'" for cap
    using meth run by (auto simp: relaxation_cycle_def split: sum.splits)
  have "sqrt 40000 = 200" using real_sqrt_abs[of 200] by simp
  then have "100 < norm3 (vsub ([(0, 0, 0), (201, 0, 0)] ! 1) (ex_grid ! 1))"
    by (simp add: ex_grid_def norm3_def)
  with ex_cycle23[of 100]
  have c: "\<exists>g0 f0 G0 g1. relaxation_cycle (g0, f0) 1 2 2 G0 ''dislLGF23'' 100 = Inr g1
            \<and> 100 < norm3 (vsub (g1 ! 1) (g0 ! 1))"
    by blast
  from a b c show ?thesis by blast
qed

theorem partial_update_uncapped_witness:
  "length ex_grid = 2
   \<and> relaxation_cycle (ex_grid, ex_forces23) 1 2 2 (ex_G23 200) ''dislLGF23'' 100
       = Inr [(0, 0, 0), (201, 0, 0)]
   \<and> (\<exists>gf. dot_mv (rows_from (3 * 1) (ex_G23 200))
                 (ravel (take (2 - 1) (drop 1 ex_forces23))) = Inr gf
            \<and> drop 1 [(0, 0, 0), (201, 0, 0)] = map2 vadd (drop 1 ex_grid) (rows3 gf))"
proof -
  have h: "''dislLGF23'' = ''dislLGF23'' \<or> ''dislLGF23'' = ''perfbulkLGF23''"
    "relaxation_cycle (ex_grid, ex_forces23) 1 2 2 (ex_G23 200) ''dislLGF23'' 100
       = Inr [(0, 0, 0), (201, 0, 0)]"
    "length ex_grid = 2"
    using ex_cycle23[of 100] by (simp_all add: ex_grid_def)
  from partial_update_uncapped[OF h] h show ?thesis by blast
qed

subsection \<open>The relaxation loop\<close>

lemma force_2norm_gt_iff: "100 < force_2norm fs \<longleftrightarrow> 10000 < (\<Sum>x\<leftarrow>fs. x\<^sup>2)"
proof -
  have "sqrt 10000 = 100" using real_sqrt_abs[of 100] by simp
  then show ?thesis
    unfolding force_2norm_def using real_sqrt_less_iff[of 10000 "\<Sum>x\<leftarrow>fs. x\<^sup>2"] by simp
qed

lemma outer_iteration_converged:
  "force_max (forces_12 s) = Inr v \<Longrightarrow> v < ftol S \<Longrightarrow>
     outer_iteration S s = Inr (Some CONVERGED, s\<lparr>force_evolution := force_evolution s @ [v]\<rparr>)"
  by (simp add: outer_iteration_def)

lemma outer_iteration_diverged:
  "force_max (forces_12 s) = Inr v \<Longrightarrow> \<not> v < ftol S \<Longrightarrow> 100 < force_2norm (forces_12 s) \<Longrightarrow>
     outer_iteration S s = Inr (Some DIVERGED, s\<lparr>force_evolution := force_evolution s @ [v]\<rparr>)"
  by (simp add: outer_iteration_def)

lemma coupling_step_effect:
  assumes "coupling_step S s = Inr s2"
  shows "force_evolution s2 = force_evolution s" "forces_npy s2 = forces_npy s"
    "engine_calls s2 = engine_calls s + 2"
  using assms by (auto simp: coupling_step_def split: prod.splits sum.splits)

lemma outer_iteration_cases:
  assumes "outer_iteration S s = Inr (r, s')"
  obtains v where "force_max (forces_12 s) = Inr v" "v < ftol S" "r = Some CONVERGED"
      "s' = s\<lparr>force_evolution := force_evolution s @ [v]\<rparr>"
  | v where "force_max (forces_12 s) = Inr v" "\<not> v < ftol S" "100 < force_2norm (forces_12 s)"
      "r = Some DIVERGED" "s' = s\<lparr>force_evolution := force_evolution s @ [v]\<rparr>"
  | v where "force_max (forces_12 s) = Inr v" "\<not> v < ftol S" "\<not> 100 < force_2norm (forces_12 s)"
      "r = None" "coupling_step S (s\<lparr>force_evolution := force_evolution s @ [v]\<rparr>) = Inr s'"
  using assms by (auto simp: outer_iteration_def Let_def split: sum.splits if_splits)

lemma relaxation_loop_log:
  assumes "relaxation_loop S n s = Inr (x, s')"
  shows "\<exists>new. force_evolution s' = force_evolution s @ new \<and> length new \<le> n
     \<and> forces_npy s' = forces_npy s
     \<and> (\<forall>v\<in>set (butlast new). \<not> v < ftol S)
     \<and> (x = CONVERGED \<longrightarrow> new \<noteq> [] \<and> last new < ftol S
           \<and> force_max (forces_12 s') = Inr (last new)
           \<and> engine_calls s' = engine_calls s + 2 * (length new - 1))
     \<and> (x = DIVERGED \<longrightarrow> new \<noteq> [] \<and> \<not> last new < ftol S
           \<and> force_max (forces_12 s') = Inr (last new)
           \<and> 100 < force_2norm (forces_12 s')
           \<and> engine_calls s' = engine_calls s + 2 * (length new - 1))
     \<and> (x = MAX_ITER_REACHED \<longrightarrow> length new = n \<and> (\<forall>v\<in>set new. \<not> v < ftol S)
           \<and> engine_calls s' = engine_calls s + 2 * n)"
  using assms
proof (induction n arbitrary: s)
  case 0
  then show ?case by simp
next
  case (Suc n)
  from Suc.prems obtain r s1 where it: "outer_iteration S s = Inr (r, s1)"
    by (auto split: sum.splits)
  from it show ?case
  proof (cases rule: outer_iteration_cases)
    case (1 v)
    with Suc.prems it have "x = CONVERGED" "s' = s1" by simp_all
    with 1 show ?thesis by (intro exI[of _ "[v]"]) simp
  next
    case (2 v)
    with Suc.prems it have "x = DIVERGED" "s' = s1" by simp_all
    with 2 show ?thesis by (intro exI[of _ "[v]"]) simp
  next
    case (3 v)
    with Suc.prems it have run: "relaxation_loop S n s1 = Inr (x, s')" by simp
    note eff = coupling_step_effect[OF 3(5)]
    from Suc.IH[OF run] obtain new where
      n1: "force_evolution s' = force_evolution s1 @ new" "length new \<le> n"
        "forces_npy s' = forces_npy s1" "\<forall>v\<in>set (butlast new). \<not> v < ftol S"
      and c: "x = CONVERGED \<longrightarrow> new \<noteq> [] \<and> last new < ftol S
           \<and> force_max (forces_12 s') = Inr (last new)
           \<and> engine_calls s' = engine_calls s1 + 2 * (length new - 1)"
      and d: "x = DIVERGED \<longrightarrow> new \<noteq> [] \<and> \<not> last new < ftol S
           \<and> force_max (forces_12 s') = Inr (last new)
           \<and> 100 < force_2norm (forces_12 s')
           \<and> engine_calls s' = engine_calls s1 + 2 * (length new - 1)"
      and m: "x = MAX_ITER_REACHED \<longrightarrow> length new = n \<and> (\<forall>v\<in>set new. \<not> v < ftol S)
           \<and> engine_calls s' = engine_calls s1 + 2 * n"
      by blast
    have bl: "\<forall>w\<in>set (butlast (v # new)). \<not> w < ftol S"
      using n1(4) 3(2) by (cases new) auto
    have "force_evolution s' = force_evolution s @ (v # new)" using n1(1) eff by simp
    moreover have "length (v # new) \<le> Suc n" using n1(2) by simp
    moreover have "forces_npy s' = forces_npy s" using n1(3) eff by simp
    moreover have "x = CONVERGED \<longrightarrow> v # new \<noteq> [] \<and> last (v # new) < ftol S
           \<and> force_max (forces_12 s') = Inr (last (v # new))
           \<and> engine_calls s' = engine_calls s + 2 * (length (v # new) - 1)"
      using c eff by (cases new) auto
    moreover have "x = DIVERGED \<longrightarrow> v # new \<noteq> [] \<and> \<not> last (v # new) < ftol S
           \<and> force_max (forces_12 s') = Inr (last (v # new))
           \<and> 100 < force_2norm (forces_12 s')
           \<and> engine_calls s' = engine_calls s + 2 * (length (v # new) - 1)"
      using d eff by (cases new) auto
    moreover have "x = MAX_ITER_REACHED \<longrightarrow> length (v # new) = Suc n
           \<and> (\<forall>w\<in>set (v # new). \<not> w < ftol S)
           \<and> engine_calls s' = engine_calls s + 2 * Suc n"
      using m eff 3(2) by auto
    ultimately show ?thesis using bl by (intro exI[of _ "v # new"]) blast
  qed
qed

lemma relaxation_loop_unfold:
  "0 < n \<Longrightarrow> relaxation_loop S n s =
     (case outer_iteration S s of
        Inl err \<Rightarrow> Inl err
      | Inr (Some x, s') \<Rightarrow> Inr (x, s')
      | Inr (None, s') \<Rightarrow> relaxation_loop S (n - 1) s')"
  by (cases n) (auto split: sum.splits prod.splits option.splits)

lemma stub_initial:
  "initial_state stub_setup (v # vs) None = Inr (stub_state v [] vs 1)"
  by (simp add: initial_state_def stub_setup_def core_coupling_forces_def stub_state_def)

lemma stub_force_max: "0 \<le> v \<Longrightarrow> force_max [v, 0, 0] = Inr v"
  by (simp add: force_max_def Let_def)

lemma stub_cycle:
  "relaxation_cycle ([(0, 0, 0)], [(0, 0, 0)]) 0 1 1 \<lparr>nrows = 3, ncols = 3, entry = (\<lambda>r c. 0)\<rparr>
     ''dislLGF123'' 100 = Inr [(0, 0, 0)]"
  by (simp add: relaxation_cycle_def coupling_forces_def reshape_ok_def LGF123_update_def
      dot_mv_def upt_conv_Cons reshape_n3_def dispmax_of_def py_max_def scale_of_def iop_rows_def)

lemma stub_coupling_step:
  "coupling_step stub_setup (stub_state v lg (w # ws) k) = Inr (stub_state w lg ws (k + 2))"
  using stub_cycle
  by (simp add: coupling_step_def stub_setup_def stub_state_def grid_new_def core_coupling_forces_def)

lemma stub_iteration_on:
  assumes "1 / 10 \<le> v" "v \<le> 100"
  shows "outer_iteration stub_setup (stub_state v lg (w # ws) k)
           = Inr (None, stub_state w (lg @ [v]) ws (k + 2))"
proof -
  have fm: "force_max (forces_12 (stub_state v lg (w # ws) k)) = Inr v"
    using assms stub_force_max[of v] by (simp add: stub_state_def)
  have "v\<^sup>2 \<le> 100\<^sup>2" using assms by (intro power_mono) simp_all
  then have nrm: "\<not> 100 < force_2norm (forces_12 (stub_state v lg (w # ws) k))"
    by (simp add: force_2norm_gt_iff stub_state_def)
  have ft: "\<not> v < ftol stub_setup" using assms by (simp add: stub_setup_def)
  have st: "stub_state v lg (w # ws) k\<lparr>force_evolution := force_evolution (stub_state v lg (w # ws) k) @ [v]\<rparr>
      = stub_state v (lg @ [v]) (w # ws) k"
    by (simp add: stub_state_def)
  show ?thesis
    using nrm ft by (simp add: outer_iteration_def fm Let_def st stub_coupling_step)
qed

lemma stub_iteration_converged:
  assumes "0 \<le> v" "v < 1 / 10"
  shows "outer_iteration stub_setup (stub_state v lg ws k)
           = Inr (Some CONVERGED, stub_state v (lg @ [v]) ws k)"
proof -
  have fm: "force_max (forces_12 (stub_state v lg ws k)) = Inr v"
    using assms stub_force_max[of v] by (simp add: stub_state_def)
  have ft: "v < ftol stub_setup" using assms by (simp add: stub_setup_def)
  show ?thesis
    using outer_iteration_converged[OF fm ft] by (simp add: stub_state_def)
qed

lemma stub_loop:
  "relaxation_loop stub_setup 51 (stub_state 10 [] [1, 1 / 100] 1)
      = Inr (CONVERGED, stub_state (1 / 100) [10, 1, 1 / 100] [] 5)"
proof -
  have five: "Suc (Suc (Suc (Suc (Suc 0)))) = 5" by simp
  show ?thesis
    by (simp add: relaxation_loop_unfold stub_iteration_on stub_iteration_converged five)
qed

lemma stub_scenario:
  "relaxation_main stub_setup 51 [10, 1, 1 / 100] None
     = Inr (CONVERGED, (stub_state (1 / 100) [10, 1, 1 / 100] [] 5)\<lparr>forces_npy := Some [10, 1, 1 / 100]\<rparr>)"
  by (simp only: relaxation_main_def stub_initial stub_loop sum.case prod.case nat_numeral)
    (simp add: stub_state_def)

lemma stub_first_iteration:
  "outer_iteration stub_setup (stub_state 10 [] [1, 1 / 100] 1)
     = Inr (None, stub_state 1 [10] [1 / 100] 3)"
proof -
  have e: "(1::nat) + 2 = 3" "[] @ [10::real] = [10]" by simp_all
  have "(1::real) / 10 \<le> 10" "(10::real) \<le> 100" by simp_all
  from stub_iteration_on[OF this, of "[]" 1 "[1 / 100]" 1] show ?thesis unfolding e .
qed

text \<open>
  The value the loop logs: \<^verbatim>\<open>argmax\<close> returns a position of the largest entry, so
  \<open>force_max\<close> is the largest absolute value among the components of \<open>forces_12\<close>.
\<close>

lemma argmax_max: "xs \<noteq> [] \<Longrightarrow> argmax xs < length xs \<and> xs ! argmax xs = Max (set xs)"
proof (induction xs rule: argmax.induct)
  case 1
  then show ?case by simp
next
  case (2 x)
  then show ?case by simp
next
  case (3 x y ys)
  define k where "k = argmax (y # ys)"
  define M where "M = Max (set (y # ys))"
  from 3 have ih: "k < length (y # ys)" "(y # ys) ! k = M"
    unfolding k_def M_def by simp_all
  have mx: "Max (set (x # y # ys)) = max x M"
    unfolding M_def using Max_insert[of "set (y # ys)" x] by simp
  have am: "argmax (x # y # ys) = (if M \<le> x then 0 else Suc k)"
    using ih(2) by (simp add: Let_def k_def[symmetric])
  show ?case
    unfolding am mx using ih by (cases "M \<le> x") (simp_all add: max_def)
qed

lemma force_max_eq: "fs \<noteq> [] \<Longrightarrow> force_max fs = Inr (Max (abs ` set fs))"
proof -
  assume ne: "fs \<noteq> []"
  then have m: "map abs fs \<noteq> []" by simp
  from argmax_max[OF m] have k: "argmax (map abs fs) < length fs"
    and e: "map abs fs ! argmax (map abs fs) = Max (abs ` set fs)" by simp_all
  from k e have "\<bar>fs ! argmax (map abs fs)\<bar> = Max (abs ` set fs)" by simp
  with ne show ?thesis by (simp add: force_max_def)
qed

lemma force_max_Inr_iff: "force_max fs = Inr v \<longleftrightarrow> fs \<noteq> [] \<and> v = Max (abs ` set fs)"
proof (cases "fs = []")
  case True
  then show ?thesis by (simp add: force_max_def)
next
  case False
  then show ?thesis using force_max_eq[OF False] by auto
qed

lemma coupling_step_eq:
  assumes "lammps_minimize_getforces S (engine s) (datafile s) = (out, e1)"
    and "relaxation_cycle out (sz_1 S) (sz_12 S) (sz_123 S) (G_mnt S) (LGF_method S) 100 = Inr grid_mat"
    and "lammps_getforces S e1 (grid_new (xyz_grid S) grid_mat) = (forces_new, e2)"
    and "sz_12 S \<le> length forces_new"
  shows "coupling_step S s
     = Inr (s\<lparr>forces_12 := ravel (take (sz_12 S) forces_new),
              datafile := grid_new (xyz_grid S) grid_mat,
              engine := e2, engine_calls := engine_calls s + 2\<rparr>)"
  using assms by (simp add: coupling_step_def core_coupling_forces_def)

lemma coupling_step_cycle_error:
  assumes "lammps_minimize_getforces S (engine s) (datafile s) = (out, e1)"
    and "relaxation_cycle out (sz_1 S) (sz_12 S) (sz_123 S) (G_mnt S) (LGF_method S) 100 = Inl err"
  shows "coupling_step S s = Inl err"
  using assms by (simp add: coupling_step_def)

lemma initial_state_eq:
  assumes "lammps_getforces S e0 (take (sz_123 S) (xyz_grid S)) = (forces, e1)"
    and "sz_12 S \<le> length forces"
  shows "initial_state S e0 disk
     = Inr \<lparr>forces_12 = ravel (take (sz_12 S) forces), force_evolution = [],
            datafile = take (sz_123 S) (xyz_grid S), forces_npy = disk,
            engine = e1, engine_calls = 1\<rparr>"
  using assms by (simp add: initial_state_def core_coupling_forces_def)

text \<open>
  Claim C3. \<open>forces_12\<close> holds the force components of the first \<open>size_12\<close> atoms (core
  and coupling region) returned by the last force evaluation of the engine, at the start
  that of the atoms written before the loop. An iteration of the relaxation loop appends
  exactly one value to the log, the largest absolute value \<open>v\<close> of these components, and
  then: ends the loop as CONVERGED when \<open>v\<close> is below the tolerance, whatever the force
  norm is; otherwise ends it as DIVERGED when the 2-norm of \<open>forces_12\<close> exceeds 100, the
  state of the engine, its call count and the data file being those from before the
  iteration; otherwise performs one coupling cycle and goes on with the remaining
  iterations: the engine relaxes the core from the data file, \<open>relaxation_cycle\<close> with the
  cap 100 turns the result into new coordinates, these are written to the data file, and
  the engine evaluates the forces on them, of which the first \<open>size_12\<close> rows become
  \<open>forces_12\<close> (two engine calls). An error of the cycle ends the program, and so does an
  empty \<open>forces_12\<close>, whose largest component does not exist. With no iteration left the
  loop ends as MAX\_ITER\_REACHED. A loop of at most \<open>n\<close> iterations therefore extends
  the log by at most \<open>n\<close> values, one per iteration run: all but the last are not below
  the tolerance, the last one is the largest absolute component of the final forces and
  decides the exit, and the number of engine calls is twice the number of cycles. With the
  stub replaying the maximum forces 10, 1, 0.01 against the tolerance 0.1 the program ends
  CONVERGED at iteration 3 with a log of length 3.
\<close>

theorem relaxation_loop_transitions:
  "(forces_12 s \<noteq> [] \<and> v = Max (abs ` set (forces_12 s)) \<and> v < ftol S \<longrightarrow>
      relaxation_loop S (Suc k) s
        = Inr (CONVERGED, s\<lparr>force_evolution := force_evolution s @ [v]\<rparr>))
   \<and> (forces_12 s \<noteq> [] \<and> v = Max (abs ` set (forces_12 s)) \<and> \<not> v < ftol S
        \<and> 100 < sqrt (\<Sum>c\<leftarrow>forces_12 s. c\<^sup>2) \<longrightarrow>
      relaxation_loop S (Suc k) s
        = Inr (DIVERGED, s\<lparr>force_evolution := force_evolution s @ [v]\<rparr>))
   \<and> (forces_12 s \<noteq> [] \<and> v = Max (abs ` set (forces_12 s)) \<and> \<not> v < ftol S
        \<and> \<not> 100 < sqrt (\<Sum>c\<leftarrow>forces_12 s. c\<^sup>2)
        \<and> lammps_minimize_getforces S (engine s) (datafile s) = (out, e1)
        \<and> relaxation_cycle out (sz_1 S) (sz_12 S) (sz_123 S) (G_mnt S) (LGF_method S) 100
            = Inr grid_mat
        \<and> lammps_getforces S e1 (grid_new (xyz_grid S) grid_mat) = (forces_new, e2)
        \<and> sz_12 S \<le> length forces_new \<longrightarrow>
      relaxation_loop S (Suc k) s
        = relaxation_loop S k
            (s\<lparr>force_evolution := force_evolution s @ [v],
               forces_12 := ravel (take (sz_12 S) forces_new),
               datafile := grid_new (xyz_grid S) grid_mat,
               engine := e2, engine_calls := engine_calls s + 2\<rparr>))
   \<and> (forces_12 s \<noteq> [] \<and> \<not> Max (abs ` set (forces_12 s)) < ftol S
        \<and> \<not> 100 < sqrt (\<Sum>c\<leftarrow>forces_12 s. c\<^sup>2)
        \<and> lammps_minimize_getforces S (engine s) (datafile s) = (out, e1)
        \<and> relaxation_cycle out (sz_1 S) (sz_12 S) (sz_123 S) (G_mnt S) (LGF_method S) 100
            = Inl err \<longrightarrow>
      relaxation_loop S (Suc k) s = Inl err)
   \<and> (forces_12 s = [] \<longrightarrow> is_ValueError (relaxation_loop S (Suc k) s))
   \<and> relaxation_loop S 0 s = Inr (MAX_ITER_REACHED, s)
   \<and> (lammps_getforces S e0 (take (sz_123 S) (xyz_grid S)) = (forces, e1)
        \<and> sz_12 S \<le> length forces \<longrightarrow>
      initial_state S e0 disk
        = Inr \<lparr>forces_12 = ravel (take (sz_12 S) forces), force_evolution = [],
               datafile = take (sz_123 S) (xyz_grid S), forces_npy = disk,
               engine = e1, engine_calls = 1\<rparr>)
   \<and> (relaxation_loop S n s = Inr (x, s') \<longrightarrow>
      (\<exists>new. force_evolution s' = force_evolution s @ new \<and> length new \<le> n
         \<and> (\<forall>w\<in>set (butlast new). \<not> w < ftol S)
         \<and> (x = CONVERGED \<longrightarrow> new \<noteq> [] \<and> last new < ftol S
               \<and> forces_12 s' \<noteq> [] \<and> last new = Max (abs ` set (forces_12 s'))
               \<and> engine_calls s' = engine_calls s + 2 * (length new - 1))
         \<and> (x = DIVERGED \<longrightarrow> new \<noteq> [] \<and> \<not> last new < ftol S
               \<and> forces_12 s' \<noteq> [] \<and> last new = Max (abs ` set (forces_12 s'))
               \<and> 100 < sqrt (\<Sum>c\<leftarrow>forces_12 s'. c\<^sup>2)
               \<and> engine_calls s' = engine_calls s + 2 * (length new - 1))
         \<and> (x = MAX_ITER_REACHED \<longrightarrow> length new = n \<and> (\<forall>w\<in>set new. \<not> w < ftol S)
               \<and> engine_calls s' = engine_calls s + 2 * n)))
   \<and> (\<exists>sf. relaxation_main stub_setup 51 [10, 1, 1 / 100] None = Inr (CONVERGED, sf)
         \<and> force_evolution sf = [10, 1, 1 / 100] \<and> length (force_evolution sf) = 3)"
proof -
  have a: "relaxation_loop S (Suc k) s
        = Inr (CONVERGED, s\<lparr>force_evolution := force_evolution s @ [v]\<rparr>)"
    if "forces_12 s \<noteq> []" "v = Max (abs ` set (forces_12 s))" "v < ftol S"
  proof -
    from that have fm: "force_max (forces_12 s) = Inr v" by (simp add: force_max_eq)
    from outer_iteration_converged[OF fm that(3)] show ?thesis by simp
  qed
  have b: "relaxation_loop S (Suc k) s
        = Inr (DIVERGED, s\<lparr>force_evolution := force_evolution s @ [v]\<rparr>)"
    if "forces_12 s \<noteq> []" "v = Max (abs ` set (forces_12 s))" "\<not> v < ftol S"
      "100 < sqrt (\<Sum>c\<leftarrow>forces_12 s. c\<^sup>2)"
  proof -
    from that have fm: "force_max (forces_12 s) = Inr v" by (simp add: force_max_eq)
    from that(4) have "100 < force_2norm (forces_12 s)" by (simp add: force_2norm_def)
    from outer_iteration_diverged[OF fm that(3) this] show ?thesis by simp
  qed
  have c: "relaxation_loop S (Suc k) s
        = relaxation_loop S k
            (s\<lparr>force_evolution := force_evolution s @ [v],
               forces_12 := ravel (take (sz_12 S) forces_new),
               datafile := grid_new (xyz_grid S) grid_mat,
               engine := e2, engine_calls := engine_calls s + 2\<rparr>)"
    if "forces_12 s \<noteq> []" "v = Max (abs ` set (forces_12 s))" "\<not> v < ftol S"
      "\<not> 100 < sqrt (\<Sum>c\<leftarrow>forces_12 s. c\<^sup>2)"
      "lammps_minimize_getforces S (engine s) (datafile s) = (out, e1)"
      "relaxation_cycle out (sz_1 S) (sz_12 S) (sz_123 S) (G_mnt S) (LGF_method S) 100
            = Inr grid_mat"
      "lammps_getforces S e1 (grid_new (xyz_grid S) grid_mat) = (forces_new, e2)"
      "sz_12 S \<le> length forces_new"
  proof -
    from that have fm: "force_max (forces_12 s) = Inr v" by (simp add: force_max_eq)
    from that(4) have nrm: "\<not> 100 < force_2norm (forces_12 s)" by (simp add: force_2norm_def)
    have cs: "coupling_step S (s\<lparr>force_evolution := force_evolution s @ [v]\<rparr>)
       = Inr (s\<lparr>force_evolution := force_evolution s @ [v],
                forces_12 := ravel (take (sz_12 S) forces_new),
                datafile := grid_new (xyz_grid S) grid_mat,
                engine := e2, engine_calls := engine_calls s + 2\<rparr>)"
      using coupling_step_eq[of S "s\<lparr>force_evolution := force_evolution s @ [v]\<rparr>" out e1
          grid_mat forces_new e2] that(5-8)
      by simp
    show ?thesis
      using fm that(3) nrm cs by (simp add: outer_iteration_def Let_def)
  qed
  have c': "relaxation_loop S (Suc k) s = Inl err"
    if "forces_12 s \<noteq> []" "\<not> Max (abs ` set (forces_12 s)) < ftol S"
      "\<not> 100 < sqrt (\<Sum>c\<leftarrow>forces_12 s. c\<^sup>2)"
      "lammps_minimize_getforces S (engine s) (datafile s) = (out, e1)"
      "relaxation_cycle out (sz_1 S) (sz_12 S) (sz_123 S) (G_mnt S) (LGF_method S) 100
            = Inl err"
  proof -
    from that have fm: "force_max (forces_12 s) = Inr (Max (abs ` set (forces_12 s)))"
      by (simp add: force_max_eq)
    from that(3) have nrm: "\<not> 100 < force_2norm (forces_12 s)" by (simp add: force_2norm_def)
    have cs: "coupling_step S
        (s\<lparr>force_evolution := force_evolution s @ [Max (abs ` set (forces_12 s))]\<rparr>) = Inl err"
      using coupling_step_cycle_error[of S
          "s\<lparr>force_evolution := force_evolution s @ [Max (abs ` set (forces_12 s))]\<rparr>" out e1 err]
        that(4,5)
      by simp
    show ?thesis
      using fm that(2) nrm cs by (simp add: outer_iteration_def Let_def)
  qed
  have z: "is_ValueError (relaxation_loop S (Suc k) s)"
    if "forces_12 s = []"
    using that by (simp add: outer_iteration_def force_max_def is_ValueError_def)
  have m: "relaxation_loop S 0 s = Inr (MAX_ITER_REACHED, s)" by simp
  have i: "initial_state S e0 disk
        = Inr \<lparr>forces_12 = ravel (take (sz_12 S) forces), force_evolution = [],
               datafile = take (sz_123 S) (xyz_grid S), forces_npy = disk,
               engine = e1, engine_calls = 1\<rparr>"
    if "lammps_getforces S e0 (take (sz_123 S) (xyz_grid S)) = (forces, e1)"
      "sz_12 S \<le> length forces"
    using initial_state_eq[OF that] .
  have d: "\<exists>new. force_evolution s' = force_evolution s @ new \<and> length new \<le> n
         \<and> (\<forall>w\<in>set (butlast new). \<not> w < ftol S)
         \<and> (x = CONVERGED \<longrightarrow> new \<noteq> [] \<and> last new < ftol S
               \<and> forces_12 s' \<noteq> [] \<and> last new = Max (abs ` set (forces_12 s'))
               \<and> engine_calls s' = engine_calls s + 2 * (length new - 1))
         \<and> (x = DIVERGED \<longrightarrow> new \<noteq> [] \<and> \<not> last new < ftol S
               \<and> forces_12 s' \<noteq> [] \<and> last new = Max (abs ` set (forces_12 s'))
               \<and> 100 < sqrt (\<Sum>c\<leftarrow>forces_12 s'. c\<^sup>2)
               \<and> engine_calls s' = engine_calls s + 2 * (length new - 1))
         \<and> (x = MAX_ITER_REACHED \<longrightarrow> length new = n \<and> (\<forall>w\<in>set new. \<not> w < ftol S)
               \<and> engine_calls s' = engine_calls s + 2 * n)"
    if "relaxation_loop S n s = Inr (x, s')"
  proof -
    from relaxation_loop_log[OF that] obtain new where
      n1: "force_evolution s' = force_evolution s @ new" "length new \<le> n"
        "\<forall>v\<in>set (butlast new). \<not> v < ftol S"
      and cc: "x = CONVERGED \<longrightarrow> new \<noteq> [] \<and> last new < ftol S
           \<and> force_max (forces_12 s') = Inr (last new)
           \<and> engine_calls s' = engine_calls s + 2 * (length new - 1)"
      and dd: "x = DIVERGED \<longrightarrow> new \<noteq> [] \<and> \<not> last new < ftol S
           \<and> force_max (forces_12 s') = Inr (last new)
           \<and> 100 < force_2norm (forces_12 s')
           \<and> engine_calls s' = engine_calls s + 2 * (length new - 1)"
      and mm: "x = MAX_ITER_REACHED \<longrightarrow> length new = n \<and> (\<forall>v\<in>set new. \<not> v < ftol S)
           \<and> engine_calls s' = engine_calls s + 2 * n"
      by (elim exE conjE)
    from cc have cc': "x = CONVERGED \<longrightarrow> new \<noteq> [] \<and> last new < ftol S
               \<and> forces_12 s' \<noteq> [] \<and> last new = Max (abs ` set (forces_12 s'))
               \<and> engine_calls s' = engine_calls s + 2 * (length new - 1)"
      by (simp only: force_max_Inr_iff conj_assoc)
    from dd have dd': "x = DIVERGED \<longrightarrow> new \<noteq> [] \<and> \<not> last new < ftol S
               \<and> forces_12 s' \<noteq> [] \<and> last new = Max (abs ` set (forces_12 s'))
               \<and> 100 < sqrt (\<Sum>c\<leftarrow>forces_12 s'. c\<^sup>2)
               \<and> engine_calls s' = engine_calls s + 2 * (length new - 1)"
      by (simp only: force_max_Inr_iff force_2norm_def conj_assoc)
    show ?thesis
      apply (rule exI[of _ new])
      using n1 cc' dd' mm by (intro conjI)
  qed
  have e: "\<exists>sf. relaxation_main stub_setup 51 [10, 1, 1 / 100] None = Inr (CONVERGED, sf)
         \<and> force_evolution sf = [10, 1, 1 / 100] \<and> length (force_evolution sf) = 3"
    unfolding stub_scenario by (simp add: stub_state_def)
  show ?thesis
    apply (intro conjI impI)
    subgoal using a by (elim conjE)
    subgoal using b by (elim conjE)
    subgoal using c by (elim conjE)
    subgoal using c' by (elim conjE)
    subgoal using z .
    subgoal using m .
    subgoal using i by (elim conjE)
    subgoal using d .
    subgoal using e .
    done
qed


theorem relaxation_loop_transitions_witness:
  "relaxation_loop stub_setup (Suc 0)
       ((stub_state (1 / 100) [10, 1] [] 5)\<lparr>forces_12 := [1 / 100, - (1 / 20), 0]\<rparr>)
     = Inr (CONVERGED, (stub_state (1 / 100) [10, 1, 1 / 20] [] 5)
                          \<lparr>forces_12 := [1 / 100, - (1 / 20), 0]\<rparr>)
   \<and> relaxation_loop stub_setup (Suc 0) (stub_state 200 [] [1] 1)
     = Inr (DIVERGED, stub_state 200 [200] [1] 1)
   \<and> relaxation_loop stub_setup (Suc 50) (stub_state 10 [] [1, 1 / 100] 1)
     = relaxation_loop stub_setup 50 (stub_state 1 [10] [1 / 100] 3)
   \<and> relaxation_loop (stub_setup\<lparr>LGF_method := ''LGF''\<rparr>) (Suc 50)
        (stub_state 10 [] [1, 1 / 100] 1) = Inl (ValueError ''invalid method!'')
   \<and> is_ValueError (relaxation_loop stub_setup (Suc 50)
        ((stub_state 10 [] [1, 1 / 100] 1)\<lparr>forces_12 := []\<rparr>))
   \<and> initial_state stub_setup [10, 1, 1 / 100] None = Inr (stub_state 10 [] [1, 1 / 100] 1)
   \<and> relaxation_loop stub_setup 51 (stub_state 10 [] [1, 1 / 100] 1)
     = Inr (CONVERGED, stub_state (1 / 100) [10, 1, 1 / 100] [] 5)
   \<and> (\<exists>new. force_evolution (stub_state (1 / 100) [10, 1, 1 / 100] [] 5)
               = force_evolution (stub_state 10 [] [1, 1 / 100] 1) @ new
         \<and> length new \<le> 51 \<and> new \<noteq> [] \<and> last new < ftol stub_setup
         \<and> last new = Max (abs ` set (forces_12 (stub_state (1 / 100) [10, 1, 1 / 100] [] 5)))
         \<and> engine_calls (stub_state (1 / 100) [10, 1, 1 / 100] [] 5)
               = engine_calls (stub_state 10 [] [1, 1 / 100] 1) + 2 * (length new - 1))"
proof -
  note T = relaxation_loop_transitions
  let ?G = "\<lparr>nrows = 3, ncols = 3, entry = (\<lambda>r c. 0)\<rparr> :: matrix"
  let ?a = "(stub_state (1 / 100) [10, 1] [] 5)\<lparr>forces_12 := [1 / 100, - (1 / 20), 0]\<rparr>"
  let ?b = "stub_state 200 [] [1] 1"
  let ?c = "stub_state 10 [] [1, 1 / 100] 1"
  let ?bad = "stub_setup\<lparr>LGF_method := ''LGF''\<rparr>"
  have sq: "sqrt 40000 = 200" "sqrt 100 = 10"
    using real_sqrt_abs[of 200] real_sqrt_abs[of 10] by simp_all
  have ha: "forces_12 ?a \<noteq> []" "1 / 20 = Max (abs ` set (forces_12 ?a))"
    "(1 / 20 :: real) < ftol stub_setup"
    by (simp_all add: stub_state_def stub_setup_def)
  have ea: "?a\<lparr>force_evolution := force_evolution ?a @ [1 / 20]\<rparr>
      = (stub_state (1 / 100) [10, 1, 1 / 20] [] 5)\<lparr>forces_12 := [1 / 100, - (1 / 20), 0]\<rparr>"
    by (simp add: stub_state_def)
  have w1: "relaxation_loop stub_setup (Suc 0) ?a
     = Inr (CONVERGED, (stub_state (1 / 100) [10, 1, 1 / 20] [] 5)
                          \<lparr>forces_12 := [1 / 100, - (1 / 20), 0]\<rparr>)"
    unfolding ea[symmetric]
    by (rule T[where s = ?a and v = "1 / 20" and S = stub_setup and k = 0,
          THEN conjunct1, rule_format]) (intro conjI ha)
  have hb: "forces_12 ?b \<noteq> []" "200 = Max (abs ` set (forces_12 ?b))"
    "\<not> (200 :: real) < ftol stub_setup" "100 < sqrt (\<Sum>c\<leftarrow>forces_12 ?b. c\<^sup>2)"
    by (simp_all add: stub_state_def stub_setup_def sq)
  have eb: "?b\<lparr>force_evolution := force_evolution ?b @ [200]\<rparr> = stub_state 200 [200] [1] 1"
    by (simp add: stub_state_def)
  have w2: "relaxation_loop stub_setup (Suc 0) ?b = Inr (DIVERGED, stub_state 200 [200] [1] 1)"
    unfolding eb[symmetric]
    by (rule T[where s = ?b and v = 200 and S = stub_setup and k = 0,
          THEN conjunct2, THEN conjunct1, rule_format]) (intro conjI hb)
  have hc: "forces_12 ?c \<noteq> []" "10 = Max (abs ` set (forces_12 ?c))"
    "\<not> (10 :: real) < ftol stub_setup" "\<not> 100 < sqrt (\<Sum>c\<leftarrow>forces_12 ?c. c\<^sup>2)"
    by (simp_all add: stub_state_def stub_setup_def sq)
  have hc': "\<not> Max (abs ` set (forces_12 ?c)) < ftol ?bad"
    by (simp add: stub_state_def stub_setup_def)
  have mg: "lammps_minimize_getforces stub_setup (engine ?c) (datafile ?c)
      = (([(0, 0, 0)], [(0, 0, 0)]), [1, 1 / 100])"
    "lammps_minimize_getforces ?bad (engine ?c) (datafile ?c)
      = (([(0, 0, 0)], [(0, 0, 0)]), [1, 1 / 100])"
    by (simp_all add: stub_state_def stub_setup_def)
  have cy: "relaxation_cycle ([(0, 0, 0)], [(0, 0, 0)]) (sz_1 stub_setup) (sz_12 stub_setup)
      (sz_123 stub_setup) (G_mnt stub_setup) (LGF_method stub_setup) 100 = Inr [(0, 0, 0)]"
    using stub_cycle by (simp add: stub_setup_def)
  have cy': "relaxation_cycle ([(0, 0, 0)], [(0, 0, 0)]) (sz_1 ?bad) (sz_12 ?bad)
      (sz_123 ?bad) (G_mnt ?bad) (LGF_method ?bad) 100 = Inl (ValueError ''invalid method!'')"
    by (simp add: stub_setup_def relaxation_cycle_def coupling_forces_def reshape_ok_def)
  have gf: "lammps_getforces stub_setup [1, 1 / 100] (grid_new (xyz_grid stub_setup) [(0, 0, 0)])
      = ([(1, 0, 0)], [1 / 100])"
    "sz_12 stub_setup \<le> length [(1 :: real, 0 :: real, 0 :: real)]"
    by (simp_all add: stub_setup_def)
  have ec: "?c\<lparr>force_evolution := force_evolution ?c @ [10],
               forces_12 := ravel (take (sz_12 stub_setup) [(1, 0, 0)]),
               datafile := grid_new (xyz_grid stub_setup) [(0, 0, 0)],
               engine := [1 / 100], engine_calls := engine_calls ?c + 2\<rparr>
      = stub_state 1 [10] [1 / 100] 3"
    by (simp add: stub_state_def stub_setup_def grid_new_def)
  have w3: "relaxation_loop stub_setup (Suc 50) ?c
     = relaxation_loop stub_setup 50 (stub_state 1 [10] [1 / 100] 3)"
    unfolding ec[symmetric]
    by (rule T[where s = ?c and v = 10 and S = stub_setup and k = 50
          and out = "([(0, 0, 0)], [(0, 0, 0)])" and ?e1.0 = "[1, 1 / 100]"
          and grid_mat = "[(0, 0, 0)]" and forces_new = "[(1, 0, 0)]" and ?e2.0 = "[1 / 100]",
          THEN conjunct2, THEN conjunct2, THEN conjunct1, rule_format])
      (intro conjI hc mg(1) cy gf)
  have ftb: "ftol ?bad = ftol stub_setup" by simp
  have w4: "relaxation_loop ?bad (Suc 50) ?c = Inl (ValueError ''invalid method!'')"
    by (rule T[where s = ?c and S = ?bad and k = 50
          and out = "([(0, 0, 0)], [(0, 0, 0)])" and ?e1.0 = "[1, 1 / 100]"
          and err = "ValueError ''invalid method!''",
          THEN conjunct2, THEN conjunct2, THEN conjunct2, THEN conjunct1, rule_format])
      (intro conjI hc(1,4) hc' mg(2) cy')
  have hd: "forces_12 (?c\<lparr>forces_12 := []\<rparr>) = []" by simp
  have w5: "is_ValueError (relaxation_loop stub_setup (Suc 50) (?c\<lparr>forces_12 := []\<rparr>))"
    by (rule T[where s = "?c\<lparr>forces_12 := []\<rparr>" and S = stub_setup and k = 50,
          THEN conjunct2, THEN conjunct2, THEN conjunct2, THEN conjunct2, THEN conjunct1,
          rule_format]) (rule hd)
  have hi: "lammps_getforces stub_setup [10, 1, 1 / 100] (take (sz_123 stub_setup) (xyz_grid stub_setup))
      = ([(10, 0, 0)], [1, 1 / 100])"
    "sz_12 stub_setup \<le> length [(10 :: real, 0 :: real, 0 :: real)]"
    by (simp_all add: stub_setup_def)
  have ei: "\<lparr>forces_12 = ravel (take (sz_12 stub_setup) [(10, 0, 0)]), force_evolution = [],
       datafile = take (sz_123 stub_setup) (xyz_grid stub_setup), forces_npy = None,
       engine = [1, 1 / 100], engine_calls = 1\<rparr> = ?c"
    by (simp add: stub_state_def stub_setup_def)
  have w6: "initial_state stub_setup [10, 1, 1 / 100] None = Inr ?c"
    unfolding ei[symmetric]
    by (rule T[where S = stub_setup and ?e0.0 = "[10, 1, 1 / 100]" and forces = "[(10, 0, 0)]"
          and ?e1.0 = "[1, 1 / 100]" and disk = None,
          THEN conjunct2, THEN conjunct2, THEN conjunct2, THEN conjunct2, THEN conjunct2,
          THEN conjunct2, THEN conjunct1, rule_format]) (intro conjI hi)
  have w7: "\<exists>new. force_evolution (stub_state (1 / 100) [10, 1, 1 / 100] [] 5)
               = force_evolution ?c @ new
         \<and> length new \<le> 51 \<and> new \<noteq> [] \<and> last new < ftol stub_setup
         \<and> last new = Max (abs ` set (forces_12 (stub_state (1 / 100) [10, 1, 1 / 100] [] 5)))
         \<and> engine_calls (stub_state (1 / 100) [10, 1, 1 / 100] [] 5)
               = engine_calls ?c + 2 * (length new - 1)"
  proof -
    from T[where S = stub_setup and n = 51 and s = ?c
        and x = CONVERGED and s' = "stub_state (1 / 100) [10, 1, 1 / 100] [] 5",
        THEN conjunct2, THEN conjunct2, THEN conjunct2, THEN conjunct2, THEN conjunct2,
        THEN conjunct2, THEN conjunct2, THEN conjunct1, rule_format, OF stub_loop]
    obtain new where n: "force_evolution (stub_state (1 / 100) [10, 1, 1 / 100] [] 5)
               = force_evolution ?c @ new" "length new \<le> 51"
      and c: "CONVERGED = CONVERGED \<longrightarrow> new \<noteq> [] \<and> last new < ftol stub_setup
         \<and> forces_12 (stub_state (1 / 100) [10, 1, 1 / 100] [] 5) \<noteq> []
         \<and> last new = Max (abs ` set (forces_12 (stub_state (1 / 100) [10, 1, 1 / 100] [] 5)))
         \<and> engine_calls (stub_state (1 / 100) [10, 1, 1 / 100] [] 5)
               = engine_calls ?c + 2 * (length new - 1)"
      by (elim exE conjE)
    from c have c': "new \<noteq> [] \<and> last new < ftol stub_setup
         \<and> forces_12 (stub_state (1 / 100) [10, 1, 1 / 100] [] 5) \<noteq> []
         \<and> last new = Max (abs ` set (forces_12 (stub_state (1 / 100) [10, 1, 1 / 100] [] 5)))
         \<and> engine_calls (stub_state (1 / 100) [10, 1, 1 / 100] [] 5)
               = engine_calls ?c + 2 * (length new - 1)"
      by (rule mp) (rule refl)
    show ?thesis
      apply (rule exI[of _ new])
      using n c' by (elim conjE, intro conjI)
  qed
  from w1 w2 w3 w4 w5 w6 stub_loop w7 show ?thesis by (intro conjI)
qed

text \<open>
  Claim C9 (as amended). The log is kept in memory while the loop runs and written to
  \<^verbatim>\<open>forces.npy\<close> once, after the loop has ended: an iteration appends one value to the
  log and leaves the file as it was, so does the whole loop, and when the program returns
  the file holds the complete log.
\<close>

theorem log_saved_once_after_loop:
  "(outer_iteration S s = Inr (r, s1) \<longrightarrow>
      forces_npy s1 = forces_npy s \<and> (\<exists>v. force_evolution s1 = force_evolution s @ [v]))
   \<and> (relaxation_loop S n s = Inr (x, s') \<longrightarrow> forces_npy s' = forces_npy s)
   \<and> (relaxation_main S maxouteriter e0 disk = Inr (x, sf) \<longrightarrow>
        forces_npy sf = Some (force_evolution sf)
        \<and> (\<exists>s0 sl. initial_state S e0 disk = Inr s0
              \<and> relaxation_loop S (nat maxouteriter) s0 = Inr (x, sl)
              \<and> forces_npy sl = disk \<and> force_evolution sf = force_evolution sl))"
proof -
  have a: "forces_npy s1 = forces_npy s \<and> (\<exists>v. force_evolution s1 = force_evolution s @ [v])"
    if "outer_iteration S s = Inr (r, s1)"
    using that
  proof (cases rule: outer_iteration_cases)
    case (3 v)
    then show ?thesis using coupling_step_effect[OF 3(5)] by simp
  qed simp_all
  have b: "forces_npy s' = forces_npy s" if "relaxation_loop S n s = Inr (x, s')"
    using relaxation_loop_log[OF that] by blast
  have c: "forces_npy sf = Some (force_evolution sf)
        \<and> (\<exists>s0 sl. initial_state S e0 disk = Inr s0
              \<and> relaxation_loop S (nat maxouteriter) s0 = Inr (x, sl)
              \<and> forces_npy sl = disk \<and> force_evolution sf = force_evolution sl)"
    if m: "relaxation_main S maxouteriter e0 disk = Inr (x, sf)"
  proof -
    from m obtain s0 sl where i: "initial_state S e0 disk = Inr s0"
      and l: "relaxation_loop S (nat maxouteriter) s0 = Inr (x, sl)"
      and f: "sf = sl\<lparr>forces_npy := Some (force_evolution sl)\<rparr>"
      by (auto simp: relaxation_main_def split: sum.splits)
    from i have "forces_npy s0 = disk"
      by (auto simp: initial_state_def split: prod.splits sum.splits)
    with relaxation_loop_log[OF l] have "forces_npy sl = disk" by auto
    with i l f show ?thesis by auto
  qed
  from a b c show ?thesis by blast
qed

theorem log_saved_once_after_loop_witness:
  "initial_state stub_setup [10, 1, 1 / 100] None = Inr (stub_state 10 [] [1, 1 / 100] 1)
   \<and> outer_iteration stub_setup (stub_state 10 [] [1, 1 / 100] 1)
       = Inr (None, stub_state 1 [10] [1 / 100] 3)
   \<and> forces_npy (stub_state 1 [10] [1 / 100] 3) = forces_npy (stub_state 10 [] [1, 1 / 100] 1)
   \<and> relaxation_loop stub_setup 51 (stub_state 10 [] [1, 1 / 100] 1)
       = Inr (CONVERGED, stub_state (1 / 100) [10, 1, 1 / 100] [] 5)
   \<and> forces_npy (stub_state (1 / 100) [10, 1, 1 / 100] [] 5) = None
   \<and> relaxation_main stub_setup 51 [10, 1, 1 / 100] None
       = Inr (CONVERGED, (stub_state (1 / 100) [10, 1, 1 / 100] [] 5)
               \<lparr>forces_npy := Some [10, 1, 1 / 100]\<rparr>)
   \<and> forces_npy ((stub_state (1 / 100) [10, 1, 1 / 100] [] 5)\<lparr>forces_npy := Some [10, 1, 1 / 100]\<rparr>)
       = Some (force_evolution ((stub_state (1 / 100) [10, 1, 1 / 100] [] 5)
               \<lparr>forces_npy := Some [10, 1, 1 / 100]\<rparr>))"
proof -
  note T = log_saved_once_after_loop
  note it = stub_first_iteration
  have a: "forces_npy (stub_state 1 [10] [1 / 100] 3) = forces_npy (stub_state 10 [] [1, 1 / 100] 1)"
    using T[where S = stub_setup and s = "stub_state 10 [] [1, 1 / 100] 1" and r = None
        and ?s1.0 = "stub_state 1 [10] [1 / 100] 3"] it by blast
  have b: "forces_npy (stub_state (1 / 100) [10, 1, 1 / 100] [] 5) = None"
    using T[where S = stub_setup and n = 51 and s = "stub_state 10 [] [1, 1 / 100] 1"
        and x = CONVERGED and s' = "stub_state (1 / 100) [10, 1, 1 / 100] [] 5"] stub_loop
    by (simp add: stub_state_def)
  have c: "forces_npy ((stub_state (1 / 100) [10, 1, 1 / 100] [] 5)\<lparr>forces_npy := Some [10, 1, 1 / 100]\<rparr>)
       = Some (force_evolution ((stub_state (1 / 100) [10, 1, 1 / 100] [] 5)
               \<lparr>forces_npy := Some [10, 1, 1 / 100]\<rparr>))"
    using T[where S = stub_setup and maxouteriter = 51 and ?e0.0 = "[10, 1, 1 / 100]"
        and disk = None and x = CONVERGED
        and sf = "(stub_state (1 / 100) [10, 1, 1 / 100] [] 5)\<lparr>forces_npy := Some [10, 1, 1 / 100]\<rparr>"]
      stub_scenario
    by blast
  from stub_initial[of 10 "[1, 1 / 100]"] it a stub_loop b stub_scenario c
  show ?thesis by (intro conjI)
qed

text \<open>
  The claim as stated fails: after the first iteration of the scenario above the log
  holds the value 10 and \<^verbatim>\<open>forces.npy\<close> has not been written.
\<close>

theorem log_not_saved_during_loop_counterexample:
  "initial_state stub_setup [10, 1, 1 / 100] None = Inr (stub_state 10 [] [1, 1 / 100] 1)
   \<and> outer_iteration stub_setup (stub_state 10 [] [1, 1 / 100] 1)
       = Inr (None, stub_state 1 [10] [1 / 100] 3)
   \<and> force_evolution (stub_state 1 [10] [1 / 100] 3) = [10]
   \<and> forces_npy (stub_state 1 [10] [1 / 100] 3) = None
   \<and> forces_npy (stub_state 1 [10] [1 / 100] 3)
       \<noteq> Some (force_evolution (stub_state 1 [10] [1 / 100] 3))"
proof -
  note it = stub_first_iteration
  have "force_evolution (stub_state 1 [10] [1 / 100] 3) = [10]"
    "forces_npy (stub_state 1 [10] [1 / 100] 3) = None"
    "forces_npy (stub_state 1 [10] [1 / 100] 3)
       \<noteq> Some (force_evolution (stub_state 1 [10] [1 / 100] 3))"
    by (simp_all add: stub_state_def)
  with stub_initial[of 10 "[1, 1 / 100]"] it show ?thesis by (intro conjI)
qed

subsection \<open>The far-field displacements\<close>

lemma arctan2_bounds: "- pi < arctan2 y x" "arctan2 y x \<le> pi"
  using Arg_bounded[of "Complex x y"] by (simp_all add: arctan2_def)

lemma arctan2_polar:
  "x = sqrt (x\<^sup>2 + y\<^sup>2) * cos (arctan2 y x)" "y = sqrt (x\<^sup>2 + y\<^sup>2) * sin (arctan2 y x)"
proof -
  have n: "cmod (Complex x y) = sqrt (x\<^sup>2 + y\<^sup>2)" by (simp add: cmod_def)
  show "x = sqrt (x\<^sup>2 + y\<^sup>2) * cos (arctan2 y x)"
  proof (cases "Complex x y = 0")
    case True
    then show ?thesis by (simp add: complex_eq_iff)
  next
    case False
    then have "cmod (Complex x y) \<noteq> 0" by simp
    with cos_Arg[OF False] show ?thesis by (simp add: arctan2_def n)
  qed
  show "y = sqrt (x\<^sup>2 + y\<^sup>2) * sin (arctan2 y x)"
  proof (cases "Complex x y = 0")
    case True
    then show ?thesis by (simp add: complex_eq_iff)
  next
    case False
    then have "cmod (Complex x y) \<noteq> 0" by simp
    with sin_Arg[OF False] show ?thesis by (simp add: arctan2_def n)
  qed
qed

lemma py_mod_2pi:
  assumes "- pi < p" "p \<le> pi"
  shows "py_mod p (2 * pi) = (if p < 0 then p + 2 * pi else p)"
proof (cases "p < 0")
  case True
  have "\<lfloor>p / (2 * pi)\<rfloor> = - 1"
  proof (rule floor_unique)
    show "of_int (- 1) \<le> p / (2 * pi)"
      using assms pi_gt_zero by (simp add: le_divide_eq)
    show "p / (2 * pi) < of_int (- 1) + 1"
      using True pi_gt_zero by (simp add: divide_less_0_iff)
  qed
  then show ?thesis using True by (simp add: py_mod_def)
next
  case False
  have "\<lfloor>p / (2 * pi)\<rfloor> = 0"
  proof (rule floor_unique)
    show "of_int 0 \<le> p / (2 * pi)" using False pi_gt_zero by simp
    show "p / (2 * pi) < of_int 0 + 1"
      using assms pi_gt_zero by (simp add: divide_less_eq)
  qed
  then show ?thesis using False by (simp add: py_mod_def)
qed

lemma wrapped_angle:
  "(if \<bar>arctan2 y x\<bar> > 1 / 10 ^ 8 then py_mod (arctan2 y x) (2 * pi) else 0) = spec_angle x y"
  using py_mod_2pi[OF arctan2_bounds, of y x] by (simp add: spec_angle_def Let_def)

lemma spec_angle_range: "0 \<le> spec_angle dm dn" "spec_angle dm dn < 2 * pi"
  using arctan2_bounds[of dn dm] pi_gt_zero
  by (auto simp: spec_angle_def Let_def)

lemma far_field_row_ok:
  assumes "i < length grid" "i < length f"
  shows "far_field_row G_largeR i grid GEn phi_R_grid N a0 V t_mag f atom_ff u_ff
    = Inr (vsub u_ff (dot3 (G_largeR GEn phi_R_grid
        (a0 * sqrt ((atom_m (grid ! i) - atom_m atom_ff)\<^sup>2 + (atom_n (grid ! i) - atom_n atom_ff)\<^sup>2))
        (spec_angle (atom_m (grid ! i) - atom_m atom_ff) (atom_n (grid ! i) - atom_n atom_ff))
        N a0 V t_mag) (f ! i)))"
  using assms unfolding far_field_row_def Let_def wrapped_angle by simp

lemma setBC_loop_sub:
  assumes "\<And>a v. body a v = Inr (vsub v (h a))"
    and "distinct (map snd ps)" and "\<forall>k\<in>set (map snd ps). k < length u"
  shows "\<exists>u'. setBC_loop body ps u = Inr u' \<and> length u' = length u
    \<and> (\<forall>(a, k)\<in>set ps. u' ! k = vsub (u ! k) (h a))
    \<and> (\<forall>k<length u. k \<notin> snd ` set ps \<longrightarrow> u' ! k = u ! k)"
  using assms(2,3)
proof (induction ps arbitrary: u)
  case Nil
  then show ?case by simp
next
  case (Cons p ps)
  obtain a k where p: "p = (a, k)" by (cases p)
  from Cons.prems have d: "distinct (map snd ps)" and kn: "k \<notin> snd ` set ps"
    and k: "k < length u" and b: "\<forall>k'\<in>set (map snd ps). k' < length (u[k := vsub (u ! k) (h a)])"
    by (auto simp: p)
  from Cons.IH[OF d b] obtain u' where
    r: "setBC_loop body ps (u[k := vsub (u ! k) (h a)]) = Inr u'"
    and l: "length u' = length u"
    and s: "\<forall>(a', k')\<in>set ps. u' ! k' = vsub (u[k := vsub (u ! k) (h a)] ! k') (h a')"
    and o: "\<forall>k'<length u. k' \<notin> snd ` set ps \<longrightarrow> u' ! k' = u[k := vsub (u ! k) (h a)] ! k'"
    by auto
  have 1: "setBC_loop body (p # ps) u = Inr u'" by (simp add: p assms(1) r)
  have 2: "\<forall>(a', k')\<in>set (p # ps). u' ! k' = vsub (u ! k') (h a')"
  proof (clarify)
    fix a' k' assume m: "(a', k') \<in> set (p # ps)"
    show "u' ! k' = vsub (u ! k') (h a')"
    proof (cases "(a', k') = (a, k)")
      case True
      then show ?thesis using o k kn by simp
    next
      case False
      with m have in_ps: "(a', k') \<in> set ps" by (auto simp: p)
      then have "k' \<noteq> k" using kn by force
      with s in_ps show ?thesis by auto
    qed
  qed
  have 3: "\<forall>k'<length u. k' \<notin> snd ` set (p # ps) \<longrightarrow> u' ! k' = u ! k'"
    using o by (auto simp: p)
  from 1 l 2 3 show ?case by blast
qed

lemma zip_drop_upt:
  assumes "length grid = size_all"
  shows "zip (drop size_in grid) [size_in..<size_all] = map (\<lambda>k. (grid ! k, k)) [size_in..<size_all]"
  using assms by (intro nth_equalityI) (simp_all add: add.commute)

lemma vsub_zero: "vsub (0, 0, 0) x = vneg x"
  by (cases x) simp

lemma setBC_rows:
  assumes i: "i < length grid" "i < length f" and len: "length grid = size_all"
  shows "\<exists>u. setBC G_largeR i grid size_in size_all GEn phi_R_grid N a0 V t_mag f = Inr u
    \<and> length u = size_all
    \<and> (\<forall>k<size_all. u ! k =
          (if k < size_in then (0, 0, 0)
           else vneg (dot3 (G_largeR GEn phi_R_grid
             (a0 * sqrt ((atom_m (grid ! i) - atom_m (grid ! k))\<^sup>2
                        + (atom_n (grid ! i) - atom_n (grid ! k))\<^sup>2))
             (spec_angle (atom_m (grid ! i) - atom_m (grid ! k))
                         (atom_n (grid ! i) - atom_n (grid ! k)))
             N a0 V t_mag) (f ! i))))"
proof -
  define h where "h a = dot3 (G_largeR GEn phi_R_grid
        (a0 * sqrt ((atom_m (grid ! i) - atom_m a)\<^sup>2 + (atom_n (grid ! i) - atom_n a)\<^sup>2))
        (spec_angle (atom_m (grid ! i) - atom_m a) (atom_n (grid ! i) - atom_n a))
        N a0 V t_mag) (f ! i)" for a :: atominfo
  define ps where "ps = zip (drop size_in grid) [size_in..<size_all]"
  define u0 :: "vec3 list" where "u0 = replicate size_all (0, 0, 0)"
  have ps: "ps = map (\<lambda>k. (grid ! k, k)) [size_in..<size_all]"
    unfolding ps_def by (rule zip_drop_upt[OF len])
  have body: "far_field_row G_largeR i grid GEn phi_R_grid N a0 V t_mag f a v = Inr (vsub v (h a))"
    for a v
    unfolding h_def by (rule far_field_row_ok[OF i])
  have sn: "map snd ps = [size_in..<size_all]" by (simp add: ps comp_def)
  have d: "distinct (map snd ps)" by (simp add: sn)
  have b: "\<forall>k\<in>set (map snd ps). k < length u0" by (simp add: sn u0_def)
  from setBC_loop_sub[of "far_field_row G_largeR i grid GEn phi_R_grid N a0 V t_mag f" h ps u0,
      OF body d b]
  obtain u where r: "setBC_loop (far_field_row G_largeR i grid GEn phi_R_grid N a0 V t_mag f) ps u0 = Inr u"
    and l: "length u = length u0"
    and s: "\<forall>(a, k)\<in>set ps. u ! k = vsub (u0 ! k) (h a)"
    and o: "\<forall>k<length u0. k \<notin> snd ` set ps \<longrightarrow> u ! k = u0 ! k"
    by blast
  have run: "setBC G_largeR i grid size_in size_all GEn phi_R_grid N a0 V t_mag f = Inr u"
    using r by (simp add: setBC_def ps_def u0_def)
  have rows: "u ! k = (if k < size_in then (0, 0, 0) else vneg (h (grid ! k)))" if k: "k < size_all" for k
  proof (cases "k < size_in")
    case True
    then have "k \<notin> snd ` set ps" by (auto simp: ps)
    with o k True show ?thesis by (simp add: u0_def)
  next
    case False
    with k have "(grid ! k, k) \<in> set ps" by (simp add: ps)
    with s have "u ! k = vsub (u0 ! k) (h (grid ! k))" by blast
    with k False show ?thesis by (simp add: u0_def vsub_zero)
  qed
  from run l rows show ?thesis unfolding h_def by (auto simp: u0_def)
qed

lemma spec_angle_cases:
  "\<bar>arctan2 dn dm\<bar> \<le> 1 / 10 ^ 8 \<longrightarrow> spec_angle dm dn = 0"
  "1 / 10 ^ 8 < \<bar>arctan2 dn dm\<bar> \<longrightarrow>
     spec_angle dm dn = arctan2 dn dm \<or> spec_angle dm dn = arctan2 dn dm + 2 * pi"
  by (auto simp: spec_angle_def Let_def)

lemma arctan2_pos_axis: "0 < x \<Longrightarrow> arctan2 0 x = 0"
  unfolding arctan2_def by (rule cis_Arg_unique) (simp_all add: sgn_eq complex_eq_iff cmod_def)

text \<open>
  Claim C4. For a source atom \<open>i\<close> of the grid with a force row \<open>f ! i\<close>, and a grid of
  \<open>size_all\<close> atoms, \<^verbatim>\<open>setBC\<close> returns an array of \<open>size_all\<close> rows; every row
  below \<open>size_in\<close> is zero, and every far-field row \<open>k\<close> is
  \<open>- G_largeR(R, phi) \<cdot> f ! i\<close>, where \<open>(dm, dn)\<close> is the separation of the source from
  atom \<open>k\<close> in the \<open>(m, n)\<close> plane, \<open>R\<close> is the lattice constant times its length,
  and \<open>phi\<close> is its polar angle relative to the \<open>m\<close> axis (\<open>arctan2 dn dm\<close>, for
  which \<open>dm\<close> and \<open>dn\<close> are the length times its cosine and sine) brought into
  \<open>[0, 2\<pi>)\<close>: 0 when the angle has magnitude at most \<open>1e-8\<close>, otherwise the angle
  itself or the angle plus \<open>2\<pi>\<close>.
\<close>

theorem setBC_far_field:
  assumes i: "i < length grid" "i < length f" and len: "length grid = size_all"
  shows "\<exists>u. setBC G_largeR i grid size_in size_all GEn phi_R_grid N a0 V t_mag f = Inr u
    \<and> length u = size_all
    \<and> (\<forall>k<size_all. k < size_in \<longrightarrow> u ! k = (0, 0, 0))
    \<and> (\<forall>k<size_all. size_in \<le> k \<longrightarrow>
         (\<exists>dm dn R phi.
            dm = atom_m (grid ! i) - atom_m (grid ! k)
          \<and> dn = atom_n (grid ! i) - atom_n (grid ! k)
          \<and> R = a0 * sqrt (dm\<^sup>2 + dn\<^sup>2)
          \<and> dm = sqrt (dm\<^sup>2 + dn\<^sup>2) * cos (arctan2 dn dm)
          \<and> dn = sqrt (dm\<^sup>2 + dn\<^sup>2) * sin (arctan2 dn dm)
          \<and> phi = spec_angle dm dn \<and> 0 \<le> phi \<and> phi < 2 * pi
          \<and> (\<bar>arctan2 dn dm\<bar> \<le> 1 / 10 ^ 8 \<longrightarrow> phi = 0)
          \<and> (1 / 10 ^ 8 < \<bar>arctan2 dn dm\<bar> \<longrightarrow>
                phi = arctan2 dn dm \<or> phi = arctan2 dn dm + 2 * pi)
          \<and> u ! k = vneg (dot3 (G_largeR GEn phi_R_grid R phi N a0 V t_mag) (f ! i))))"
proof -
  from setBC_rows[OF i len, of G_largeR size_in GEn phi_R_grid N a0 V t_mag]
  obtain u where run: "setBC G_largeR i grid size_in size_all GEn phi_R_grid N a0 V t_mag f = Inr u"
    and l: "length u = size_all"
    and rows: "\<forall>k<size_all. u ! k =
          (if k < size_in then (0, 0, 0)
           else vneg (dot3 (G_largeR GEn phi_R_grid
             (a0 * sqrt ((atom_m (grid ! i) - atom_m (grid ! k))\<^sup>2
                        + (atom_n (grid ! i) - atom_n (grid ! k))\<^sup>2))
             (spec_angle (atom_m (grid ! i) - atom_m (grid ! k))
                         (atom_n (grid ! i) - atom_n (grid ! k)))
             N a0 V t_mag) (f ! i)))"
    by blast
  have near: "\<forall>k<size_all. k < size_in \<longrightarrow> u ! k = (0, 0, 0)" using rows by simp
  have far: "\<exists>dm dn R phi.
            dm = atom_m (grid ! i) - atom_m (grid ! k)
          \<and> dn = atom_n (grid ! i) - atom_n (grid ! k)
          \<and> R = a0 * sqrt (dm\<^sup>2 + dn\<^sup>2)
          \<and> dm = sqrt (dm\<^sup>2 + dn\<^sup>2) * cos (arctan2 dn dm)
          \<and> dn = sqrt (dm\<^sup>2 + dn\<^sup>2) * sin (arctan2 dn dm)
          \<and> phi = spec_angle dm dn \<and> 0 \<le> phi \<and> phi < 2 * pi
          \<and> (\<bar>arctan2 dn dm\<bar> \<le> 1 / 10 ^ 8 \<longrightarrow> phi = 0)
          \<and> (1 / 10 ^ 8 < \<bar>arctan2 dn dm\<bar> \<longrightarrow>
                phi = arctan2 dn dm \<or> phi = arctan2 dn dm + 2 * pi)
          \<and> u ! k = vneg (dot3 (G_largeR GEn phi_R_grid R phi N a0 V t_mag) (f ! i))"
    if k: "k < size_all" "size_in \<le> k" for k
  proof -
    let ?dm = "atom_m (grid ! i) - atom_m (grid ! k)"
    let ?dn = "atom_n (grid ! i) - atom_n (grid ! k)"
    have uk: "u ! k = vneg (dot3 (G_largeR GEn phi_R_grid (a0 * sqrt (?dm\<^sup>2 + ?dn\<^sup>2))
        (spec_angle ?dm ?dn) N a0 V t_mag) (f ! i))"
      using rows k by simp
    show ?thesis
      apply (rule exI[of _ ?dm])
      apply (rule exI[of _ ?dn])
      apply (rule exI[of _ "a0 * sqrt (?dm\<^sup>2 + ?dn\<^sup>2)"])
      apply (rule exI[of _ "spec_angle ?dm ?dn"])
      apply (intro conjI)
                apply (rule refl)
               apply (rule refl)
              apply (rule refl)
             apply (rule arctan2_polar(1))
            apply (rule arctan2_polar(2))
           apply (rule refl)
          apply (rule spec_angle_range(1))
         apply (rule spec_angle_range(2))
        apply (rule spec_angle_cases(1))
       apply (rule spec_angle_cases(2))
      apply (rule uk)
      done
  qed
  show ?thesis
    apply (rule exI[of _ u])
    apply (intro conjI allI impI)
       apply (rule run)
      apply (rule l)
     apply (use near in blast)
    apply (rule far)
     apply assumption+
    done
qed

theorem setBC_far_field_witness:
  "(0::nat) < length ex_atoms \<and> (0::nat) < length [(1::real, 0::real, 0::real)]
   \<and> length ex_atoms = 2
   \<and> (\<exists>u. setBC ex_G_largeR 0 ex_atoms 1 2 () () 256 2 1 1 [(1, 0, 0)] = Inr u
         \<and> length u = 2 \<and> u ! 0 = (0, 0, 0) \<and> u ! 1 = (- 2, 0, 0))"
proof -
  have h: "(0::nat) < length ex_atoms" "(0::nat) < length [(1::real, 0::real, 0::real)]"
    "length ex_atoms = 2"
    by (simp_all add: ex_atoms_def)
  from setBC_far_field[OF h, of ex_G_largeR 1 "()" "()" 256 2 1 1]
  obtain u where run: "setBC ex_G_largeR 0 ex_atoms 1 2 () () 256 2 1 1 [(1, 0, 0)] = Inr u"
    and l: "length u = 2"
    and near: "\<forall>k<2. k < 1 \<longrightarrow> u ! k = (0, 0, 0)"
    and far: "\<forall>k<2. 1 \<le> k \<longrightarrow>
         (\<exists>dm dn R phi.
            dm = atom_m (ex_atoms ! 0) - atom_m (ex_atoms ! k)
          \<and> dn = atom_n (ex_atoms ! 0) - atom_n (ex_atoms ! k)
          \<and> R = 2 * sqrt (dm\<^sup>2 + dn\<^sup>2)
          \<and> dm = sqrt (dm\<^sup>2 + dn\<^sup>2) * cos (arctan2 dn dm)
          \<and> dn = sqrt (dm\<^sup>2 + dn\<^sup>2) * sin (arctan2 dn dm)
          \<and> phi = spec_angle dm dn \<and> 0 \<le> phi \<and> phi < 2 * pi
          \<and> (\<bar>arctan2 dn dm\<bar> \<le> 1 / 10 ^ 8 \<longrightarrow> phi = 0)
          \<and> (1 / 10 ^ 8 < \<bar>arctan2 dn dm\<bar> \<longrightarrow>
                phi = arctan2 dn dm \<or> phi = arctan2 dn dm + 2 * pi)
          \<and> u ! k = vneg (dot3 (ex_G_largeR () () R phi 256 2 1 1) ([(1, 0, 0)] ! 0)))"
    by (elim exE conjE)
  from near have u0: "u ! 0 = (0, 0, 0)" by simp
  have k1: "(1::nat) < 2" "(1::nat) \<le> 1" by simp_all
  from far[rule_format, OF k1] obtain dm dn R phi where
        dm: "dm = atom_m (ex_atoms ! 0) - atom_m (ex_atoms ! 1)"
    and dn: "dn = atom_n (ex_atoms ! 0) - atom_n (ex_atoms ! 1)"
    and R: "R = 2 * sqrt (dm\<^sup>2 + dn\<^sup>2)"
    and p: "\<bar>arctan2 dn dm\<bar> \<le> 1 / 10 ^ 8 \<longrightarrow> phi = 0"
    and u1: "u ! 1 = vneg (dot3 (ex_G_largeR () () R phi 256 2 1 1) ([(1, 0, 0)] ! 0))"
    by (elim exE conjE)
  have dm1: "dm = 1" and dn0: "dn = 0" by (simp_all add: dm dn ex_atoms_def)
  from p have "phi = 0" by (simp add: dm1 dn0 arctan2_pos_axis)
  moreover have "R = 2" by (simp add: R dm1 dn0)
  ultimately have "u ! 1 = (- 2, 0, 0)" using u1 by (simp add: ex_G_largeR_def)
  with run l u0 have "\<exists>u. setBC ex_G_largeR 0 ex_atoms 1 2 () () 256 2 1 1 [(1, 0, 0)] = Inr u
         \<and> length u = 2 \<and> u ! 0 = (0, 0, 0) \<and> u ! 1 = (- 2, 0, 0)"
    by (intro exI[of _ u] conjI)
  with h show ?thesis by (intro conjI)
qed

subsection \<open>The assembly loop\<close>

lemma column_step_first:
  "column_step E jmin jmin 0 st = Inr st' \<longleftrightarrow>
     (\<exists>col conv. lgf_column E jmin 0 = Inr (col, conv)
        \<and> st' = st\<lparr>lgf_G := Some (Arr1 col),
                    lgf_log := lgf_log st @ [Debug_solve conv, Info_atom jmin 0]\<rparr>)"
  by (auto simp: column_step_def split: sum.splits prod.splits)

lemma column_step_next:
  assumes "\<not> (j = jmin \<and> d = 0)" "lgf_G st = Some g"
  shows "column_step E jmin j d st = Inr st' \<longleftrightarrow>
     (\<exists>col conv g'. lgf_column E j d = Inr (col, conv) \<and> column_stack g col = Inr g'
        \<and> st' = st\<lparr>lgf_G := Some g',
                    lgf_log := lgf_log st @ [Debug_solve conv, Info_atom j d]\<rparr>)"
  using assms by (auto simp: column_step_def split: sum.splits prod.splits)

lemma atom_columns_Inr:
  "atom_columns E j = Inr cvs \<longleftrightarrow>
     (\<exists>a b c. lgf_column E j 0 = Inr a \<and> lgf_column E j 1 = Inr b \<and> lgf_column E j 2 = Inr c
        \<and> cvs = [a, b, c])"
  by (auto simp: atom_columns_def split: sum.splits)

lemma atom_step_first:
  "atom_step E jmin jmin st = Inr st' \<longleftrightarrow>
     (\<exists>cvs. atom_columns E jmin = Inr cvs
        \<and> (\<forall>c\<in>set (map fst cvs). length c = length (fst (hd cvs)))
        \<and> st' = \<lparr>lgf_G = Some (Arr2 (length (fst (hd cvs))) (map fst cvs)),
                  lgf_log = lgf_log st @ atom_log jmin cvs,
                  lgf_file = Some (Arr2 (length (fst (hd cvs))) (map fst cvs))\<rparr>)"
  (is "?L \<longleftrightarrow> ?R")
proof
  assume ?L
  then obtain st0 st1 st2 where
    s0: "column_step E jmin jmin 0 st = Inr st0" and
    s1: "column_step E jmin jmin 1 st0 = Inr st1" and
    s2: "column_step E jmin jmin 2 st1 = Inr st2" and
    e: "st' = st2\<lparr>lgf_file := lgf_G st2\<rparr>"
    by (auto simp: atom_step_def split: sum.splits)
  from s0 obtain c0 v0 where c0: "lgf_column E jmin 0 = Inr (c0, v0)"
    and st0: "st0 = st\<lparr>lgf_G := Some (Arr1 c0),
                    lgf_log := lgf_log st @ [Debug_solve v0, Info_atom jmin 0]\<rparr>"
    unfolding column_step_first by blast
  have g0: "lgf_G st0 = Some (Arr1 c0)" by (simp add: st0)
  have n1: "\<not> (jmin = jmin \<and> (1::nat) = 0)" and n2: "\<not> (jmin = jmin \<and> (2::nat) = 0)"
    by simp_all
  from s1[unfolded column_step_next[OF n1 g0]] obtain c1 v1 g1 where c1: "lgf_column E jmin 1 = Inr (c1, v1)"
    and k1: "column_stack (Arr1 c0) c1 = Inr g1"
    and st1: "st1 = st0\<lparr>lgf_G := Some g1,
                    lgf_log := lgf_log st0 @ [Debug_solve v1, Info_atom jmin 1]\<rparr>"
    by blast
  from k1 have l1: "length c1 = length c0" and g1: "g1 = Arr2 (length c0) [c0, c1]"
    by (auto split: if_splits)
  have g1': "lgf_G st1 = Some (Arr2 (length c0) [c0, c1])" by (simp add: st1 g1)
  from s2[unfolded column_step_next[OF n2 g1']] obtain c2 v2 g2 where c2: "lgf_column E jmin 2 = Inr (c2, v2)"
    and k2: "column_stack (Arr2 (length c0) [c0, c1]) c2 = Inr g2"
    and st2: "st2 = st1\<lparr>lgf_G := Some g2,
                    lgf_log := lgf_log st1 @ [Debug_solve v2, Info_atom jmin 2]\<rparr>"
    by blast
  from k2 have l2: "length c2 = length c0" and g2: "g2 = Arr2 (length c0) [c0, c1, c2]"
    by (auto split: if_splits)
  have "atom_columns E jmin = Inr [(c0, v0), (c1, v1), (c2, v2)]"
    unfolding atom_columns_def c0 c1 c2 by simp
  moreover have "st' = \<lparr>lgf_G = Some (Arr2 (length c0) [c0, c1, c2]),
                  lgf_log = lgf_log st @ atom_log jmin [(c0, v0), (c1, v1), (c2, v2)],
                  lgf_file = Some (Arr2 (length c0) [c0, c1, c2])\<rparr>"
    by (simp add: e st2 st1 st0 g2 atom_log_def)
  ultimately show ?R using l1 l2 by (intro exI[of _ "[(c0, v0), (c1, v1), (c2, v2)]"]) simp
next
  assume ?R
  then obtain cvs where ac: "atom_columns E jmin = Inr cvs"
    and len: "\<forall>c\<in>set (map fst cvs). length c = length (fst (hd cvs))"
    and e: "st' = \<lparr>lgf_G = Some (Arr2 (length (fst (hd cvs))) (map fst cvs)),
                  lgf_log = lgf_log st @ atom_log jmin cvs,
                  lgf_file = Some (Arr2 (length (fst (hd cvs))) (map fst cvs))\<rparr>"
    by blast
  from ac obtain a b c where c0: "lgf_column E jmin 0 = Inr a" and c1: "lgf_column E jmin 1 = Inr b"
    and c2: "lgf_column E jmin 2 = Inr c" and cvs: "cvs = [a, b, c]"
    unfolding atom_columns_Inr by blast
  from len have l: "length (fst b) = length (fst a)" "length (fst c) = length (fst a)"
    by (simp_all add: cvs)
  show ?L
    using l by (cases a; cases b; cases c)
      (simp add: atom_step_def column_step_def c0 c1 c2 e cvs atom_log_def del: One_nat_def)
qed

lemma column_stack_Arr2:
  "column_stack (Arr2 n cs) col = Inr g \<longleftrightarrow> length col = n \<and> g = Arr2 n (cs @ [col])"
  by auto

lemma atom_step_next:
  assumes j: "j \<noteq> jmin" and G: "lgf_G st = Some (Arr2 n cs)"
  shows "atom_step E jmin j st = Inr st' \<longleftrightarrow>
     (\<exists>cvs. atom_columns E j = Inr cvs
        \<and> (\<forall>c\<in>set (map fst cvs). length c = n)
        \<and> st' = \<lparr>lgf_G = Some (Arr2 n (cs @ map fst cvs)),
                  lgf_log = lgf_log st @ atom_log j cvs,
                  lgf_file = Some (Arr2 n (cs @ map fst cvs))\<rparr>)"
  (is "?L \<longleftrightarrow> ?R")
proof
  have n: "\<not> (j = jmin \<and> d = 0)" for d :: nat using j by simp
  assume ?L
  then obtain st0 st1 st2 where
    s0: "column_step E jmin j 0 st = Inr st0" and
    s1: "column_step E jmin j 1 st0 = Inr st1" and
    s2: "column_step E jmin j 2 st1 = Inr st2" and
    e: "st' = st2\<lparr>lgf_file := lgf_G st2\<rparr>"
    by (auto simp: atom_step_def split: sum.splits)
  from s0[unfolded column_step_next[OF n G] column_stack_Arr2]
  obtain c0 v0 where c0: "lgf_column E j 0 = Inr (c0, v0)" and l0: "length c0 = n"
    and st0: "st0 = st\<lparr>lgf_G := Some (Arr2 n (cs @ [c0])),
                    lgf_log := lgf_log st @ [Debug_solve v0, Info_atom j 0]\<rparr>"
    by blast
  have g0: "lgf_G st0 = Some (Arr2 n (cs @ [c0]))" by (simp add: st0)
  from s1[unfolded column_step_next[OF n g0] column_stack_Arr2]
  obtain c1 v1 where c1: "lgf_column E j 1 = Inr (c1, v1)" and l1: "length c1 = n"
    and st1: "st1 = st0\<lparr>lgf_G := Some (Arr2 n ((cs @ [c0]) @ [c1])),
                    lgf_log := lgf_log st0 @ [Debug_solve v1, Info_atom j 1]\<rparr>"
    by blast
  have g1: "lgf_G st1 = Some (Arr2 n ((cs @ [c0]) @ [c1]))" by (simp add: st1)
  from s2[unfolded column_step_next[OF n g1] column_stack_Arr2]
  obtain c2 v2 where c2: "lgf_column E j 2 = Inr (c2, v2)" and l2: "length c2 = n"
    and st2: "st2 = st1\<lparr>lgf_G := Some (Arr2 n (((cs @ [c0]) @ [c1]) @ [c2])),
                    lgf_log := lgf_log st1 @ [Debug_solve v2, Info_atom j 2]\<rparr>"
    by blast
  have "atom_columns E j = Inr [(c0, v0), (c1, v1), (c2, v2)]"
    unfolding atom_columns_def c0 c1 c2 by simp
  moreover have "st' = \<lparr>lgf_G = Some (Arr2 n (cs @ map fst [(c0, v0), (c1, v1), (c2, v2)])),
                  lgf_log = lgf_log st @ atom_log j [(c0, v0), (c1, v1), (c2, v2)],
                  lgf_file = Some (Arr2 n (cs @ map fst [(c0, v0), (c1, v1), (c2, v2)]))\<rparr>"
    by (simp add: e st2 st1 st0 atom_log_def)
  ultimately show ?R using l0 l1 l2 by (intro exI[of _ "[(c0, v0), (c1, v1), (c2, v2)]"]) simp
next
  assume ?R
  then obtain cvs where ac: "atom_columns E j = Inr cvs"
    and len: "\<forall>c\<in>set (map fst cvs). length c = n"
    and e: "st' = \<lparr>lgf_G = Some (Arr2 n (cs @ map fst cvs)),
                  lgf_log = lgf_log st @ atom_log j cvs,
                  lgf_file = Some (Arr2 n (cs @ map fst cvs))\<rparr>"
    by blast
  from ac obtain a b c where c0: "lgf_column E j 0 = Inr a" and c1: "lgf_column E j 1 = Inr b"
    and c2: "lgf_column E j 2 = Inr c" and cvs: "cvs = [a, b, c]"
    unfolding atom_columns_Inr by blast
  from len have l: "length (fst a) = n" "length (fst b) = n" "length (fst c) = n"
    by (simp_all add: cvs)
  show ?L
    using l j G by (cases a; cases b; cases c)
      (simp add: atom_step_def column_step_def c0 c1 c2 e cvs atom_log_def del: One_nat_def)
qed

lemma atom_columns_length: "atom_columns E j = Inr cvs \<Longrightarrow> length cvs = 3"
  by (auto simp: atom_columns_Inr)

lemma assembly_loop_next:
  assumes "jmin \<notin> set js" and "lgf_G st = Some (Arr2 n cs)"
  shows "assembly_loop E jmin js st = Inr st' \<longleftrightarrow>
     (\<exists>cvss. map (atom_columns E) js = map Inr cvss
        \<and> (\<forall>cvs\<in>set cvss. \<forall>c\<in>set (map fst cvs). length c = n)
        \<and> st' = \<lparr>lgf_G = Some (Arr2 n (cs @ concat (map (map fst) cvss))),
                  lgf_log = lgf_log st @ batch_log js cvss,
                  lgf_file = (if js = [] then lgf_file st
                              else Some (Arr2 n (cs @ concat (map (map fst) cvss))))\<rparr>)"
  using assms
proof (induction js arbitrary: st cs)
  case Nil
  then show ?case by (auto simp: batch_log_def)
next
  case (Cons j js)
  from Cons.prems have j: "j \<noteq> jmin" and js: "jmin \<notin> set js" by auto
  note G = Cons.prems(2)
  show ?case (is "?L \<longleftrightarrow> ?R")
  proof
    assume ?L
    then obtain st1 where a: "atom_step E jmin j st = Inr st1"
      and r: "assembly_loop E jmin js st1 = Inr st'"
      by (auto split: sum.splits)
    from a[unfolded atom_step_next[OF j G]] obtain cvs where
      ac: "atom_columns E j = Inr cvs" and len: "\<forall>c\<in>set (map fst cvs). length c = n"
      and st1: "st1 = \<lparr>lgf_G = Some (Arr2 n (cs @ map fst cvs)),
                  lgf_log = lgf_log st @ atom_log j cvs,
                  lgf_file = Some (Arr2 n (cs @ map fst cvs))\<rparr>"
      by blast
    have G1: "lgf_G st1 = Some (Arr2 n (cs @ map fst cvs))" by (simp add: st1)
    from r[unfolded Cons.IH[OF js G1]] obtain cvss where
      m: "map (atom_columns E) js = map Inr cvss"
      and lens: "\<forall>cvs\<in>set cvss. \<forall>c\<in>set (map fst cvs). length c = n"
      and st': "st' = \<lparr>lgf_G = Some (Arr2 n ((cs @ map fst cvs) @ concat (map (map fst) cvss))),
                  lgf_log = lgf_log st1 @ batch_log js cvss,
                  lgf_file = (if js = [] then lgf_file st1
                     else Some (Arr2 n ((cs @ map fst cvs) @ concat (map (map fst) cvss))))\<rparr>"
      by blast
    from m have e: "js = [] \<Longrightarrow> cvss = []" by auto
    show ?R
      apply (rule exI[of _ "cvs # cvss"])
      using ac m len lens e by (auto simp: st' st1 batch_log_def)
  next
    assume ?R
    then obtain cvss0 where m0: "map (atom_columns E) (j # js) = map Inr cvss0"
      and lens0: "\<forall>cvs\<in>set cvss0. \<forall>c\<in>set (map fst cvs). length c = n"
      and st'0: "st' = \<lparr>lgf_G = Some (Arr2 n (cs @ concat (map (map fst) cvss0))),
                  lgf_log = lgf_log st @ batch_log (j # js) cvss0,
                  lgf_file = (if j # js = [] then lgf_file st
                              else Some (Arr2 n (cs @ concat (map (map fst) cvss0))))\<rparr>"
      by (elim exE conjE)
    from st'0 have st': "st' = \<lparr>lgf_G = Some (Arr2 n (cs @ concat (map (map fst) cvss0))),
                  lgf_log = lgf_log st @ batch_log (j # js) cvss0,
                  lgf_file = Some (Arr2 n (cs @ concat (map (map fst) cvss0)))\<rparr>"
      by simp
    from m0 obtain cvs cvss where c: "cvss0 = cvs # cvss" and ac: "atom_columns E j = Inr cvs"
      and m: "map (atom_columns E) js = map Inr cvss"
      by (cases cvss0) auto
    define st1 where "st1 = \<lparr>lgf_G = Some (Arr2 n (cs @ map fst cvs)),
                  lgf_log = lgf_log st @ atom_log j cvs,
                  lgf_file = Some (Arr2 n (cs @ map fst cvs))\<rparr>"
    have a: "atom_step E jmin j st = Inr st1"
      unfolding atom_step_next[OF j G] using ac lens0 by (auto simp: c st1_def)
    have G1: "lgf_G st1 = Some (Arr2 n (cs @ map fst cvs))" by (simp add: st1_def)
    from m have e: "js = [] \<Longrightarrow> cvss = []" by auto
    have "assembly_loop E jmin js st1 = Inr st'"
      unfolding Cons.IH[OF js G1]
      apply (rule exI[of _ cvss])
      using m lens0 e by (auto simp: c st' st1_def batch_log_def)
    with a show ?L by simp
  qed
qed

lemma assembly_loop_batch:
  assumes js: "jmin \<notin> set js"
  shows "assembly_loop E jmin (jmin # js) st0 = Inr st \<longleftrightarrow>
     (\<exists>cvss n. map (atom_columns E) (jmin # js) = map Inr cvss
        \<and> (\<forall>cvs\<in>set cvss. \<forall>c\<in>set (map fst cvs). length c = n)
        \<and> st = \<lparr>lgf_G = Some (Arr2 n (concat (map (map fst) cvss))),
                 lgf_log = lgf_log st0 @ batch_log (jmin # js) cvss,
                 lgf_file = Some (Arr2 n (concat (map (map fst) cvss)))\<rparr>)"
  (is "?L \<longleftrightarrow> ?R")
proof
  assume ?L
  then obtain st1 where a: "atom_step E jmin jmin st0 = Inr st1"
    and r: "assembly_loop E jmin js st1 = Inr st"
    by (auto split: sum.splits)
  from a[unfolded atom_step_first] obtain cvs where
    ac: "atom_columns E jmin = Inr cvs"
    and len: "\<forall>c\<in>set (map fst cvs). length c = length (fst (hd cvs))"
    and st1: "st1 = \<lparr>lgf_G = Some (Arr2 (length (fst (hd cvs))) (map fst cvs)),
                  lgf_log = lgf_log st0 @ atom_log jmin cvs,
                  lgf_file = Some (Arr2 (length (fst (hd cvs))) (map fst cvs))\<rparr>"
    by blast
  define n where "n = length (fst (hd cvs))"
  have G1: "lgf_G st1 = Some (Arr2 n ([] @ map fst cvs))" by (simp add: st1 n_def)
  from r[unfolded assembly_loop_next[OF js G1]] obtain cvss where
    m: "map (atom_columns E) js = map Inr cvss"
    and lens: "\<forall>cvs\<in>set cvss. \<forall>c\<in>set (map fst cvs). length c = n"
    and st: "st = \<lparr>lgf_G = Some (Arr2 n (([] @ map fst cvs) @ concat (map (map fst) cvss))),
                  lgf_log = lgf_log st1 @ batch_log js cvss,
                  lgf_file = (if js = [] then lgf_file st1
                     else Some (Arr2 n (([] @ map fst cvs) @ concat (map (map fst) cvss))))\<rparr>"
    by blast
  from m have e: "js = [] \<Longrightarrow> cvss = []" by auto
  show ?R
    apply (rule exI[of _ "cvs # cvss"])
    apply (rule exI[of _ n])
    using ac m len lens e by (auto simp: st st1 batch_log_def n_def)
next
  assume ?R
  then obtain cvss0 n where m0: "map (atom_columns E) (jmin # js) = map Inr cvss0"
    and lens0: "\<forall>cvs\<in>set cvss0. \<forall>c\<in>set (map fst cvs). length c = n"
    and st: "st = \<lparr>lgf_G = Some (Arr2 n (concat (map (map fst) cvss0))),
                 lgf_log = lgf_log st0 @ batch_log (jmin # js) cvss0,
                 lgf_file = Some (Arr2 n (concat (map (map fst) cvss0)))\<rparr>"
    by (elim exE conjE)
  from m0 obtain cvs cvss where c: "cvss0 = cvs # cvss" and ac: "atom_columns E jmin = Inr cvs"
    and m: "map (atom_columns E) js = map Inr cvss"
    by (cases cvss0) auto
  from atom_columns_length[OF ac] obtain x y z where cvs: "cvs = [x, y, z]"
    by (auto simp: length_Suc_conv numeral_3_eq_3)
  have n: "length (fst (hd cvs)) = n" using lens0 by (simp add: c cvs)
  define st1 where "st1 = \<lparr>lgf_G = Some (Arr2 n (map fst cvs)),
                  lgf_log = lgf_log st0 @ atom_log jmin cvs,
                  lgf_file = Some (Arr2 n (map fst cvs))\<rparr>"
  have a: "atom_step E jmin jmin st0 = Inr st1"
    unfolding atom_step_first
    apply (rule exI[of _ cvs])
    using ac lens0 n by (auto simp: c st1_def)
  have G1: "lgf_G st1 = Some (Arr2 n ([] @ map fst cvs))" by (simp add: st1_def)
  from m have e: "js = [] \<Longrightarrow> cvss = []" by auto
  have "assembly_loop E jmin js st1 = Inr st"
    unfolding assembly_loop_next[OF js G1]
    apply (rule exI[of _ cvss])
    using m lens0 e by (auto simp: c st st1_def batch_log_def)
  with a show ?L by simp
qed

lemma run_batch_iff:
  assumes "jmin \<le> jmax"
  shows "run_batch E disk jmin jmax = Inr st \<longleftrightarrow>
     (\<exists>cvss n. map (atom_columns E) [jmin..<Suc jmax] = map Inr cvss
        \<and> (\<forall>cvs\<in>set cvss. \<forall>c\<in>set (map fst cvs). length c = n)
        \<and> st = \<lparr>lgf_G = Some (Arr2 n (concat (map (map fst) cvss))),
                 lgf_log = batch_log [jmin..<Suc jmax] cvss,
                 lgf_file = Some (Arr2 n (concat (map (map fst) cvss)))\<rparr>)"
proof -
  have u: "[jmin..<Suc jmax] = jmin # [Suc jmin..<Suc jmax]"
    using assms by (simp add: upt_conv_Cons)
  have ni: "jmin \<notin> set [Suc jmin..<Suc jmax]" by simp
  show ?thesis
    unfolding run_batch_def u assembly_loop_batch[OF ni] by simp
qed

lemma assembly_loop_append:
  "assembly_loop E jmin (xs @ ys) st =
     (case assembly_loop E jmin xs st of
        Inl err \<Rightarrow> Inl err
      | Inr st1 \<Rightarrow> assembly_loop E jmin ys st1)"
  by (induction xs arbitrary: st) (auto split: sum.splits)

lemma map_Inr_append:
  "map f (xs @ ys) = map Inr cs \<longleftrightarrow>
     (\<exists>c1 c2. cs = c1 @ c2 \<and> map f xs = map Inr c1 \<and> map f ys = map Inr c2)"
  by (auto simp: append_eq_map_conv map_eq_append_conv)

lemma batch_log_append:
  "length xs = length c1 \<Longrightarrow> batch_log (xs @ ys) (c1 @ c2) = batch_log xs c1 @ batch_log ys c2"
  by (simp add: batch_log_def)

lemma pairs_columns:
  "map (atom_columns E) js = map Inr cvss \<Longrightarrow>
     map (\<lambda>(j, d). lgf_column E j d) (pairs_of js) = map Inr (concat cvss)"
proof (induction js arbitrary: cvss)
  case Nil
  then show ?case by (simp add: pairs_of_def)
next
  case (Cons j js)
  then obtain cvs rest where c: "cvss = cvs # rest" and a: "atom_columns E j = Inr cvs"
    and m: "map (atom_columns E) js = map Inr rest"
    by (cases cvss) auto
  from a obtain x y z where "lgf_column E j 0 = Inr x" "lgf_column E j 1 = Inr y"
    "lgf_column E j 2 = Inr z" "cvs = [x, y, z]"
    unfolding atom_columns_Inr by blast
  with Cons.IH[OF m] show ?case by (simp add: pairs_of_def c del: One_nat_def)
qed

lemma upt_split: "jmin \<le> k \<Longrightarrow> k < jmax \<Longrightarrow>
    [jmin..<Suc jmax] = [jmin..<Suc k] @ [Suc k..<Suc jmax]"
  using upt_add_eq_append[of jmin "Suc k" "jmax - k"] by simp

text \<open>
  The number of columns a run saves, and what a run started at atom \<open>k + 1\<close> leaves in
  the file: \<open>G\<close> is bound anew at the first column of a run and the file is never read, so
  the file holds the columns of the atoms \<open>k + 1, ..., jmax\<close> only.
\<close>

lemma columns_count:
  "map (atom_columns E) js = map Inr cvss \<Longrightarrow>
     length (concat (map (map fst) cvss)) = 3 * length js"
proof (induction js arbitrary: cvss)
  case Nil
  then show ?case by simp
next
  case (Cons j js)
  then obtain cvs rest where c: "cvss = cvs # rest" and a: "atom_columns E j = Inr cvs"
    and m: "map (atom_columns E) js = map Inr rest"
    by (cases cvss) auto
  from atom_columns_length[OF a] Cons.IH[OF m] show ?case by (simp add: c)
qed

lemma restart_overwrites:
  assumes k: "jmin \<le> k" "k < jmax"
    and run: "run_batch E disk jmin jmax = Inr st"
    and r2: "run_batch E disk2 (Suc k) jmax = Inr st2"
  shows "\<exists>n cols. lgf_file st = Some (Arr2 n cols) \<and> length cols = 3 * (Suc jmax - jmin)
       \<and> lgf_file st2 = Some (Arr2 n (drop (3 * (Suc k - jmin)) cols))
       \<and> lgf_G st2 = lgf_file st2"
proof -
  have le: "jmin \<le> jmax" "Suc k \<le> jmax" using k by simp_all
  note sp = upt_split[OF k]
  from run[unfolded run_batch_iff[OF le(1)]] obtain cvss n where
    m: "map (atom_columns E) [jmin..<Suc jmax] = map Inr cvss"
    and lens: "\<forall>cvs\<in>set cvss. \<forall>c\<in>set (map fst cvs). length c = n"
    and st: "st = \<lparr>lgf_G = Some (Arr2 n (concat (map (map fst) cvss))),
               lgf_log = batch_log [jmin..<Suc jmax] cvss,
               lgf_file = Some (Arr2 n (concat (map (map fst) cvss)))\<rparr>"
    by (elim exE conjE)
  from m[unfolded sp map_Inr_append] obtain c1 c2 where c: "cvss = c1 @ c2"
    and m1: "map (atom_columns E) [jmin..<Suc k] = map Inr c1"
    and m2: "map (atom_columns E) [Suc k..<Suc jmax] = map Inr c2"
    by (elim exE conjE)
  from r2[unfolded run_batch_iff[OF le(2)]] obtain c2' n2 where
    m2': "map (atom_columns E) [Suc k..<Suc jmax] = map Inr c2'"
    and lens2: "\<forall>cvs\<in>set c2'. \<forall>c\<in>set (map fst cvs). length c = n2"
    and st2: "st2 = \<lparr>lgf_G = Some (Arr2 n2 (concat (map (map fst) c2'))),
               lgf_log = batch_log [Suc k..<Suc jmax] c2',
               lgf_file = Some (Arr2 n2 (concat (map (map fst) c2')))\<rparr>"
    by (elim exE conjE)
  from m2 m2' have "map Inr c2 = (map Inr c2' :: (py_error + (real list \<times> int) list) list)"
    by simp
  then have same: "c2' = c2" by (simp add: inj_map_eq_map)
  have l1: "length (concat (map (map fst) c1)) = 3 * (Suc k - jmin)"
    using columns_count[OF m1] by (simp del: upt_Suc)
  have l2: "length (concat (map (map fst) c2)) = 3 * (jmax - k)"
    using columns_count[OF m2] by (simp del: upt_Suc)
  from l2 k obtain col where col: "col \<in> set (concat (map (map fst) c2))"
    by (cases "concat (map (map fst) c2)") auto
  then obtain cvs where cvs: "cvs \<in> set c2" "col \<in> set (map fst cvs)" by auto
  from cvs lens have "length col = n" by (auto simp: c)
  moreover from cvs lens2 have "length col = n2" by (auto simp: same)
  ultimately have n: "n2 = n" by simp
  show ?thesis
    apply (rule exI[of _ n])
    apply (rule exI[of _ "concat (map (map fst) cvss)"])
    using l1 l2 k by (simp add: st st2 same n c)
qed

lemma restart_file_differs:
  assumes k: "jmin \<le> k" "k < jmax"
    and run: "run_batch E disk jmin jmax = Inr st"
    and r2: "run_batch E disk2 (Suc k) jmax = Inr st2"
  shows "lgf_file st2 \<noteq> lgf_file st"
proof -
  from restart_overwrites[OF assms] obtain n cols where
    a: "lgf_file st = Some (Arr2 n cols)" "length cols = 3 * (Suc jmax - jmin)"
    "lgf_file st2 = Some (Arr2 n (drop (3 * (Suc k - jmin)) cols))"
    by (elim exE conjE)
  have "length (drop (3 * (Suc k - jmin)) cols) \<noteq> length cols"
    using a(2) k by simp
  then have "drop (3 * (Suc k - jmin)) cols \<noteq> cols" by metis
  with a show ?thesis by simp
qed

text \<open>
  Claim C5 (as amended). The columns assembled do not depend on how the atom range is cut
  into batches, when the arrays the batches save are joined outside the program: a run
  over \<open>jmin, ..., jmax\<close> returns exactly when the runs over \<open>jmin, ..., k\<close> and over
  \<open>k + 1, ..., jmax\<close> return and their saved arrays can be joined, and then its array
  is the first batch's columns followed by the second's, and its log the two logs in
  that order. Within one run, the file as saved after atom \<open>k\<close> is the result of the batch
  \<open>jmin, ..., k\<close>, and the rest of the loop, going on from that state in memory, gives
  the result of the run. The columns are those of the pairs (atom, direction) in the
  order atom ascending, then direction 0, 1, 2. The program has no way to resume: a run
  started at atom \<open>k + 1\<close>, whatever the file holds, overwrites it with the columns of the
  atoms \<open>k + 1, ..., jmax\<close> alone, the last \<open>3 * (jmax - k)\<close> of the
  \<open>3 * (jmax + 1 - jmin)\<close> columns of the uninterrupted run, so the file differs from
  the one the uninterrupted run leaves.
\<close>

theorem batch_partition_independent:
  assumes k: "jmin \<le> k" "k < jmax"
  shows "(run_batch E disk jmin jmax = Inr st \<longleftrightarrow>
      (\<exists>st1 st2 g1 g2 g. run_batch E disk jmin k = Inr st1
         \<and> run_batch E disk2 (Suc k) jmax = Inr st2
         \<and> lgf_file st1 = Some g1 \<and> lgf_file st2 = Some g2 \<and> concat_batches g1 g2 = Inr g
         \<and> st = \<lparr>lgf_G = Some g, lgf_log = lgf_log st1 @ lgf_log st2, lgf_file = Some g\<rparr>))
   \<and> (run_batch E disk jmin jmax = Inr st \<longrightarrow>
        (\<exists>st1. run_batch E disk jmin k = Inr st1 \<and> lgf_file st1 = lgf_G st1
           \<and> assembly_loop E jmin [Suc k..<Suc jmax] st1 = Inr st))
   \<and> (run_batch E disk jmin jmax = Inr st \<longrightarrow>
        (\<exists>cvs n. map (\<lambda>(j, d). lgf_column E j d) (pairs_of [jmin..<Suc jmax]) = map Inr cvs
           \<and> lgf_file st = Some (Arr2 n (map fst cvs))))
   \<and> (run_batch E disk jmin jmax = Inr st \<and> run_batch E disk2 (Suc k) jmax = Inr sr \<longrightarrow>
        (\<exists>n cols. lgf_file st = Some (Arr2 n cols) \<and> length cols = 3 * (Suc jmax - jmin)
           \<and> lgf_file sr = Some (Arr2 n (drop (3 * (Suc k - jmin)) cols))
           \<and> lgf_G sr = lgf_file sr)
        \<and> lgf_file sr \<noteq> lgf_file st)"
proof -
  have le: "jmin \<le> jmax" "Suc k \<le> jmax" using k by simp_all
  note sp = upt_split[OF k]
  have l1: "length [jmin..<Suc k] = length c1" if "map (atom_columns E) [jmin..<Suc k] = map Inr c1"
    for c1 :: "(real list \<times> int) list list"
    using that by (metis length_map)
  have A: "\<exists>st1 st2 g1 g2 g. run_batch E disk jmin k = Inr st1
         \<and> run_batch E disk2 (Suc k) jmax = Inr st2
         \<and> lgf_file st1 = Some g1 \<and> lgf_file st2 = Some g2 \<and> concat_batches g1 g2 = Inr g
         \<and> st = \<lparr>lgf_G = Some g, lgf_log = lgf_log st1 @ lgf_log st2, lgf_file = Some g\<rparr>"
    if run: "run_batch E disk jmin jmax = Inr st"
  proof -
    from run[unfolded run_batch_iff[OF le(1)]] obtain cvss n where
      m: "map (atom_columns E) [jmin..<Suc jmax] = map Inr cvss"
      and lens: "\<forall>cvs\<in>set cvss. \<forall>c\<in>set (map fst cvs). length c = n"
      and st: "st = \<lparr>lgf_G = Some (Arr2 n (concat (map (map fst) cvss))),
                 lgf_log = batch_log [jmin..<Suc jmax] cvss,
                 lgf_file = Some (Arr2 n (concat (map (map fst) cvss)))\<rparr>"
      by (elim exE conjE)
    from m[unfolded sp map_Inr_append] obtain c1 c2 where c: "cvss = c1 @ c2"
      and m1: "map (atom_columns E) [jmin..<Suc k] = map Inr c1"
      and m2: "map (atom_columns E) [Suc k..<Suc jmax] = map Inr c2"
      by (elim exE conjE)
    define st1 where "st1 = \<lparr>lgf_G = Some (Arr2 n (concat (map (map fst) c1))),
                 lgf_log = batch_log [jmin..<Suc k] c1,
                 lgf_file = Some (Arr2 n (concat (map (map fst) c1)))\<rparr>"
    define st2 where "st2 = \<lparr>lgf_G = Some (Arr2 n (concat (map (map fst) c2))),
                 lgf_log = batch_log [Suc k..<Suc jmax] c2,
                 lgf_file = Some (Arr2 n (concat (map (map fst) c2)))\<rparr>"
    have r1: "run_batch E disk jmin k = Inr st1"
      unfolding run_batch_iff[OF k(1)]
      apply (rule exI[of _ c1])
      apply (rule exI[of _ n])
      using m1 lens by (auto simp: c st1_def simp del: upt_Suc)
    have r2: "run_batch E disk2 (Suc k) jmax = Inr st2"
      unfolding run_batch_iff[OF le(2)]
      apply (rule exI[of _ c2])
      apply (rule exI[of _ n])
      using m2 lens by (auto simp: c st2_def simp del: upt_Suc)
    have cb: "concat_batches (Arr2 n (concat (map (map fst) c1))) (Arr2 n (concat (map (map fst) c2)))
        = Inr (Arr2 n (concat (map (map fst) cvss)))"
      by (simp add: concat_batches_def c)
    have e: "st = \<lparr>lgf_G = Some (Arr2 n (concat (map (map fst) cvss))),
        lgf_log = lgf_log st1 @ lgf_log st2,
        lgf_file = Some (Arr2 n (concat (map (map fst) cvss)))\<rparr>"
      by (simp add: st st1_def st2_def sp c batch_log_append[OF l1[OF m1]] del: upt_Suc)
    show ?thesis
      apply (rule exI[of _ st1])
      apply (rule exI[of _ st2])
      apply (rule exI[of _ "Arr2 n (concat (map (map fst) c1))"])
      apply (rule exI[of _ "Arr2 n (concat (map (map fst) c2))"])
      apply (rule exI[of _ "Arr2 n (concat (map (map fst) cvss))"])
      using r1 r2 cb e by (simp add: st1_def st2_def del: upt_Suc)
  qed
  have B: "run_batch E disk jmin jmax = Inr st"
    if r1: "run_batch E disk jmin k = Inr st1" and r2: "run_batch E disk2 (Suc k) jmax = Inr st2"
      and f1: "lgf_file st1 = Some g1" and f2: "lgf_file st2 = Some g2"
      and cb: "concat_batches g1 g2 = Inr g"
      and e: "st = \<lparr>lgf_G = Some g, lgf_log = lgf_log st1 @ lgf_log st2, lgf_file = Some g\<rparr>"
    for st1 st2 g1 g2 g
  proof -
    from r1[unfolded run_batch_iff[OF k(1)]] obtain c1 n1 where
      m1: "map (atom_columns E) [jmin..<Suc k] = map Inr c1"
      and lens1: "\<forall>cvs\<in>set c1. \<forall>c\<in>set (map fst cvs). length c = n1"
      and st1: "st1 = \<lparr>lgf_G = Some (Arr2 n1 (concat (map (map fst) c1))),
                 lgf_log = batch_log [jmin..<Suc k] c1,
                 lgf_file = Some (Arr2 n1 (concat (map (map fst) c1)))\<rparr>"
      by (elim exE conjE)
    from r2[unfolded run_batch_iff[OF le(2)]] obtain c2 n2 where
      m2: "map (atom_columns E) [Suc k..<Suc jmax] = map Inr c2"
      and lens2: "\<forall>cvs\<in>set c2. \<forall>c\<in>set (map fst cvs). length c = n2"
      and st2: "st2 = \<lparr>lgf_G = Some (Arr2 n2 (concat (map (map fst) c2))),
                 lgf_log = batch_log [Suc k..<Suc jmax] c2,
                 lgf_file = Some (Arr2 n2 (concat (map (map fst) c2)))\<rparr>"
      by (elim exE conjE)
    from f1 f2 have g: "g1 = Arr2 n1 (concat (map (map fst) c1))"
      "g2 = Arr2 n2 (concat (map (map fst) c2))"
      by (simp_all add: st1 st2)
    from cb have n: "n1 = n2" and g': "g = Arr2 n1 (concat (map (map fst) (c1 @ c2)))"
      by (auto simp: concat_batches_def g split: if_splits)
    show ?thesis
      unfolding run_batch_iff[OF le(1)]
      apply (rule exI[of _ "c1 @ c2"])
      apply (rule exI[of _ n1])
      using m1 m2 lens1 lens2 n
      by (auto simp: e g' st1 st2 sp batch_log_append[OF l1[OF m1]] simp del: upt_Suc)
  qed
  have C: "\<exists>st1. run_batch E disk jmin k = Inr st1 \<and> lgf_file st1 = lgf_G st1
           \<and> assembly_loop E jmin [Suc k..<Suc jmax] st1 = Inr st"
    if run: "run_batch E disk jmin jmax = Inr st"
  proof -
    from run obtain st1 where
      r1: "assembly_loop E jmin [jmin..<Suc k] \<lparr>lgf_G = None, lgf_log = [], lgf_file = disk\<rparr> = Inr st1"
      and r2: "assembly_loop E jmin [Suc k..<Suc jmax] st1 = Inr st"
      unfolding run_batch_def sp assembly_loop_append by (auto split: sum.splits)
    from r1 have r1': "run_batch E disk jmin k = Inr st1" by (simp add: run_batch_def del: upt_Suc)
    from r1'[unfolded run_batch_iff[OF k(1)]] have "lgf_file st1 = lgf_G st1" by auto
    with r1' r2 show ?thesis by blast
  qed
  have D: "\<exists>cvs n. map (\<lambda>(j, d). lgf_column E j d) (pairs_of [jmin..<Suc jmax]) = map Inr cvs
           \<and> lgf_file st = Some (Arr2 n (map fst cvs))"
    if run: "run_batch E disk jmin jmax = Inr st"
  proof -
    from run[unfolded run_batch_iff[OF le(1)]] obtain cvss n where
      m: "map (atom_columns E) [jmin..<Suc jmax] = map Inr cvss"
      and st: "st = \<lparr>lgf_G = Some (Arr2 n (concat (map (map fst) cvss))),
                 lgf_log = batch_log [jmin..<Suc jmax] cvss,
                 lgf_file = Some (Arr2 n (concat (map (map fst) cvss)))\<rparr>"
      by (elim exE conjE)
    show ?thesis
      apply (rule exI[of _ "concat cvss"])
      apply (rule exI[of _ n])
      using pairs_columns[OF m] by (simp add: st map_concat del: upt_Suc)
  qed
  from A B have AB: "run_batch E disk jmin jmax = Inr st \<longleftrightarrow>
      (\<exists>st1 st2 g1 g2 g. run_batch E disk jmin k = Inr st1
         \<and> run_batch E disk2 (Suc k) jmax = Inr st2
         \<and> lgf_file st1 = Some g1 \<and> lgf_file st2 = Some g2 \<and> concat_batches g1 g2 = Inr g
         \<and> st = \<lparr>lgf_G = Some g, lgf_log = lgf_log st1 @ lgf_log st2, lgf_file = Some g\<rparr>)"
    by blast
  have F1: "\<exists>n cols. lgf_file st = Some (Arr2 n cols) \<and> length cols = 3 * (Suc jmax - jmin)
           \<and> lgf_file sr = Some (Arr2 n (drop (3 * (Suc k - jmin)) cols))
           \<and> lgf_G sr = lgf_file sr"
    if "run_batch E disk jmin jmax = Inr st" "run_batch E disk2 (Suc k) jmax = Inr sr"
    using restart_overwrites[OF k that] .
  have F2: "lgf_file sr \<noteq> lgf_file st"
    if "run_batch E disk jmin jmax = Inr st" "run_batch E disk2 (Suc k) jmax = Inr sr"
    using restart_file_differs[OF k that] .
  have F: "run_batch E disk jmin jmax = Inr st \<and> run_batch E disk2 (Suc k) jmax = Inr sr \<longrightarrow>
        (\<exists>n cols. lgf_file st = Some (Arr2 n cols) \<and> length cols = 3 * (Suc jmax - jmin)
           \<and> lgf_file sr = Some (Arr2 n (drop (3 * (Suc k - jmin)) cols))
           \<and> lgf_G sr = lgf_file sr)
        \<and> lgf_file sr \<noteq> lgf_file st"
    using F1 F2 by (intro impI conjI; elim conjE)
  from C have C': "run_batch E disk jmin jmax = Inr st \<longrightarrow>
        (\<exists>st1. run_batch E disk jmin k = Inr st1 \<and> lgf_file st1 = lgf_G st1
           \<and> assembly_loop E jmin [Suc k..<Suc jmax] st1 = Inr st)"
    by (rule impI)
  from D have D': "run_batch E disk jmin jmax = Inr st \<longrightarrow>
        (\<exists>cvs n. map (\<lambda>(j, d). lgf_column E j d) (pairs_of [jmin..<Suc jmax]) = map Inr cvs
           \<and> lgf_file st = Some (Arr2 n (map fst cvs)))"
    by (rule impI)
  from AB C' D' F show ?thesis by (intro conjI)
qed

subsection \<open>The right-hand side of a column\<close>

lemma unit_force_ok:
  assumes "j < size_in" "d < 3"
  shows "unit_force size_in j d = Inr ((replicate (3 * size_in) 0)[j * 3 + d := 1])"
  using assms by (simp add: unit_force_def)

lemma setBC_no_far_field:
  assumes "length grid \<le> size_in"
  shows "setBC G_largeR i grid size_in size_all GEn phi_R_grid N a0 V t_mag f
    = Inr (replicate size_all (0, 0, 0))"
  using assms by (simp add: setBC_def)

lemma setBC_ok:
  assumes i: "i < size_in" and f: "length f = size_in" and len: "length grid = size_all"
  shows "\<exists>u. setBC G_largeR i grid size_in size_all GEn phi_R_grid N a0 V t_mag f = Inr u
    \<and> length u = size_all \<and> (\<forall>k<size_all. k < size_in \<longrightarrow> u ! k = (0, 0, 0))"
proof (cases "length grid \<le> size_in")
  case True
  show ?thesis unfolding setBC_no_far_field[OF True] by simp
next
  case False
  with i f have "i < length grid" "i < length f" by simp_all
  from setBC_rows[OF this len, of G_largeR size_in GEn phi_R_grid N a0 V t_mag]
  show ?thesis by (elim exE conjE) (intro exI conjI, assumption, assumption, simp)
qed

lemma iadd_1d_same: "length c = length f \<Longrightarrow> iadd_1d f c = Inr (map2 (+) f c)"
  by (simp add: iadd_1d_def)

lemma length_unit: "length ((replicate (3 * n) (0::real))[k := 1]) = 3 * n"
  by simp

lemma corrected_force_ok:
  assumes D: "nrows (env_D E) = 3 * env_size_in E" "ncols (env_D E) = 3 * env_size_all E"
    and j: "j < env_size_in E" and d: "d < 3"
  shows "\<exists>f u_bc c.
      unit_force (env_size_in E) j d = Inr f
    \<and> f = (replicate (3 * env_size_in E) 0)[j * 3 + d := 1]
    \<and> setBC (env_G_largeR E) j (env_grid E) (env_size_in E) (env_size_all E)
         (env_GEn E) (env_phi_R_grid E) (env_N E) (env_a0 E) (env_V E) (env_t_mag E)
         (rows3 f) = Inr u_bc
    \<and> length u_bc = env_size_all E
    \<and> (\<forall>k<env_size_all E. k < env_size_in E \<longrightarrow> u_bc ! k = (0, 0, 0))
    \<and> dot_mv (env_D E) (ravel u_bc) = Inr c \<and> length c = 3 * env_size_in E
    \<and> corrected_force E j d = Inr (map2 (+) f c)
    \<and> length (map2 (+) f c) = 3 * env_size_in E"
proof -
  define f where "f = (replicate (3 * env_size_in E) (0::real))[j * 3 + d := 1]"
  have uf: "unit_force (env_size_in E) j d = Inr f"
    unfolding f_def by (rule unit_force_ok[OF j d])
  have lf: "length f = 3 * env_size_in E" by (simp add: f_def)
  have lr: "length (rows3 f) = env_size_in E" by (simp add: length_rows3 lf)
  have lg: "length (env_grid E) = env_size_all E" by (simp add: env_size_all_def)
  from setBC_ok[OF j lr lg, of "env_G_largeR E"
      "env_GEn E" "env_phi_R_grid E" "env_N E" "env_a0 E" "env_V E" "env_t_mag E"]
  obtain u_bc where bc: "setBC (env_G_largeR E) j (env_grid E) (env_size_in E) (env_size_all E)
         (env_GEn E) (env_phi_R_grid E) (env_N E) (env_a0 E) (env_V E) (env_t_mag E)
         (rows3 f) = Inr u_bc"
    and lu: "length u_bc = env_size_all E"
    and z: "\<forall>k<env_size_all E. k < env_size_in E \<longrightarrow> u_bc ! k = (0, 0, 0)"
    by (elim exE conjE)
  have "ncols (env_D E) = length (ravel u_bc)" by (simp add: D length_ravel lu)
  from dot_mv_ok[OF this] obtain c where c: "dot_mv (env_D E) (ravel u_bc) = Inr c"
    and lc: "length c = 3 * env_size_in E"
    using D by auto
  have cf: "corrected_force E j d = Inr (map2 (+) f c)"
    by (simp add: corrected_force_def uf bc c iadd_1d_same lc lf)
  have l: "length (map2 (+) f c) = 3 * env_size_in E" by (simp add: lf lc)
  show ?thesis
    apply (rule exI[of _ f])
    apply (rule exI[of _ u_bc])
    apply (rule exI[of _ c])
    using uf f_def bc lu z c lc cf l by (intro conjI)
qed

lemma corrected_force_square:
  assumes D: "nrows (env_D E) = 3 * env_size_all E" "ncols (env_D E) = 3 * env_size_all E"
    and j: "j < env_size_in E" and d: "d < 3" and lt: "env_size_in E < env_size_all E"
  shows "corrected_force E j d = Inl (ValueError ''operands could not be broadcast together'')"
proof -
  define f where "f = (replicate (3 * env_size_in E) (0::real))[j * 3 + d := 1]"
  have uf: "unit_force (env_size_in E) j d = Inr f"
    unfolding f_def by (rule unit_force_ok[OF j d])
  have lf: "length f = 3 * env_size_in E" by (simp add: f_def)
  have lr: "length (rows3 f) = env_size_in E" by (simp add: length_rows3 lf)
  have lg: "length (env_grid E) = env_size_all E" by (simp add: env_size_all_def)
  from setBC_ok[OF j lr lg, of "env_G_largeR E"
      "env_GEn E" "env_phi_R_grid E" "env_N E" "env_a0 E" "env_V E" "env_t_mag E"]
  obtain u_bc where bc: "setBC (env_G_largeR E) j (env_grid E) (env_size_in E) (env_size_all E)
         (env_GEn E) (env_phi_R_grid E) (env_N E) (env_a0 E) (env_V E) (env_t_mag E)
         (rows3 f) = Inr u_bc"
    and lu: "length u_bc = env_size_all E"
    by (elim exE conjE)
  have "ncols (env_D E) = length (ravel u_bc)" by (simp add: D length_ravel lu)
  from dot_mv_ok[OF this] obtain c where c: "dot_mv (env_D E) (ravel u_bc) = Inr c"
    and lc: "length c = 3 * env_size_all E"
    using D by auto
  from lt lc lf have "length c \<noteq> length f" "length c \<noteq> 1" by simp_all
  then show ?thesis
    by (simp add: corrected_force_def uf bc c iadd_1d_def)
qed

lemma spec_angle_pos_axis: "0 < x \<Longrightarrow> spec_angle x 0 = 0"
  by (simp add: spec_angle_def arctan2_pos_axis)

lemma list2_eq: "length xs = 2 \<Longrightarrow> xs = [xs ! 0, xs ! 1]"
  by (cases xs; cases "tl xs") auto

lemma ex_setBC:
  "setBC ex_G_largeR 0 ex_atoms 1 2 () () 256 2 1 1 [(1, 0, 0)] = Inr [(0, 0, 0), (- 2, 0, 0)]"
proof -
  have h: "(0::nat) < length ex_atoms" "(0::nat) < length [(1::real, 0::real, 0::real)]"
    "length ex_atoms = 2"
    by (simp_all add: ex_atoms_def)
  from setBC_rows[OF h, of ex_G_largeR 1 "()" "()" 256 2 1 1]
  obtain u where run: "setBC ex_G_largeR 0 ex_atoms 1 2 () () 256 2 1 1 [(1, 0, 0)] = Inr u"
    and l: "length u = 2"
    and rows: "\<forall>k<2. u ! k =
          (if k < 1 then (0, 0, 0)
           else vneg (dot3 (ex_G_largeR () ()
             (2 * sqrt ((atom_m (ex_atoms ! 0) - atom_m (ex_atoms ! k))\<^sup>2
                        + (atom_n (ex_atoms ! 0) - atom_n (ex_atoms ! k))\<^sup>2))
             (spec_angle (atom_m (ex_atoms ! 0) - atom_m (ex_atoms ! k))
                         (atom_n (ex_atoms ! 0) - atom_n (ex_atoms ! k)))
             256 2 1 1) ([(1, 0, 0)] ! 0)))"
    by (elim exE conjE)
  from rows have "u ! 0 = (0, 0, 0)" by simp
  moreover from rows[rule_format, of 1] have "u ! 1 = (- 2, 0, 0)"
    by (simp add: ex_atoms_def spec_angle_pos_axis ex_G_largeR_def)
  ultimately have "u = [(0, 0, 0), (- 2, 0, 0)]" using list2_eq[OF l] by simp
  with run show ?thesis by simp
qed

lemma ex_env_fields:
  "env_size_in (ex_env n D) = n" "env_size_all (ex_env n D) = 2" "env_grid (ex_env n D) = ex_atoms"
  "env_D (ex_env n D) = D" "env_G_largeR (ex_env n D) = ex_G_largeR" "env_GEn (ex_env n D) = ()"
  "env_phi_R_grid (ex_env n D) = ()" "env_N (ex_env n D) = 256" "env_a0 (ex_env n D) = 2"
  "env_V (ex_env n D) = 1" "env_t_mag (ex_env n D) = 1" "env_size_123 (ex_env n D) = 1"
  "env_cg (ex_env n D) = (\<lambda>A b tol. (b, 1))"
  by (simp_all add: ex_env_def env_size_all_def ex_atoms_def)

lemma ex_corrected_rect: "corrected_force (ex_env 1 ex_D_rect) 0 0 = Inr [- 1, 0, 0]"
proof -
  have uf: "unit_force 1 0 0 = Inr [1, 0, 0]" by (simp add: unit_force_def numeral_3_eq_3)
  have r: "rows3 [1, 0, 0] = [(1, 0, 0)]" by simp
  have rv: "ravel [(0, 0, 0), (- 2, 0, 0)] = [0, 0, 0, - 2, 0, 0]" by simp
  have d: "dot_mv ex_D_rect [0, 0, 0, - 2, 0, 0] = Inr [- 2, 0, 0]"
    by (simp add: dot_mv_def ex_D_rect_def upt_conv_Cons)
  have ia: "iadd_1d [1, 0, 0] [- 2, 0, 0] = Inr [- 1, 0, 0]" by (simp add: iadd_1d_def)
  show ?thesis
    unfolding corrected_force_def ex_env_fields uf sum.case r ex_setBC rv d ia ..
qed

text \<open>
  Claim C2 (as amended). For every (atom \<open>j\<close>, direction \<open>d\<close>) of the "in" region, when
  the force-constant matrix has \<open>3 * size_in\<close> rows and \<open>3 * size_all\<close> columns, the
  vector passed to the solve is \<open>f + D \<cdot> u_bc\<close>: \<open>f\<close> has \<open>3 * size_in\<close> entries,
  all zero but a one at \<open>3 * j + d\<close>; \<open>u_bc\<close> is the far-field displacement
  \<^verbatim>\<open>setBC\<close> returns for it, \<open>size_all\<close> rows of which those below \<open>size_in\<close> are
  zero; the product has \<open>3 * size_in\<close> entries and is added entry by entry.
\<close>

theorem corrected_force_adds_boundary_term:
  assumes D: "nrows (env_D E) = 3 * env_size_in E" "ncols (env_D E) = 3 * env_size_all E"
    and j: "j < env_size_in E" and d: "d < 3"
  shows "\<exists>f u_bc c fc.
      f = (replicate (3 * env_size_in E) 0)[j * 3 + d := 1]
    \<and> unit_force (env_size_in E) j d = Inr f
    \<and> setBC (env_G_largeR E) j (env_grid E) (env_size_in E) (env_size_all E)
         (env_GEn E) (env_phi_R_grid E) (env_N E) (env_a0 E) (env_V E) (env_t_mag E)
         (rows3 f) = Inr u_bc
    \<and> length u_bc = env_size_all E
    \<and> (\<forall>k<env_size_all E. k < env_size_in E \<longrightarrow> u_bc ! k = (0, 0, 0))
    \<and> dot_mv (env_D E) (ravel u_bc) = Inr c \<and> length c = 3 * env_size_in E
    \<and> corrected_force E j d = Inr fc \<and> length fc = 3 * env_size_in E
    \<and> (\<forall>k<3 * env_size_in E. fc ! k = (if k = j * 3 + d then 1 else 0) + c ! k)
    \<and> lgf_column E j d
        = Inr (take (3 * env_size_123 E) (fst (env_cg E (D_in E) fc (1 / 10 ^ 8))),
               snd (env_cg E (D_in E) fc (1 / 10 ^ 8)))"
proof -
  from corrected_force_ok[OF D j d] obtain f u_bc c where
    f: "f = (replicate (3 * env_size_in E) 0)[j * 3 + d := 1]"
    and uf: "unit_force (env_size_in E) j d = Inr f"
    and bc: "setBC (env_G_largeR E) j (env_grid E) (env_size_in E) (env_size_all E)
         (env_GEn E) (env_phi_R_grid E) (env_N E) (env_a0 E) (env_V E) (env_t_mag E)
         (rows3 f) = Inr u_bc"
    and lu: "length u_bc = env_size_all E"
    and z: "\<forall>k<env_size_all E. k < env_size_in E \<longrightarrow> u_bc ! k = (0, 0, 0)"
    and c: "dot_mv (env_D E) (ravel u_bc) = Inr c" and lc: "length c = 3 * env_size_in E"
    and cf: "corrected_force E j d = Inr (map2 (+) f c)"
    and l: "length (map2 (+) f c) = 3 * env_size_in E"
    by (elim exE conjE)
  have nth: "\<forall>k<3 * env_size_in E. map2 (+) f c ! k = (if k = j * 3 + d then 1 else 0) + c ! k"
    using lc by (auto simp: f nth_list_update)
  have col: "lgf_column E j d
        = Inr (take (3 * env_size_123 E) (fst (env_cg E (D_in E) (map2 (+) f c) (1 / 10 ^ 8))),
               snd (env_cg E (D_in E) (map2 (+) f c) (1 / 10 ^ 8)))"
    by (simp add: lgf_column_def cf split: prod.splits)
  show ?thesis
    apply (rule exI[of _ f])
    apply (rule exI[of _ u_bc])
    apply (rule exI[of _ c])
    apply (rule exI[of _ "map2 (+) f c"])
    using f uf bc lu z c lc cf l nth col by (intro conjI)
qed

theorem corrected_force_adds_boundary_term_witness:
  "nrows (env_D (ex_env 1 ex_D_rect)) = 3 * env_size_in (ex_env 1 ex_D_rect)
   \<and> ncols (env_D (ex_env 1 ex_D_rect)) = 3 * env_size_all (ex_env 1 ex_D_rect)
   \<and> (0::nat) < env_size_in (ex_env 1 ex_D_rect) \<and> (0::nat) < 3
   \<and> corrected_force (ex_env 1 ex_D_rect) 0 0 = Inr [- 1, 0, 0]
   \<and> (\<exists>fc. corrected_force (ex_env 1 ex_D_rect) 0 0 = Inr fc
         \<and> length fc = 3 * env_size_in (ex_env 1 ex_D_rect)
         \<and> lgf_column (ex_env 1 ex_D_rect) 0 0
             = Inr (take (3 * env_size_123 (ex_env 1 ex_D_rect))
                      (fst (env_cg (ex_env 1 ex_D_rect) (D_in (ex_env 1 ex_D_rect)) fc (1 / 10 ^ 8))),
                    snd (env_cg (ex_env 1 ex_D_rect) (D_in (ex_env 1 ex_D_rect)) fc (1 / 10 ^ 8))))"
proof -
  let ?E = "ex_env 1 ex_D_rect"
  have h: "nrows (env_D ?E) = 3 * env_size_in ?E" "ncols (env_D ?E) = 3 * env_size_all ?E"
    "(0::nat) < env_size_in ?E" "(0::nat) < 3"
    by (simp_all add: ex_env_fields ex_D_rect_def)
  from corrected_force_adds_boundary_term[OF h] obtain fc where
    cf: "corrected_force ?E 0 0 = Inr fc"
    and l: "length fc = 3 * env_size_in ?E"
    and col: "lgf_column ?E 0 0
        = Inr (take (3 * env_size_123 ?E) (fst (env_cg ?E (D_in ?E) fc (1 / 10 ^ 8))),
               snd (env_cg ?E (D_in ?E) fc (1 / 10 ^ 8)))"
    by (elim exE conjE)
  from cf l col have ex: "\<exists>fc. corrected_force ?E 0 0 = Inr fc
         \<and> length fc = 3 * env_size_in ?E
         \<and> lgf_column ?E 0 0
             = Inr (take (3 * env_size_123 ?E) (fst (env_cg ?E (D_in ?E) fc (1 / 10 ^ 8))),
                    snd (env_cg ?E (D_in ?E) fc (1 / 10 ^ 8)))"
    by (intro exI[of _ fc] conjI)
  from h ex_corrected_rect ex show ?thesis by (intro conjI)
qed

text \<open>
  The claim as stated fails: with a square force-constant matrix of size
  \<open>3 * size_all\<close> and a far-field atom (\<open>size_in = 1 < size_all = 2\<close>) the product has
  6 entries, the in-place addition to the 3 entries of \<open>f\<close> raises
  \<^verbatim>\<open>ValueError\<close>, and no vector reaches the solve.
\<close>

theorem corrected_force_square_D_counterexample:
  "nrows (env_D (ex_env 1 ex_D_square)) = 3 * env_size_all (ex_env 1 ex_D_square)
   \<and> ncols (env_D (ex_env 1 ex_D_square)) = 3 * env_size_all (ex_env 1 ex_D_square)
   \<and> env_size_in (ex_env 1 ex_D_square) \<le> env_size_all (ex_env 1 ex_D_square)
   \<and> corrected_force (ex_env 1 ex_D_square) 0 0
       = Inl (ValueError ''operands could not be broadcast together'')
   \<and> lgf_column (ex_env 1 ex_D_square) 0 0
       = Inl (ValueError ''operands could not be broadcast together'')"
proof -
  let ?E = "ex_env 1 ex_D_square"
  have h: "nrows (env_D ?E) = 3 * env_size_all ?E" "ncols (env_D ?E) = 3 * env_size_all ?E"
    "(0::nat) < env_size_in ?E" "(0::nat) < 3" "env_size_in ?E < env_size_all ?E"
    by (simp_all add: ex_env_fields ex_D_square_def)
  note cf = corrected_force_square[OF h]
  have col: "lgf_column ?E 0 0 = Inl (ValueError ''operands could not be broadcast together'')"
    unfolding lgf_column_def cf by simp
  from h(5) have le: "env_size_in ?E \<le> env_size_all ?E" by simp
  from h(1,2) le cf col show ?thesis by (intro conjI)
qed

subsection \<open>The solver status\<close>

lemma pairs_of_Cons: "pairs_of (j # js) = (j, 0) # (j, 1) # (j, 2) # pairs_of js"
  by (simp add: pairs_of_def)

lemma pairs_of_Nil: "pairs_of [] = []"
  by (simp add: pairs_of_def)

lemma length_pairs_of: "length (pairs_of js) = 3 * length js"
  by (induction js) (simp_all add: pairs_of_Nil pairs_of_Cons)

lemma pairs_of_mem: "(j, d) \<in> set (pairs_of js) \<Longrightarrow> j \<in> set js \<and> d < 3"
  by (induction js) (auto simp: pairs_of_Nil pairs_of_Cons)

lemma columns_by_pairs:
  "concat (map (map fst) (map (\<lambda>j. [cv j 0, cv j 1, cv j 2]) js))
     = map (\<lambda>(j, d). fst (cv j d)) (pairs_of js)"
  by (induction js) (simp_all add: pairs_of_Nil pairs_of_Cons del: One_nat_def)

lemma batch_log_by_pairs:
  "batch_log js (map (\<lambda>j. [cv j 0, cv j 1, cv j 2]) js)
     = concat (map (\<lambda>(j, d). [Debug_solve (snd (cv j d)), Info_atom j d]) (pairs_of js))"
proof (induction js)
  case Nil
  show ?case by (simp add: batch_log_def pairs_of_Nil)
next
  case (Cons j js)
  have "batch_log (j # js) (map (\<lambda>j. [cv j 0, cv j 1, cv j 2]) (j # js))
      = atom_log j [cv j 0, cv j 1, cv j 2] @ batch_log js (map (\<lambda>j. [cv j 0, cv j 1, cv j 2]) js)"
    by (simp add: batch_log_def)
  also have "atom_log j [cv j 0, cv j 1, cv j 2]
      = [Debug_solve (snd (cv j 0)), Info_atom j 0, Debug_solve (snd (cv j 1)), Info_atom j 1,
         Debug_solve (snd (cv j 2)), Info_atom j 2]"
    by (simp add: atom_log_def del: One_nat_def)
  finally show ?case by (simp add: Cons.IH pairs_of_Cons del: One_nat_def)
qed

lemma map2_map_self: "map2 g xs (map h xs) = map (\<lambda>x. g x (h x)) xs"
  by (induction xs) simp_all

lemma corrected_force_cg_update:
  "corrected_force (E\<lparr>env_cg := c\<rparr>) j d = corrected_force E j d"
  by (simp add: corrected_force_def env_size_all_def cong: sum.case_cong)

lemma D_in_cg_update: "D_in (E\<lparr>env_cg := c\<rparr>) = D_in E"
  by (simp add: D_in_def cong: if_cong)

lemma run_batch_columns:
  assumes D: "nrows (env_D E) = 3 * env_size_in E" "ncols (env_D E) = 3 * env_size_all E"
    and range: "jmin \<le> jmax" "jmax < env_size_in E"
    and solver: "\<forall>A b tol. length (fst (env_cg E A b tol)) = length b"
  shows "\<exists>st fs.
      run_batch E disk jmin jmax = Inr st
    \<and> map (\<lambda>(j, d). corrected_force E j d) (pairs_of [jmin..<Suc jmax]) = map Inr fs
    \<and> length fs = 3 * (Suc jmax - jmin)
    \<and> lgf_G st = Some (Arr2 (min (3 * env_size_123 E) (3 * env_size_in E))
          (map (\<lambda>f. take (3 * env_size_123 E) (fst (env_cg E (D_in E) f (1 / 10 ^ 8)))) fs))
    \<and> lgf_file st = lgf_G st
    \<and> lgf_log st = concat (map2 (\<lambda>(j, d) f.
          [Debug_solve (snd (env_cg E (D_in E) f (1 / 10 ^ 8))), Info_atom j d])
          (pairs_of [jmin..<Suc jmax]) fs)"
proof -
  define js where "js = [jmin..<Suc jmax]"
  define fc where "fc j d = projr (corrected_force E j d)" for j d
  define cv where "cv j d = (take (3 * env_size_123 E) (fst (env_cg E (D_in E) (fc j d) (1 / 10 ^ 8))),
      snd (env_cg E (D_in E) (fc j d) (1 / 10 ^ 8)))" for j d
  define n where "n = min (3 * env_size_123 E) (3 * env_size_in E)"
  define cvss where "cvss = map (\<lambda>j. [cv j 0, cv j 1, cv j 2]) js"
  define fs where "fs = map (\<lambda>(j, d). fc j d) (pairs_of js)"
  have valid: "j < env_size_in E" if "j \<in> set js" for j
    using that range by (auto simp: js_def)
  have cf: "corrected_force E j d = Inr (fc j d) \<and> length (fc j d) = 3 * env_size_in E"
    if "j < env_size_in E" "d < 3" for j d
    using corrected_force_ok[OF D that] by (auto simp: fc_def)
  have col: "lgf_column E j d = Inr (cv j d)" if "j < env_size_in E" "d < 3" for j d
    using cf[OF that] by (simp add: lgf_column_def cv_def split: prod.splits)
  have lcol: "length (fst (cv j d)) = n" if "j < env_size_in E" "d < 3" for j d
    using cf[OF that] solver by (simp add: cv_def n_def min.commute)
  have ac: "atom_columns E j = Inr [cv j 0, cv j 1, cv j 2]" if "j < env_size_in E" for j
    unfolding atom_columns_def using col[OF that, of 0] col[OF that, of 1] col[OF that, of 2]
    by simp
  have m: "map (atom_columns E) js = map Inr cvss"
    unfolding cvss_def using ac valid by simp
  have lens: "\<forall>cvs\<in>set cvss. \<forall>c\<in>set (map fst cvs). length c = n"
    unfolding cvss_def using lcol valid by auto
  define st where "st = \<lparr>lgf_G = Some (Arr2 n (concat (map (map fst) cvss))),
                 lgf_log = batch_log js cvss,
                 lgf_file = Some (Arr2 n (concat (map (map fst) cvss)))\<rparr>"
  have run: "run_batch E disk jmin jmax = Inr st"
    unfolding run_batch_iff[OF range(1)] js_def[symmetric]
    apply (rule exI[of _ cvss])
    apply (rule exI[of _ n])
    using m lens by (simp add: st_def)
  have a: "map (\<lambda>(j, d). corrected_force E j d) (pairs_of js) = map Inr fs"
    unfolding fs_def using cf valid by (auto dest!: pairs_of_mem)
  have b: "concat (map (map fst) cvss)
      = map (\<lambda>f. take (3 * env_size_123 E) (fst (env_cg E (D_in E) f (1 / 10 ^ 8)))) fs"
    unfolding cvss_def columns_by_pairs fs_def by (simp add: cv_def comp_def case_prod_unfold)
  have c: "batch_log js cvss = concat (map2 (\<lambda>(j, d) f.
          [Debug_solve (snd (env_cg E (D_in E) f (1 / 10 ^ 8))), Info_atom j d]) (pairs_of js) fs)"
    unfolding cvss_def batch_log_by_pairs fs_def map2_map_self
    by (simp add: cv_def case_prod_unfold)
  have d: "length fs = 3 * (Suc jmax - jmin)"
    using range(1) by (simp add: fs_def length_pairs_of js_def Suc_diff_le)
  have G: "lgf_G st = Some (Arr2 (min (3 * env_size_123 E) (3 * env_size_in E))
          (map (\<lambda>f. take (3 * env_size_123 E) (fst (env_cg E (D_in E) f (1 / 10 ^ 8)))) fs))"
    unfolding st_def b n_def by simp
  have F: "lgf_file st = lgf_G st" by (simp add: st_def)
  have L: "lgf_log st = concat (map2 (\<lambda>(j, d) f.
          [Debug_solve (snd (env_cg E (D_in E) f (1 / 10 ^ 8))), Info_atom j d])
          (pairs_of [jmin..<Suc jmax]) fs)"
  proof -
    have "lgf_log st = batch_log js cvss" by (simp add: st_def)
    also note c
    finally show ?thesis unfolding js_def .
  qed
  show ?thesis
    apply (rule exI[of _ st])
    apply (rule exI[of _ fs])
    using run a[unfolded js_def] d G F L by (intro conjI)
qed

text \<open>
  Claim C7. With a force-constant matrix of \<open>3 * size_in\<close> rows and \<open>3 * size_all\<close>
  columns, atoms \<open>jmin, ..., jmax\<close> of the "in" region and a solver that returns a
  vector of the length of its right-hand side, the loop runs to its end whatever status
  the solver returns: it records, for every pair (atom, direction) in order, the first
  \<open>3 * size_123\<close> entries of the returned solution as the next column of \<open>G\<close>, saves
  \<open>G\<close>, and logs each status followed by the pair. A solver that returns the same
  solutions with any other statuses gives the same \<open>G\<close> and the same file.
\<close>

theorem solver_status_never_halts:
  assumes D: "nrows (env_D E) = 3 * env_size_in E" "ncols (env_D E) = 3 * env_size_all E"
    and range: "jmin \<le> jmax" "jmax < env_size_in E"
    and solver: "\<forall>A b tol. length (fst (env_cg E A b tol)) = length b"
  shows "\<exists>st fs.
      run_batch E disk jmin jmax = Inr st
    \<and> map (\<lambda>(j, d). corrected_force E j d) (pairs_of [jmin..<Suc jmax]) = map Inr fs
    \<and> length fs = 3 * (Suc jmax - jmin)
    \<and> lgf_G st = Some (Arr2 (min (3 * env_size_123 E) (3 * env_size_in E))
          (map (\<lambda>f. take (3 * env_size_123 E) (fst (env_cg E (D_in E) f (1 / 10 ^ 8)))) fs))
    \<and> lgf_file st = lgf_G st
    \<and> lgf_log st = concat (map2 (\<lambda>(j, d) f.
          [Debug_solve (snd (env_cg E (D_in E) f (1 / 10 ^ 8))), Info_atom j d])
          (pairs_of [jmin..<Suc jmax]) fs)
    \<and> (\<forall>cg'. (\<forall>A b tol. fst (cg' A b tol) = fst (env_cg E A b tol)) \<longrightarrow>
          (\<exists>st'. run_batch (E\<lparr>env_cg := cg'\<rparr>) disk jmin jmax = Inr st'
             \<and> lgf_G st' = lgf_G st \<and> lgf_file st' = lgf_file st))"
proof -
  from run_batch_columns[OF D range solver, of disk] obtain st fs where
    run: "run_batch E disk jmin jmax = Inr st"
    and a: "map (\<lambda>(j, d). corrected_force E j d) (pairs_of [jmin..<Suc jmax]) = map Inr fs"
    and l: "length fs = 3 * (Suc jmax - jmin)"
    and G: "lgf_G st = Some (Arr2 (min (3 * env_size_123 E) (3 * env_size_in E))
          (map (\<lambda>f. take (3 * env_size_123 E) (fst (env_cg E (D_in E) f (1 / 10 ^ 8)))) fs))"
    and F: "lgf_file st = lgf_G st"
    and L: "lgf_log st = concat (map2 (\<lambda>(j, d) f.
          [Debug_solve (snd (env_cg E (D_in E) f (1 / 10 ^ 8))), Info_atom j d])
          (pairs_of [jmin..<Suc jmax]) fs)"
    by (elim exE conjE)
  have other: "\<exists>st'. run_batch (E\<lparr>env_cg := cg'\<rparr>) disk jmin jmax = Inr st'
             \<and> lgf_G st' = lgf_G st \<and> lgf_file st' = lgf_file st"
    if same: "\<forall>A b tol. fst (cg' A b tol) = fst (env_cg E A b tol)" for cg'
  proof -
    let ?E = "E\<lparr>env_cg := cg'\<rparr>"
    have D': "nrows (env_D ?E) = 3 * env_size_in ?E" "ncols (env_D ?E) = 3 * env_size_all ?E"
      using D by (simp_all add: env_size_all_def)
    have range': "jmin \<le> jmax" "jmax < env_size_in ?E" using range by simp_all
    have solver': "\<forall>A b tol. length (fst (env_cg ?E A b tol)) = length b"
      using solver same by simp
    from run_batch_columns[OF D' range' solver', of disk] obtain st' fs' where
      run': "run_batch ?E disk jmin jmax = Inr st'"
      and a': "map (\<lambda>(j, d). corrected_force ?E j d) (pairs_of [jmin..<Suc jmax]) = map Inr fs'"
      and G': "lgf_G st' = Some (Arr2 (min (3 * env_size_123 ?E) (3 * env_size_in ?E))
          (map (\<lambda>f. take (3 * env_size_123 ?E) (fst (env_cg ?E (D_in ?E) f (1 / 10 ^ 8)))) fs'))"
      and F': "lgf_file st' = lgf_G st'"
      by (elim exE conjE)
    from a' have "(map Inr fs :: (py_error + real list) list) = map Inr fs'"
      unfolding corrected_force_cg_update a .
    then have fs: "fs' = fs" by (simp add: inj_map_eq_map)
    have "lgf_G st' = lgf_G st"
      unfolding G' G fs D_in_cg_update using same by simp
    with run' F F' show ?thesis by (intro exI[of _ st'] conjI) simp_all
  qed
  show ?thesis
    apply (rule exI[of _ st])
    apply (rule exI[of _ fs])
    using run a l G F L other by (intro conjI allI impI)
qed

lemma ravel_replicate_zero: "ravel (replicate n (0, 0, 0)) = replicate (3 * n) 0"
  by (induction n) (simp_all add: numeral_3_eq_3)

lemma dot_mv_zero:
  "ncols A = n \<Longrightarrow> dot_mv A (replicate n 0) = Inr (replicate (nrows A) 0)"
proof -
  assume n: "ncols A = n"
  have m: "map (\<lambda>c. entry A r c * replicate n 0 ! c) [0..<n] = map (\<lambda>c. 0) [0..<n]" for r
    by (rule map_cong) simp_all
  have "(\<Sum>c\<leftarrow>[0..<n]. entry A r c * replicate n 0 ! c) = 0" for r
    unfolding m by simp
  then show ?thesis
    by (simp add: dot_mv_def n map_replicate_const)
qed

lemma map2_add_zero: "length f = n \<Longrightarrow> map2 (+) f (replicate n (0::real)) = f"
  by (intro nth_equalityI) simp_all

lemma ex2_corrected:
  assumes "j < 2" "d < 3"
  shows "corrected_force (ex_env 2 ex_D_square) j d = Inr ((replicate 6 0)[j * 3 + d := 1])"
proof -
  have uf: "unit_force 2 j d = Inr ((replicate 6 0)[j * 3 + d := 1])"
    using unit_force_ok[OF assms] by simp
  have bc: "setBC ex_G_largeR j ex_atoms 2 2 () () 256 2 1 1 f = Inr (replicate 2 (0, 0, 0))" for f
    by (rule setBC_no_far_field) (simp add: ex_atoms_def)
  have rv: "ravel (replicate 2 (0, 0, 0)) = replicate 6 0"
    using ravel_replicate_zero[of 2] by simp
  have d: "dot_mv ex_D_square (replicate 6 0) = Inr (replicate 6 0)"
    using dot_mv_zero[of ex_D_square 6] by (simp add: ex_D_square_def)
  have ia: "iadd_1d ((replicate 6 0)[j * 3 + d := 1]) (replicate 6 0)
      = Inr ((replicate 6 0)[j * 3 + d := 1])"
    by (simp add: iadd_1d_def map2_add_zero)
  show ?thesis
    unfolding corrected_force_def ex_env_fields uf sum.case bc rv d ia ..
qed

lemma ex2_column:
  assumes "j < 2" "d < 3"
  shows "lgf_column (ex_env 2 ex_D_square) j d = Inr (take 3 ((replicate 6 0)[j * 3 + d := 1]), 1)"
  unfolding lgf_column_def ex2_corrected[OF assms] ex_env_fields by simp

lemma ex2_columns:
  "lgf_column (ex_env 2 ex_D_square) 0 0 = Inr ([1, 0, 0], 1)"
  "lgf_column (ex_env 2 ex_D_square) 0 1 = Inr ([0, 1, 0], 1)"
  "lgf_column (ex_env 2 ex_D_square) 0 2 = Inr ([0, 0, 1], 1)"
  "lgf_column (ex_env 2 ex_D_square) 1 0 = Inr ([0, 0, 0], 1)"
  "lgf_column (ex_env 2 ex_D_square) 1 1 = Inr ([0, 0, 0], 1)"
  "lgf_column (ex_env 2 ex_D_square) 1 2 = Inr ([0, 0, 0], 1)"
proof -
  have r: "replicate 6 (0::real) = [0, 0, 0, 0, 0, 0]" by (simp add: eval_nat_numeral)
  have t: "take 3 (a # b # c # xs) = [a, b, c]" for a b c :: real and xs
    by (simp add: eval_nat_numeral)
  have s: "(0::nat) < 2" "(1::nat) < 2" "(0::nat) < 3" "(1::nat) < 3" "(2::nat) < 3" by simp_all
  show "lgf_column (ex_env 2 ex_D_square) 0 0 = Inr ([1, 0, 0], 1)"
    unfolding ex2_column[OF s(1) s(3)] r by (simp add: t)
  show "lgf_column (ex_env 2 ex_D_square) 0 1 = Inr ([0, 1, 0], 1)"
    unfolding ex2_column[OF s(1) s(4)] r by (simp add: t)
  show "lgf_column (ex_env 2 ex_D_square) 0 2 = Inr ([0, 0, 1], 1)"
    unfolding ex2_column[OF s(1) s(5)] r by (simp add: t)
  show "lgf_column (ex_env 2 ex_D_square) 1 0 = Inr ([0, 0, 0], 1)"
    unfolding ex2_column[OF s(2) s(3)] r by (simp add: t)
  show "lgf_column (ex_env 2 ex_D_square) 1 1 = Inr ([0, 0, 0], 1)"
    unfolding ex2_column[OF s(2) s(4)] r by (simp add: t)
  show "lgf_column (ex_env 2 ex_D_square) 1 2 = Inr ([0, 0, 0], 1)"
    unfolding ex2_column[OF s(2) s(5)] r by (simp add: t)
qed

lemma ex2_atoms:
  "atom_columns (ex_env 2 ex_D_square) 0 = Inr [([1, 0, 0], 1), ([0, 1, 0], 1), ([0, 0, 1], 1)]"
  "atom_columns (ex_env 2 ex_D_square) (Suc 0) = Inr [([0, 0, 0], 1), ([0, 0, 0], 1), ([0, 0, 0], 1)]"
  unfolding atom_columns_def One_nat_def[symmetric] ex2_columns by simp_all

lemma ex2_run0:
  "run_batch (ex_env 2 ex_D_square) disk 0 0 = Inr (ex_state [0] ex_cols_a)"
  unfolding run_batch_iff[OF le_refl]
  apply (rule exI[of _ "[[([1, 0, 0], 1), ([0, 1, 0], 1), ([0, 0, 1], 1)]]"])
  apply (rule exI[of _ 3])
  apply (simp add: ex2_atoms ex_state_def batch_log_def atom_log_def pairs_of_def
      ex_cols_a_def ex_cols_b_def numeral_3_eq_3)
  done

lemma ex2_run1:
  "run_batch (ex_env 2 ex_D_square) disk (Suc 0) (Suc 0)
     = Inr (ex_state [Suc 0] ex_cols_b)"
  unfolding run_batch_iff[OF le_refl]
  apply (rule exI[of _ "[[([0, 0, 0], 1), ([0, 0, 0], 1), ([0, 0, 0], 1)]]"])
  apply (rule exI[of _ 3])
  apply (simp add: ex2_atoms ex_state_def batch_log_def atom_log_def pairs_of_def
      ex_cols_a_def ex_cols_b_def numeral_3_eq_3)
  done

lemma ex2_run01:
  "run_batch (ex_env 2 ex_D_square) disk 0 (Suc 0)
     = Inr (ex_state [0, Suc 0] (ex_cols_a @ ex_cols_b))"
proof -
  have le: "(0::nat) \<le> Suc 0" by simp
  have u: "[0..<Suc (Suc 0)] = [0, Suc 0]" by (simp add: upt_conv_Cons)
  show ?thesis
    unfolding run_batch_iff[OF le] u
    apply (rule exI[of _ "[[([1, 0, 0], 1), ([0, 1, 0], 1), ([0, 0, 1], 1)],
        [([0, 0, 0], 1), ([0, 0, 0], 1), ([0, 0, 0], 1)]]"])
    apply (rule exI[of _ 3])
    apply (simp add: ex2_atoms ex_state_def batch_log_def atom_log_def pairs_of_def
        ex_cols_a_def ex_cols_b_def numeral_3_eq_3)
    done
qed

theorem batch_partition_independent_witness:
  "(0::nat) \<le> 0 \<and> (0::nat) < Suc 0
   \<and> run_batch (ex_env 2 ex_D_square) None 0 0
       = Inr (ex_state [0] ex_cols_a)
   \<and> run_batch (ex_env 2 ex_D_square) (lgf_file (ex_state [0] ex_cols_a))
         (Suc 0) (Suc 0)
       = Inr (ex_state [Suc 0] ex_cols_b)
   \<and> concat_batches (Arr2 3 ex_cols_a) (Arr2 3 ex_cols_b)
       = Inr (Arr2 3 (ex_cols_a @ ex_cols_b))
   \<and> run_batch (ex_env 2 ex_D_square) None 0 (Suc 0)
       = Inr (ex_state [0, Suc 0] (ex_cols_a @ ex_cols_b))
   \<and> lgf_file (ex_state [Suc 0] ex_cols_b)
       \<noteq> lgf_file (ex_state [0, Suc 0] (ex_cols_a @ ex_cols_b))"
proof -
  let ?E = "ex_env 2 ex_D_square"
  let ?c1 = "ex_cols_a"
  let ?c2 = "ex_cols_b"
  let ?c = "(ex_cols_a @ ex_cols_b)"
  have h: "(0::nat) \<le> 0" "(0::nat) < Suc 0" by simp_all
  note r1 = ex2_run0[of None]
  note r2 = ex2_run1[of "lgf_file (ex_state [0] ?c1)"]
  have cb: "concat_batches (Arr2 3 ?c1) (Arr2 3 ?c2) = Inr (Arr2 3 ?c)"
    by (simp add: concat_batches_def)
  have f1: "lgf_file (ex_state [0] ?c1) = Some (Arr2 3 ?c1)"
    and f2: "lgf_file (ex_state [Suc 0] ?c2) = Some (Arr2 3 ?c2)"
    by (simp_all add: ex_state_def)
  have e: "ex_state [0, Suc 0] ?c = \<lparr>lgf_G = Some (Arr2 3 ?c),
      lgf_log = lgf_log (ex_state [0] ?c1) @ lgf_log (ex_state [Suc 0] ?c2),
      lgf_file = Some (Arr2 3 ?c)\<rparr>"
    by (simp add: ex_state_def pairs_of_def)
  have full: "run_batch ?E None 0 (Suc 0) = Inr (ex_state [0, Suc 0] ?c)"
    apply (rule batch_partition_independent[OF h, of ?E None "ex_state [0, Suc 0] ?c"
          "lgf_file (ex_state [0] ?c1)", THEN conjunct1, THEN iffD2])
    apply (rule exI[of _ "ex_state [0] ?c1"])
    apply (rule exI[of _ "ex_state [Suc 0] ?c2"])
    apply (rule exI[of _ "Arr2 3 ?c1"])
    apply (rule exI[of _ "Arr2 3 ?c2"])
    apply (rule exI[of _ "Arr2 3 ?c"])
    using r1 r2 f1 f2 cb e apply (intro conjI)
         apply assumption+
    done
  have df: "lgf_file (ex_state [Suc 0] ?c2) \<noteq> lgf_file (ex_state [0, Suc 0] ?c)"
    using batch_partition_independent[OF h, of ?E None "ex_state [0, Suc 0] ?c"
          "lgf_file (ex_state [0] ?c1)" "ex_state [Suc 0] ?c2", THEN conjunct2, THEN conjunct2,
          THEN conjunct2, rule_format, OF conjI[OF full r2], THEN conjunct2] .
  from h r1 r2 cb full df show ?thesis by (intro conjI)
qed

text \<open>
  The claim as stated fails: with the two atoms of the fixture, the run over both leaves
  six columns in the file; interrupted after atom 0 the file holds the first three, and
  the run started at atom 1 on that file leaves the three columns of atom 1 alone.
\<close>

theorem restart_overwrites_file_counterexample:
  "run_batch (ex_env 2 ex_D_square) None 0 (Suc 0)
       = Inr (ex_state [0, Suc 0] (ex_cols_a @ ex_cols_b))
   \<and> run_batch (ex_env 2 ex_D_square) None 0 0 = Inr (ex_state [0] ex_cols_a)
   \<and> run_batch (ex_env 2 ex_D_square) (lgf_file (ex_state [0] ex_cols_a)) (Suc 0) (Suc 0)
       = Inr (ex_state [Suc 0] ex_cols_b)
   \<and> lgf_file (ex_state [Suc 0] ex_cols_b) = Some (Arr2 3 ex_cols_b)
   \<and> lgf_file (ex_state [0, Suc 0] (ex_cols_a @ ex_cols_b))
       = Some (Arr2 3 (ex_cols_a @ ex_cols_b))
   \<and> Arr2 3 ex_cols_b \<noteq> Arr2 3 (ex_cols_a @ ex_cols_b)"
proof -
  have f: "lgf_file (ex_state [Suc 0] ex_cols_b) = Some (Arr2 3 ex_cols_b)"
    "lgf_file (ex_state [0, Suc 0] (ex_cols_a @ ex_cols_b))
       = Some (Arr2 3 (ex_cols_a @ ex_cols_b))"
    by (simp_all add: ex_state_def)
  have d: "Arr2 3 ex_cols_b \<noteq> Arr2 3 (ex_cols_a @ ex_cols_b)"
    by (simp add: ex_cols_a_def ex_cols_b_def)
  from ex2_run01[of None] ex2_run0[of None] ex2_run1[of "lgf_file (ex_state [0] ex_cols_a)"] f d
  show ?thesis by (intro conjI)
qed

theorem solver_status_never_halts_witness:
  "nrows (env_D (ex_env 2 ex_D_square)) = 3 * env_size_in (ex_env 2 ex_D_square)
   \<and> ncols (env_D (ex_env 2 ex_D_square)) = 3 * env_size_all (ex_env 2 ex_D_square)
   \<and> (0::nat) \<le> Suc 0 \<and> Suc 0 < env_size_in (ex_env 2 ex_D_square)
   \<and> (\<forall>A b tol. length (fst (env_cg (ex_env 2 ex_D_square) A b tol)) = length b)
   \<and> (\<forall>A b tol. snd (env_cg (ex_env 2 ex_D_square) A b tol) = 1)
   \<and> (\<exists>st fs. run_batch (ex_env 2 ex_D_square) None 0 (Suc 0) = Inr st
         \<and> length fs = 3 * (Suc (Suc 0) - 0)
         \<and> lgf_G st = Some (Arr2 (min (3 * env_size_123 (ex_env 2 ex_D_square))
                                     (3 * env_size_in (ex_env 2 ex_D_square)))
              (map (\<lambda>f. take (3 * env_size_123 (ex_env 2 ex_D_square))
                      (fst (env_cg (ex_env 2 ex_D_square) (D_in (ex_env 2 ex_D_square)) f
                         (1 / 10 ^ 8)))) fs))
         \<and> lgf_file st = lgf_G st)"
proof -
  let ?E = "ex_env 2 ex_D_square"
  have h: "nrows (env_D ?E) = 3 * env_size_in ?E" "ncols (env_D ?E) = 3 * env_size_all ?E"
    "(0::nat) \<le> Suc 0" "Suc 0 < env_size_in ?E"
    "\<forall>A b tol. length (fst (env_cg ?E A b tol)) = length b"
    by (simp_all add: ex_env_fields ex_D_square_def)
  have s: "\<forall>A b tol. snd (env_cg ?E A b tol) = 1" by (simp add: ex_env_fields)
  from solver_status_never_halts[OF h, of None] obtain st fs where
    run: "run_batch ?E None 0 (Suc 0) = Inr st"
    and l: "length fs = 3 * (Suc (Suc 0) - 0)"
    and G: "lgf_G st = Some (Arr2 (min (3 * env_size_123 ?E) (3 * env_size_in ?E))
          (map (\<lambda>f. take (3 * env_size_123 ?E) (fst (env_cg ?E (D_in ?E) f (1 / 10 ^ 8)))) fs))"
    and F: "lgf_file st = lgf_G st"
    by (elim exE conjE)
  from run l G F have ex: "\<exists>st fs. run_batch ?E None 0 (Suc 0) = Inr st
         \<and> length fs = 3 * (Suc (Suc 0) - 0)
         \<and> lgf_G st = Some (Arr2 (min (3 * env_size_123 ?E) (3 * env_size_in ?E))
              (map (\<lambda>f. take (3 * env_size_123 ?E) (fst (env_cg ?E (D_in ?E) f (1 / 10 ^ 8)))) fs))
         \<and> lgf_file st = lgf_G st"
    by (intro exI[of _ st] exI[of _ fs] conjI)
  from h s ex show ?thesis by (intro conjI)
qed

subsection \<open>The command-line range\<close>

text \<open>
  The program with explicit atom indices is a run over that range, and with both
  defaults it is the run over the coupling region.
\<close>

lemma calc_LGF_main_explicit:
  "calc_LGF_main E disk (int a) (int b) = run_batch E disk a b"
proof -
  have "nat (int b + 1) = Suc b" by simp
  then show ?thesis
    by (simp add: calc_LGF_main_def run_batch_def Let_def del: upt_Suc)
qed

lemma calc_LGF_main_defaults:
  assumes "0 < env_size_12 E"
  shows "calc_LGF_main E disk (- 1) (- 1) = run_batch E disk (env_size_1 E) (env_size_12 E - 1)"
proof -
  have "nat (int (env_size_12 E) - 1 + 1) = Suc (env_size_12 E - 1)" using assms by simp
  then show ?thesis
    by (simp add: calc_LGF_main_def run_batch_def Let_def del: upt_Suc)
qed

end
